(* ===== verification/Prelude.thy ===== *)
theory Prelude
  imports Complex_Main "HOL-Library.Monad_Syntax" "HOL-Library.Word"
begin

text \<open>
  The shared vocabulary of the development: the collections of rewrite rules the component
  theories extend, facts on lists and on decimal and hexadecimal printing, and the byte values the
  C code names.
\<close>

section \<open>Collections of rules\<close>

named_theorems run "equations that execute one operation of the model on a symbolic state"
named_theorems frame "what an operation leaves unchanged"

declare Option.bind_eq_Some_conv [run]

text \<open>Taking a step off a computation that has a result.\<close>

lemma bind_SomeE:
  assumes "Option.bind m f = Some y"
  obtains x where "m = Some x" "f x = Some y"
  using assms by (cases m) auto

lemma bind_pairE:
  assumes "Option.bind m (\<lambda>(a, b). f a b) = Some y"
  obtains a b where "m = Some (a, b)" "f a b = Some y"
  using assms by (cases m) auto

section \<open>Bytes\<close>

abbreviation NUL :: char where "NUL \<equiv> CHR 0x00"
abbreviation LF :: char where "LF \<equiv> CHR 0x0A"
abbreviation CR :: char where "CR \<equiv> CHR 0x0D"

text \<open>\<open>tolower\<close> in the C locale: only the letters A to Z change.\<close>

definition tolower :: "char \<Rightarrow> char" where
  "tolower c = (let n = of_char c :: nat in if 65 \<le> n \<and> n \<le> 90 then char_of (n + 32) else c)"

lemma of_char_tolower:
  "of_char (tolower c) =
     (let n = of_char c :: nat in if 65 \<le> n \<and> n \<le> 90 then n + 32 else n)"
  by (simp add: tolower_def Let_def)

lemma tolower_idem [simp]: "tolower (tolower c) = tolower c"
proof (cases "65 \<le> (of_char c :: nat) \<and> (of_char c :: nat) \<le> 90")
  case True
  then have "(of_char (tolower c) :: nat) = of_char c + 32"
    by (simp add: of_char_tolower Let_def)
  with True show ?thesis
    by (simp add: tolower_def [of "tolower c"] Let_def)
next
  case False
  then show ?thesis by (auto simp: tolower_def Let_def)
qed

lemma tolower_eq_NUL [simp]: "tolower c = NUL \<longleftrightarrow> c = NUL"
proof
  assume "tolower c = NUL"
  then have "(of_char (tolower c) :: nat) = 0" by simp
  then have "(of_char c :: nat) = 0"
    by (auto simp: of_char_tolower Let_def split: if_splits)
  then have "(of_char c :: nat) = of_char NUL" by simp
  then show "c = NUL" by (rule of_char_eqI)
qed (simp add: tolower_def)

abbreviation lower :: "string \<Rightarrow> string" where
  "lower s \<equiv> map tolower s"

section \<open>Numbers as text\<close>

definition digit :: "nat \<Rightarrow> char" where
  "digit d = char_of (if d < 10 then d + 48 else d + 55)"

fun show_nat :: "nat \<Rightarrow> string" where
  "show_nat n = (if n < 10 then [digit n] else show_nat (n div 10) @ [digit (n mod 10)])"

declare show_nat.simps [simp del]

definition show_int :: "int \<Rightarrow> string" where
  "show_int i = (if i < 0 then CHR ''-'' # show_nat (nat (- i)) else show_nat (nat i))"

text \<open>Reading back: the value of a digit and of a digit string.\<close>

definition digit_val :: "char \<Rightarrow> nat" where
  "digit_val c = (let n = of_char c in if n < 58 then n - 48 else n - 55)"

definition read_nat :: "string \<Rightarrow> nat" where
  "read_nat s = foldl (\<lambda>a c. a * 10 + digit_val c) 0 s"

lemma of_char_digit: "d < 16 \<Longrightarrow> (of_char (digit d) :: nat) = (if d < 10 then d + 48 else d + 55)"
  by (simp add: digit_def)

lemma digit_val_digit [simp]: "d < 16 \<Longrightarrow> digit_val (digit d) = d"
  by (simp add: digit_val_def of_char_digit Let_def)

lemma digit_inject: "a < 16 \<Longrightarrow> b < 16 \<Longrightarrow> digit a = digit b \<longleftrightarrow> a = b"
  by (metis digit_val_digit)

lemma read_nat_snoc: "read_nat (s @ [c]) = read_nat s * 10 + digit_val c"
  by (simp add: read_nat_def)

lemma read_show_nat [simp]: "read_nat (show_nat n) = n"
proof (induction n rule: show_nat.induct)
  case (1 n)
  show ?case
  proof (cases "n < 10")
    case True
    then show ?thesis by (simp add: show_nat.simps [of n] read_nat_def)
  next
    case False
    with 1 show ?thesis
      by (simp add: show_nat.simps [of n] read_nat_snoc)
  qed
qed

lemma show_nat_inject [simp]: "show_nat a = show_nat b \<longleftrightarrow> a = b"
  by (metis read_show_nat)

lemma show_nat_nonempty [simp]: "show_nat n \<noteq> []"
  by (subst show_nat.simps) simp

lemma length_show_nat: "n < 10 ^ Suc k \<Longrightarrow> length (show_nat n) \<le> Suc k"
proof (induction k arbitrary: n)
  case 0
  then show ?case by (simp add: show_nat.simps [of n])
next
  case (Suc k)
  then have "n div 10 < 10 ^ Suc k" by (simp add: less_mult_imp_div_less mult.commute)
  with Suc.IH show ?case by (simp add: show_nat.simps [of n])
qed

lemma length_show_int:
  assumes "- (10 ^ Suc k) < i" "i < 10 ^ Suc k"
  shows "length (show_int i) \<le> Suc (Suc k)"
proof -
  have "nat (- i) < nat (10 ^ Suc k)" "nat i < nat (10 ^ Suc k)"
    using assms unfolding zless_nat_conj by (simp_all del: power_Suc)
  then have "nat (- i) < 10 ^ Suc k" "nat i < 10 ^ Suc k"
    by (simp_all only: nat_power_eq zero_le_numeral nat_numeral)
  then show ?thesis
    using length_show_nat [of "nat (- i)" k] length_show_nat [of "nat i" k] by (simp add: show_int_def)
qed

lemma show_nat_digits: "c \<in> set (show_nat n) \<Longrightarrow> \<exists>d < 10. c = digit d"
proof (induction n rule: show_nat.induct)
  case (1 n)
  show ?case
  proof (cases "n < 10")
    case True
    with "1.prems" show ?thesis by (subst (asm) show_nat.simps) auto
  next
    case False
    with "1.prems" have "c \<in> set (show_nat (n div 10)) \<or> c = digit (n mod 10)"
      by (subst (asm) show_nat.simps) auto
    with "1.IH" False show ?thesis
      by (metis mod_less_divisor zero_less_numeral)
  qed
qed

lemma digit_cases: "d < 10 \<Longrightarrow> 48 \<le> (of_char (digit d) :: nat) \<and> (of_char (digit d) :: nat) \<le> 57"
  by (simp add: of_char_digit)

lemma digit_not:
  assumes "d < 10" and "(of_char c :: nat) < 48 \<or> 57 < (of_char c :: nat)"
  shows "digit d \<noteq> c"
  using digit_cases [OF assms(1)] assms(2) by auto

lemma show_nat_not:
  assumes "(of_char c :: nat) < 48 \<or> 57 < (of_char c :: nat)"
  shows "c \<notin> set (show_nat n)"
  using show_nat_digits digit_not [OF _ assms] by metis

lemma show_int_inject [simp]: "show_int a = show_int b \<longleftrightarrow> a = b"
proof -
  have dash: "show_nat n \<noteq> CHR ''-'' # s" for n s
  proof
    assume "show_nat n = CHR ''-'' # s"
    then have "CHR ''-'' \<in> set (show_nat n)" by simp
    then show False using show_nat_not [of "CHR ''-''" n] by simp
  qed
  then have dash': "CHR ''-'' # s \<noteq> show_nat n" for n s by metis
  show ?thesis
    by (auto simp: show_int_def dash dash' split: if_splits)
qed

lemma NUL_notin_show_int [simp]: "NUL \<notin> set (show_int i)"
  using show_nat_not [of NUL] by (auto simp: show_int_def)

end
