(* ===== verification/World.thy ===== *)
theory World
  imports Prelude
begin

text \<open>
  The data of the program: its structures as records, its enumerations as datatypes, the typed
  heap they live in, the events an execution leaves behind, and the state every operation of the
  model takes and returns. Nothing is executed here; the operations on the heap are in the theory
  Memory.
\<close>

section \<open>Pointers\<close>

text \<open>
  A pointer is null, the address of a heap block, or the address of a string literal of the
  program text (read only, never freed). A byte of a block is \<open>None\<close> until it has been written.
\<close>

datatype ptr = NULL | Ptr nat | Lit string

type_synonym cell = "char option"

section \<open>Enumerations\<close>

text \<open>\<^verbatim>\<open>enum unlocked_err\<close> of \<^verbatim>\<open>error.h\<close>.\<close>

datatype unlocked_err =
    UL_OK
  | UL_CURL
  | UL_DENIED
  | UL_ERR
  | UL_ERRNO
  | UL_MALLOC
  | UL_SD_SOCKET_DISABLED
  | UL_SD_SOCKET_NO_FD
  | UL_SD_SOCKET_MANY_FD

text \<open>\<^verbatim>\<open>enum tristate\<close> of \<^verbatim>\<open>cli.h\<close> (no is -1, unset is 0, yes is 1).\<close>

datatype tristate = No | Unset | Yes

section \<open>Structures\<close>

text \<open>\<^verbatim>\<open>struct arguments\<close> of \<^verbatim>\<open>cli.h\<close>.\<close>

record arguments =
  arg_config_file :: ptr
  arg_key_handle :: ptr
  arg_host :: ptr
  arg_port :: int
  arg_secret :: ptr
  arg_username :: ptr
  arg_validate :: tristate
  arg_verbose :: tristate

text \<open>\<^verbatim>\<open>struct Request\<close> and \<^verbatim>\<open>struct Response\<close> of \<^verbatim>\<open>https-client.h\<close>.\<close>

record request =
  req_body :: ptr
  req_port :: int
  req_secret :: ptr
  req_skip_validation :: bool
  req_url :: ptr
  req_username :: ptr

record response =
  resp_body :: ptr
  resp_body_len :: nat
  resp_headers :: ptr
  resp_status :: int

text \<open>
  The functions whose address is stored in a structure. \<open>Custom\<close> stands for the callbacks of
  modules that are not part of the repository (the tests register such modules).
\<close>

datatype fn =
    Stdout_parser
  | Stdout_cleanup
  | Stdout_success
  | Parse_stdout_config
  | Sd_socket_parser
  | Sd_socket_cleanup
  | Sd_socket_init
  | Sd_socket_success
  | Parse_sd_socket_config
  | Custom nat

text \<open>\<^verbatim>\<open>struct unlocked_module\<close> of \<^verbatim>\<open>mod/module.h\<close>; a null callback is \<open>None\<close>.\<close>

record unlocked_module =
  mod_argp :: ptr
  mod_state :: ptr
  mod_name :: ptr
  mod_enabled :: bool
  mod_parse_config :: "fn option"
  mod_init :: "fn option"
  mod_success :: "fn option"
  mod_failure :: "fn option"
  mod_cleanup :: "fn option"

text \<open>
  What the program stores in a \<^verbatim>\<open>struct argp_option\<close> and a \<^verbatim>\<open>struct argp\<close> of glibc: the option's
  name, its key, whether it takes a value; the option table and the parser function.
\<close>

record argp_option =
  opt_name :: string
  opt_key :: int
  opt_has_arg :: bool

record argp =
  argp_options :: "argp_option list"
  argp_parser :: fn

section \<open>The heap\<close>

text \<open>
  A block holds characters or one structure. \<open>Raw\<close> is a structure that has been allocated and not
  initialised yet. \<open>Slist\<close> is a non-empty \<^verbatim>\<open>struct curl_slist\<close> chain with the strings of its
  nodes. An entry of a pointer array is \<open>None\<close> until it has been assigned.
\<close>

datatype obj =
    Chars "cell list"
  | Raw
  | Slist "string list"
  | Response response
  | Arguments arguments
  | Module unlocked_module
  | Argp argp
  | Sd_socket_state int
  | Ptr_array "ptr option list"

text \<open>The bytes of a string with its terminator.\<close>

abbreviation str_obj :: "string \<Rightarrow> obj" where
  "str_obj s \<equiv> Chars (map Some s @ [Some NUL])"

section \<open>Observable events\<close>

text \<open>
  What is asked of libcurl in one transfer: the options set on the handle when it is performed.
\<close>

record easy =
  opt_url :: "string option"
  opt_ssl_verifypeer :: int
  opt_ssl_verifyhost :: int
  opt_port :: int
  opt_httpheader :: "string list"
  opt_postfields :: "string option"
  opt_customrequest :: "string option"

text \<open>
  A transfer is described by the data libcurl hands to the callbacks, in order, the response code
  it reports afterwards and its own status code.
\<close>

datatype callback_data = Header_data string | Body_data string

record transfer =
  tr_data :: "callback_data list"
  tr_response_code :: int
  tr_status :: int

text \<open>
  \<open>Perform e t\<close>: the handle \<open>e\<close> was performed, and \<open>t\<close> is what the server and libcurl made of it. The
  event is the interaction as the outside sees it, so a protocol is a property of the trace.
\<close>

datatype stream = Stdout | Stderr

datatype event =
    Print stream string
  | Fwrite string
  | Perform easy transfer
  | Sleep nat
  | Curl_global_init
  | Curl_global_cleanup
  | Accept int
  | Send int string
  | Unlink string
  | Fchmod int int
  | Close int

section \<open>The state\<close>

text \<open>
  \<open>heap\<close> maps the address of every live block to its contents, \<open>brk\<close> is the next fresh address and
  counts the allocations attempted so far, and \<open>alloc_ok n\<close> says whether the n-th attempt
  succeeds. \<open>trace\<close> lists the observable events, the latest last. \<open>ext\<close> is the state of the world
  outside the process, of any type; only the functions of the libraries look at it. The fields
  that start with \<open>g\<close> are the static variables of the program.
\<close>

record 'e world =
  heap :: "nat \<Rightarrow> obj option"
  brk :: nat
  alloc_ok :: "nat \<Rightarrow> bool"
  trace :: "event list"
  ext :: 'e
  g_is_debug :: bool
  g_modules :: ptr
  g_module_count :: "32 word"
  g_sub_parsers :: ptr
  g_sub_parser_inputs :: ptr
  g_sub_parser_count :: nat
  g_hex_digest :: string
  g_socket_fd :: int

text \<open>
  An operation takes the state and returns its result with the new state. \<open>None\<close> is undefined
  behaviour: a null or dangling pointer is used, a block is freed twice, a buffer is read or
  written out of its bounds, an uninitialised byte is read.
\<close>

type_synonym ('a, 'e) res = "('a \<times> 'e world) option"

text \<open>An operation that works on memory only.\<close>

definition heap_only :: "'e world \<Rightarrow> 'e world \<Rightarrow> bool" where
  "heap_only w w' \<longleftrightarrow> w' = w\<lparr>heap := heap w', brk := brk w'\<rparr>"

lemma heap_only_refl [simp]: "heap_only w w"
  by (simp add: heap_only_def)

lemma heap_only_trans: "heap_only w w' \<Longrightarrow> heap_only w' w'' \<Longrightarrow> heap_only w w''"
  by (cases w; cases w'; cases w''; simp add: heap_only_def)

lemma heap_only_upd: "heap_only w w' \<Longrightarrow> heap_only w (w'\<lparr>heap := h\<rparr>)"
  by (cases w; cases w'; simp add: heap_only_def)

lemma heap_only_frame [frame]:
  assumes "heap_only w w'"
  shows "trace w' = trace w" "ext w' = ext w" "alloc_ok w' = alloc_ok w"
    "g_hex_digest w' = g_hex_digest w" "g_is_debug w' = g_is_debug w"
    "g_modules w' = g_modules w" "g_module_count w' = g_module_count w"
  using assms by (cases w; cases w'; simp add: heap_only_def)+

definition emit :: "event \<Rightarrow> 'e world \<Rightarrow> 'e world" where
  "emit e w = w\<lparr>trace := trace w @ [e]\<rparr>"

text \<open>
  Every block has an address below \<open>brk\<close>, so that an address at or above it is fresh; the static
  buffer for the digest has its 129 bytes.
\<close>

definition world_wf :: "'e world \<Rightarrow> bool" where
  "world_wf w \<longleftrightarrow> (\<forall>b \<ge> brk w. heap w b = None) \<and> length (g_hex_digest w) = 129"

lemma world_wfD: "world_wf w \<Longrightarrow> brk w \<le> b \<Longrightarrow> heap w b = None"
  by (simp add: world_wf_def)

lemma world_wf_fresh [simp]: "world_wf w \<Longrightarrow> heap w (brk w) = None"
  by (simp add: world_wf_def)

lemma world_wf_less: "world_wf w \<Longrightarrow> heap w b = Some x \<Longrightarrow> b < brk w"
  by (metis world_wfD leI option.distinct(1))

lemma world_wf_digest: "world_wf w \<Longrightarrow> length (g_hex_digest w) = 129"
  by (simp add: world_wf_def)

section \<open>The library's type classes on the model's enumerations\<close>

text \<open>The value a C compiler gives each constant; both enumerations are ordered by it.\<close>

fun err_code :: "unlocked_err \<Rightarrow> nat" where
  "err_code UL_OK = 0"
| "err_code UL_CURL = 1"
| "err_code UL_DENIED = 2"
| "err_code UL_ERR = 3"
| "err_code UL_ERRNO = 4"
| "err_code UL_MALLOC = 5"
| "err_code UL_SD_SOCKET_DISABLED = 6"
| "err_code UL_SD_SOCKET_NO_FD = 7"
| "err_code UL_SD_SOCKET_MANY_FD = 8"

lemma err_code_inject [simp]: "err_code a = err_code b \<longleftrightarrow> a = b"
  by (cases a; cases b) simp_all

fun tristate_val :: "tristate \<Rightarrow> int" where
  "tristate_val No = - 1"
| "tristate_val Unset = 0"
| "tristate_val Yes = 1"

lemma tristate_val_inject [simp]: "tristate_val a = tristate_val b \<longleftrightarrow> a = b"
  by (cases a; cases b) simp_all

instantiation unlocked_err :: linorder
begin
definition less_eq_unlocked_err :: "unlocked_err \<Rightarrow> unlocked_err \<Rightarrow> bool" where
  "less_eq_unlocked_err a b \<longleftrightarrow> err_code a \<le> err_code b"
definition less_unlocked_err :: "unlocked_err \<Rightarrow> unlocked_err \<Rightarrow> bool" where
  "less_unlocked_err a b \<longleftrightarrow> err_code a < err_code b"
instance
  by standard (auto simp: less_eq_unlocked_err_def less_unlocked_err_def)
end

instantiation tristate :: linorder
begin
definition less_eq_tristate :: "tristate \<Rightarrow> tristate \<Rightarrow> bool" where
  "less_eq_tristate a b \<longleftrightarrow> tristate_val a \<le> tristate_val b"
definition less_tristate :: "tristate \<Rightarrow> tristate \<Rightarrow> bool" where
  "less_tristate a b \<longleftrightarrow> tristate_val a < tristate_val b"
instance
  by standard (auto simp: less_eq_tristate_def less_tristate_def)
end

end
