(* ===== verification/Memory.thy ===== *)
theory Memory
  imports World
begin

text \<open>
  The parts of the C library the program uses: allocation, access to blocks, strings, formatted
  output into a buffer. Every access checks the block it goes to; a failed check is \<open>None\<close>.
  The last section holds what the components rely on: \<open>alloc_str\<close>, the effect of a routine
  that returns a fresh string, and the contract of such routines as a locale.
\<close>

section \<open>Allocation\<close>

text \<open>\<^verbatim>\<open>malloc\<close> fails above \<^verbatim>\<open>PTRDIFF_MAX\<close>, whatever memory is free; \<^verbatim>\<open>size_t\<close> wraps at 64 bits.\<close>

definition ptrdiff_max :: nat where "ptrdiff_max = 9223372036854775807"

definition size_t :: "nat \<Rightarrow> nat" where "size_t n = n mod 18446744073709551616"

definition int_max :: nat where "int_max = 2147483647"

text \<open>One attempt to allocate a block with the given contents.\<close>

definition new_block :: "obj \<Rightarrow> 'e world \<Rightarrow> (ptr, 'e) res" where
  "new_block ob w =
     (if alloc_ok w (brk w)
      then Some (Ptr (brk w), w\<lparr>brk := Suc (brk w), heap := (heap w)(brk w \<mapsto> ob)\<rparr>)
      else Some (NULL, w\<lparr>brk := Suc (brk w)\<rparr>))"

definition malloc :: "nat \<Rightarrow> 'e world \<Rightarrow> (ptr, 'e) res" where
  "malloc n w =
     (if n \<le> ptrdiff_max then new_block (Chars (replicate n None)) w
      else Some (NULL, w\<lparr>brk := Suc (brk w)\<rparr>))"

text \<open>\<^verbatim>\<open>malloc (sizeof (struct s))\<close>: a structure whose members are not initialised.\<close>

definition malloc_struct :: "'e world \<Rightarrow> (ptr, 'e) res" where
  "malloc_struct w = new_block Raw w"

definition free :: "ptr \<Rightarrow> 'e world \<Rightarrow> 'e world option" where
  "free p w =
     (case p of
        NULL \<Rightarrow> Some w
      | Ptr b \<Rightarrow> (if heap w b = None then None else Some (w\<lparr>heap := (heap w)(b := None)\<rparr>))
      | Lit _ \<Rightarrow> None)"

section \<open>Access to blocks\<close>

definition deref :: "ptr \<Rightarrow> 'e world \<Rightarrow> obj option" where
  "deref p w = (case p of Ptr b \<Rightarrow> heap w b | _ \<Rightarrow> None)"

definition assign :: "ptr \<Rightarrow> obj \<Rightarrow> 'e world \<Rightarrow> 'e world option" where
  "assign p ob w =
     (case p of
        Ptr b \<Rightarrow> (if heap w b = None then None else Some (w\<lparr>heap := (heap w)(b \<mapsto> ob)\<rparr>))
      | _ \<Rightarrow> None)"

definition chars_of :: "ptr \<Rightarrow> 'e world \<Rightarrow> cell list option" where
  "chars_of p w = (case deref p w of Some (Chars cs) \<Rightarrow> Some cs | _ \<Rightarrow> None)"

definition response_of :: "ptr \<Rightarrow> 'e world \<Rightarrow> response option" where
  "response_of p w = (case deref p w of Some (Response r) \<Rightarrow> Some r | _ \<Rightarrow> None)"

definition arguments_of :: "ptr \<Rightarrow> 'e world \<Rightarrow> arguments option" where
  "arguments_of p w = (case deref p w of Some (Arguments a) \<Rightarrow> Some a | _ \<Rightarrow> None)"

definition module_of :: "ptr \<Rightarrow> 'e world \<Rightarrow> unlocked_module option" where
  "module_of p w = (case deref p w of Some (Module m) \<Rightarrow> Some m | _ \<Rightarrow> None)"

definition argp_of :: "ptr \<Rightarrow> 'e world \<Rightarrow> argp option" where
  "argp_of p w = (case deref p w of Some (Argp a) \<Rightarrow> Some a | _ \<Rightarrow> None)"

definition ptr_array_of :: "ptr \<Rightarrow> 'e world \<Rightarrow> ptr option list option" where
  "ptr_array_of p w = (case deref p w of Some (Ptr_array ps) \<Rightarrow> Some ps | _ \<Rightarrow> None)"

text \<open>
  The strings of a \<^verbatim>\<open>struct curl_slist\<close>: the null pointer is the empty list, a block has at least
  one node.
\<close>

definition slist_of :: "ptr \<Rightarrow> 'e world \<Rightarrow> string list option" where
  "slist_of p w =
     (if p = NULL then Some []
      else case deref p w of Some (Slist xs) \<Rightarrow> (if xs = [] then None else Some xs) | _ \<Rightarrow> None)"

section \<open>Characters and strings\<close>

definition put :: "nat \<Rightarrow> string \<Rightarrow> cell list \<Rightarrow> cell list" where
  "put off s cs = take off cs @ map Some s @ drop (off + length s) cs"

text \<open>Write \<open>s\<close> at \<open>p + off\<close> (an assignment to a byte, \<^verbatim>\<open>memcpy\<close>): all of it within the block.\<close>

definition store :: "ptr \<Rightarrow> nat \<Rightarrow> string \<Rightarrow> 'e world \<Rightarrow> 'e world option" where
  "store p off s w =
     (case chars_of p w of
        None \<Rightarrow> None
      | Some cs \<Rightarrow>
          if off + length s \<le> length cs then assign p (Chars (put off s cs)) w else None)"

text \<open>Read the byte at \<open>p + off\<close>.\<close>

definition load :: "ptr \<Rightarrow> nat \<Rightarrow> 'e world \<Rightarrow> char option" where
  "load p off w =
     (case chars_of p w of
        None \<Rightarrow> None
      | Some cs \<Rightarrow> if off < length cs then cs ! off else None)"

text \<open>The string that starts at a position: read on to the terminator, within the block.\<close>

fun scan :: "cell list \<Rightarrow> string option" where
  "scan [] = None"
| "scan (None # cs) = None"
| "scan (Some c # cs) = (if c = NUL then Some [] else map_option ((#) c) (scan cs))"

definition cstr :: "ptr \<Rightarrow> 'e world \<Rightarrow> string option" where
  "cstr p w =
     (case p of
        Lit s \<Rightarrow> scan (map Some s @ [Some NUL])
      | _ \<Rightarrow> Option.bind (chars_of p w) scan)"

definition strcat :: "ptr \<Rightarrow> string \<Rightarrow> 'e world \<Rightarrow> 'e world option" where
  "strcat p s w =
     (case cstr p w of None \<Rightarrow> None | Some d \<Rightarrow> store p (length d) (s @ [NUL]) w)"

definition strdup :: "ptr \<Rightarrow> 'e world \<Rightarrow> (ptr, 'e) res" where
  "strdup p w = do {
     s \<leftarrow> cstr p w;
     (q, w) \<leftarrow> malloc (size_t (length s + 1)) w;
     if q = NULL then Some (NULL, w)
     else do { w \<leftarrow> store q 0 (s @ [NUL]) w; Some (q, w) }
   }"

text \<open>
  \<^verbatim>\<open>realloc\<close> on a block of characters: the old block is freed when the new one is there, and kept
  when there is none.
\<close>

definition realloc :: "ptr \<Rightarrow> nat \<Rightarrow> 'e world \<Rightarrow> (ptr, 'e) res" where
  "realloc p n w =
     (case p of
        NULL \<Rightarrow> malloc n w
      | _ \<Rightarrow> (if n = 0 then do { w \<leftarrow> free p w; Some (NULL, w) }
              else do {
                cs \<leftarrow> chars_of p w;
                (q, w) \<leftarrow> malloc n w;
                if q = NULL then Some (NULL, w)
                else do {
                  w \<leftarrow> assign q (Chars (take n cs @ replicate (n - length cs) None)) w;
                  w \<leftarrow> free p w;
                  Some (q, w)
                }
              }))"

section \<open>Formatted output\<close>

text \<open>
  The conversions the program uses: \<^verbatim>\<open>%s\<close>, \<^verbatim>\<open>%d\<close>, \<^verbatim>\<open>%ld\<close>, \<^verbatim>\<open>%02d\<close>, \<^verbatim>\<open>%02X\<close>. A format is split into pieces
  once; \<open>Bad\<close> is any other conversion (and \<^verbatim>\<open>%%\<close> prints a percent sign).
\<close>

datatype piece = Plain char | Str | Dec | Long | Dec02 | Hex02 | Bad

fun pieces :: "string \<Rightarrow> piece list" where
  "pieces [] = []"
| "pieces (c # cs) =
     (if c \<noteq> CHR ''%'' then Plain c # pieces cs
      else case cs of
        [] \<Rightarrow> [Bad]
      | d # ds \<Rightarrow>
          if d = CHR ''s'' then Str # pieces ds
          else if d = CHR ''d'' then Dec # pieces ds
          else if d = CHR ''%'' then Plain d # pieces ds
          else case ds of
            [] \<Rightarrow> [Bad]
          | e # es \<Rightarrow>
              if d = CHR ''l'' \<and> e = CHR ''d'' then Long # pieces es
              else case es of
                [] \<Rightarrow> [Bad]
              | f # fs \<Rightarrow>
                  if d = CHR ''0'' \<and> e = CHR ''2'' \<and> f = CHR ''d'' then Dec02 # pieces fs
                  else if d = CHR ''0'' \<and> e = CHR ''2'' \<and> f = CHR ''X'' then Hex02 # pieces fs
                  else [Bad])"

text \<open>An argument of a formatted output: a string or an integer.\<close>

datatype farg = AStr ptr | AInt int

definition pad02 :: "string \<Rightarrow> string" where
  "pad02 s = (if length s < 2 then CHR ''0'' # s else s)"

definition show_hex02 :: "int \<Rightarrow> string" where
  "show_hex02 i = [digit (nat i div 16), digit (nat i mod 16)]"

text \<open>
  \<open>vformat\<close> is the text of a formatted output. Reading a string argument goes through the heap;
  glibc prints \<^verbatim>\<open>(null)\<close> for a null string. \<^verbatim>\<open>%d\<close> takes the low 32 bits of its argument as an \<^verbatim>\<open>int\<close>.
  A conversion without an argument of its type is undefined, and so is \<^verbatim>\<open>%02X\<close> outside a byte.
\<close>

fun vformat :: "piece list \<Rightarrow> farg list \<Rightarrow> 'e world \<Rightarrow> string option" where
  "vformat [] as w = Some []"
| "vformat (Plain c # ps) as w = map_option ((#) c) (vformat ps as w)"
| "vformat (Str # ps) (AStr p # as) w =
     (case (if p = NULL then Some ''(null)'' else cstr p w) of
        None \<Rightarrow> None
      | Some s \<Rightarrow> map_option ((@) s) (vformat ps as w))"
| "vformat (Dec # ps) (AInt i # as) w =
     map_option ((@) (show_int (signed_take_bit 31 i))) (vformat ps as w)"
| "vformat (Long # ps) (AInt i # as) w = map_option ((@) (show_int i)) (vformat ps as w)"
| "vformat (Dec02 # ps) (AInt i # as) w =
     map_option ((@) (pad02 (show_int (signed_take_bit 31 i)))) (vformat ps as w)"
| "vformat (Hex02 # ps) (AInt i # as) w =
     (if 0 \<le> i \<and> i < 256 then map_option ((@) (show_hex02 i)) (vformat ps as w) else None)"
| "vformat _ _ _ = None"

abbreviation format :: "string \<Rightarrow> farg list \<Rightarrow> 'e world \<Rightarrow> string option" where
  "format fmt \<equiv> vformat (pieces fmt)"

text \<open>
  \<^verbatim>\<open>snprintf (NULL, 0, fmt, ...)\<close> measures; it is negative when the length is not an \<^verbatim>\<open>int\<close>.
  \<^verbatim>\<open>snprintf (buf, n, fmt, ...)\<close> writes at most \<open>n - 1\<close> bytes and the terminator.
\<close>

definition printed_len :: "string \<Rightarrow> int" where
  "printed_len s = (if length s \<le> int_max then int (length s) else - 1)"

definition snprintf_len :: "string \<Rightarrow> farg list \<Rightarrow> 'e world \<Rightarrow> int option" where
  "snprintf_len fmt as w = map_option printed_len (format fmt as w)"

definition snprintf :: "ptr \<Rightarrow> nat \<Rightarrow> string \<Rightarrow> farg list \<Rightarrow> 'e world \<Rightarrow> (int, 'e) res" where
  "snprintf p n fmt as w = do {
     s \<leftarrow> format fmt as w;
     if printed_len s < 0 \<or> n = 0 then Some (printed_len s, w)
     else do { w \<leftarrow> store p 0 (take (n - 1) s @ [NUL]) w; Some (printed_len s, w) }
   }"

section \<open>Facts on blocks and strings\<close>

lemma scan_str [simp]: "NUL \<notin> set s \<Longrightarrow> scan (map Some s @ Some NUL # r) = Some s"
  by (induction s) auto

lemma scan_cut: "scan (map Some s @ Some NUL # r) = Some (takeWhile (\<lambda>c. c \<noteq> NUL) s)"
  by (induction s) auto

lemma scan_no_nul: "scan cs = Some s \<Longrightarrow> NUL \<notin> set s"
  by (induction cs arbitrary: s rule: scan.induct) (auto split: if_splits)

lemma scan_length: "scan cs = Some s \<Longrightarrow> length s < length cs"
  by (induction cs arbitrary: s rule: scan.induct) (fastforce split: if_splits)+

lemma cstr_no_nul: "cstr p w = Some s \<Longrightarrow> NUL \<notin> set s"
  by (auto simp: cstr_def Option.bind_eq_Some_conv split: ptr.splits dest: scan_no_nul)

lemma cstr_NULL [simp]: "cstr NULL w = None"
  by (simp add: cstr_def chars_of_def deref_def)

lemma cstr_Lit [simp]: "NUL \<notin> set s \<Longrightarrow> cstr (Lit s) w = Some s"
  by (simp add: cstr_def)

lemma cstr_Ptr: "cstr (Ptr b) w = (case heap w b of Some (Chars cs) \<Rightarrow> scan cs | _ \<Rightarrow> None)"
  by (simp add: cstr_def chars_of_def deref_def split: option.splits obj.splits)

lemma cstr_str_obj [simp]:
  "heap w b = Some (str_obj s) \<Longrightarrow> NUL \<notin> set s \<Longrightarrow> cstr (Ptr b) w = Some s"
  by (simp add: cstr_Ptr)

lemma chars_of_Ptr [simp]: "heap w b = Some (Chars cs) \<Longrightarrow> chars_of (Ptr b) w = Some cs"
  by (simp add: chars_of_def deref_def)

lemma length_put: "off + length s \<le> length cs \<Longrightarrow> length (put off s cs) = length cs"
  by (simp add: put_def)

lemma put_0_all: "length s = length cs \<Longrightarrow> put 0 s cs = map Some s"
  by (simp add: put_def)

lemma put_0_replicate: "length s = n \<Longrightarrow> put 0 s (replicate n None) = map Some s"
  by (simp add: put_0_all)

text \<open>Writing right behind a prefix that is complete.\<close>

lemma put_append:
  "put (length a) s (map Some a @ r) = map Some (a @ s) @ drop (length s) r"
  by (simp add: put_def)

lemma store_Ptr:
  "heap w b = Some (Chars cs) \<Longrightarrow>
   store (Ptr b) off s w =
     (if off + length s \<le> length cs
      then Some (w\<lparr>heap := (heap w)(b \<mapsto> Chars (put off s cs))\<rparr>) else None)"
  by (simp add: store_def assign_def)

lemma free_NULL [simp]: "free NULL w = Some w"
  by (simp add: free_def)

lemma free_Ptr [simp]:
  "heap w b = Some x \<Longrightarrow> free (Ptr b) w = Some (w\<lparr>heap := (heap w)(b := None)\<rparr>)"
  by (simp add: free_def)

lemma assign_Ptr [simp]:
  "heap w b = Some x \<Longrightarrow> assign (Ptr b) ob w = Some (w\<lparr>heap := (heap w)(b \<mapsto> ob)\<rparr>)"
  by (simp add: assign_def)

lemma size_t_small: "n \<le> Suc ptrdiff_max \<Longrightarrow> size_t n = n"
  by (simp add: size_t_def ptrdiff_max_def)

text \<open>The blocks a pointer refers to.\<close>

fun blocks_of :: "ptr \<Rightarrow> nat set" where
  "blocks_of (Ptr b) = {b}"
| "blocks_of _ = {}"

section \<open>Heaps that grow\<close>

text \<open>What a state can read, it still reads in a state whose heap has more blocks.\<close>

lemma deref_mono: "heap w \<subseteq>\<^sub>m heap w' \<Longrightarrow> deref p w = Some x \<Longrightarrow> deref p w' = Some x"
  by (auto simp: deref_def map_le_def dom_def split: ptr.splits)

lemma chars_of_mono: "heap w \<subseteq>\<^sub>m heap w' \<Longrightarrow> chars_of p w = Some x \<Longrightarrow> chars_of p w' = Some x"
  by (auto simp: chars_of_def deref_mono split: option.splits obj.splits)

lemma cstr_mono: "heap w \<subseteq>\<^sub>m heap w' \<Longrightarrow> cstr p w = Some s \<Longrightarrow> cstr p w' = Some s"
  by (auto simp: cstr_def Option.bind_eq_Some_conv chars_of_mono split: ptr.splits)

lemma slist_of_mono: "heap w \<subseteq>\<^sub>m heap w' \<Longrightarrow> slist_of p w = Some xs \<Longrightarrow> slist_of p w' = Some xs"
  by (auto simp: slist_of_def split: if_splits option.splits obj.splits dest: deref_mono)

lemma vformat_mono:
  "heap w \<subseteq>\<^sub>m heap w' \<Longrightarrow> vformat ps as w = Some s \<Longrightarrow> vformat ps as w' = Some s"
  by (induction ps as w arbitrary: s rule: vformat.induct)
     (auto split: if_splits option.splits dest: cstr_mono)

lemma map_le_fresh: "h b = None \<Longrightarrow> h \<subseteq>\<^sub>m h(b \<mapsto> x)"
  by (simp add: map_le_def dom_def)

text \<open>Reading depends on the heap only.\<close>

lemma deref_heap_cong: "heap w = heap w' \<Longrightarrow> deref p w = deref p w'"
  by (simp add: deref_def split: ptr.splits)

lemma chars_of_heap_cong: "heap w = heap w' \<Longrightarrow> chars_of p w = chars_of p w'"
  by (simp add: chars_of_def deref_heap_cong [of w w'])

lemma cstr_heap_cong: "heap w = heap w' \<Longrightarrow> cstr p w = cstr p w'"
  by (simp add: cstr_def chars_of_heap_cong [of w w'] split: ptr.splits)

lemma vformat_heap_cong:
  assumes "heap w = heap w'"
  shows "vformat ps as w = vformat ps as w'"
proof -
  have "heap w \<subseteq>\<^sub>m heap w'" "heap w' \<subseteq>\<^sub>m heap w" using assms by simp_all
  then show ?thesis
    by (metis not_Some_eq vformat_mono)
qed

lemma NUL_notin_pad02 [simp]: "NUL \<notin> set (pad02 (show_int i))"
  using NUL_notin_show_int [of i] by (auto simp: pad02_def split: if_splits)

lemma digit_eq_NUL [simp]: "d < 16 \<Longrightarrow> digit d = NUL \<longleftrightarrow> False"
  using of_char_digit [of d] by (auto split: if_splits)

lemma NUL_notin_show_hex02 [simp]: "0 \<le> i \<Longrightarrow> i < 256 \<Longrightarrow> NUL \<notin> set (show_hex02 i)"
  by (auto simp: show_hex02_def dest!: sym [of NUL])

lemma vformat_no_nul:
  "vformat ps as w = Some s \<Longrightarrow> Plain NUL \<notin> set ps \<Longrightarrow> NUL \<notin> set s"
  by (induction ps as w arbitrary: s rule: vformat.induct)
     (auto split: if_splits option.splits dest: cstr_no_nul)

section \<open>Routines that return a fresh string\<close>

text \<open>The effect of such a routine: a new block with the string, or null.\<close>

definition alloc_str :: "string \<Rightarrow> 'e world \<Rightarrow> ptr \<times> 'e world" where
  "alloc_str s w =
     (if alloc_ok w (brk w)
      then (Ptr (brk w), w\<lparr>brk := Suc (brk w), heap := (heap w)(brk w \<mapsto> str_obj s)\<rparr>)
      else (NULL, w\<lparr>brk := Suc (brk w)\<rparr>))"

lemma malloc_small:
  "n \<le> ptrdiff_max \<Longrightarrow> malloc n w = new_block (Chars (replicate n None)) w"
  by (simp add: malloc_def)

lemma strdup_eq:
  assumes "cstr p w = Some s" and "length s < ptrdiff_max"
  shows "strdup p w = Some (alloc_str s w)"
proof -
  have "size_t (length s + 1) = length s + 1" and "length s + 1 \<le> ptrdiff_max"
    using assms(2) by (simp_all add: size_t_small)
  then show ?thesis
    using assms(1)
    by (simp add: strdup_def malloc_small new_block_def alloc_str_def Let_def store_Ptr
        put_0_replicate del: replicate.simps)
qed

text \<open>
  The shape every formatting routine of the program has: measure, allocate, print, and free the
  buffer again when printing fails.
\<close>

lemma print_into_fresh_buffer:
  assumes wf: "world_wf w" and fmt: "format fmt as w = Some s" and len: "length s \<le> int_max"
  shows "do { (p, w) \<leftarrow> malloc (size_t (length s + 1)) w;
             if p = NULL then Some (NULL, w)
             else do {
               (n, w) \<leftarrow> snprintf p (size_t (length s + 1)) fmt as w;
               if n < 0 then do { w \<leftarrow> free p w; Some (NULL, w) } else Some (p, w)
             }
           } = Some (alloc_str s w)"
proof -
  have small: "size_t (length s + 1) = length s + 1" "length s + 1 \<le> ptrdiff_max"
    using len by (simp_all add: size_t_small ptrdiff_max_def int_max_def)
  let ?w = "w\<lparr>brk := Suc (brk w), heap := (heap w)(brk w \<mapsto> Chars (replicate (length s + 1) None))\<rparr>"
  have "heap w \<subseteq>\<^sub>m heap ?w" using wf by (simp add: map_le_fresh)
  then have "format fmt as ?w = Some s" using fmt by (rule vformat_mono)
  then show ?thesis
    using small len
    by (simp add: malloc_small new_block_def alloc_str_def Let_def snprintf_def printed_len_def
        store_Ptr put_0_replicate del: replicate.simps)
qed

text \<open>
  What a caller may rely on after such a routine: only fresh addresses are used, and the heap is
  the old one, with the string at one fresh address if the pointer is not null.
\<close>

definition fresh_str :: "string \<Rightarrow> 'e world \<Rightarrow> ptr \<Rightarrow> 'e world \<Rightarrow> bool" where
  "fresh_str s w p w' \<longleftrightarrow>
     world_wf w' \<and> brk w \<le> brk w' \<and> alloc_ok w' = alloc_ok w \<and>
     (case p of
        NULL \<Rightarrow> heap w' = heap w
      | Ptr b \<Rightarrow> brk w \<le> b \<and> heap w' = (heap w)(b \<mapsto> str_obj s)
      | Lit _ \<Rightarrow> False)"

lemma alloc_str_fresh: "world_wf w \<Longrightarrow> alloc_str s w = (p, w') \<Longrightarrow> fresh_str s w p w'"
  by (auto simp: alloc_str_def fresh_str_def world_wf_def Let_def split: if_splits)

lemma alloc_str_ex: "world_wf w \<Longrightarrow> \<exists>p w'. alloc_str s w = (p, w') \<and> fresh_str s w p w'"
  by (metis alloc_str_fresh surj_pair)

lemma alloc_str_NULL: "alloc_str s w = (NULL, w') \<Longrightarrow> \<exists>n. \<not> alloc_ok w n"
  by (auto simp: alloc_str_def split: if_splits)

lemma fresh_strD:
  assumes "fresh_str s w p w'"
  shows "world_wf w'" "brk w \<le> brk w'" "alloc_ok w' = alloc_ok w"
  using assms by (auto simp: fresh_str_def)

lemma fresh_str_cases:
  assumes "fresh_str s w p w'"
  obtains "p = NULL" "heap w' = heap w"
    | b where "p = Ptr b" "brk w \<le> b" "heap w' = (heap w)(b \<mapsto> str_obj s)"
  using assms by (auto simp: fresh_str_def split: ptr.splits)

text \<open>
  The interface between a routine that builds a string and the code that uses the string: under
  \<open>pre\<close> the routine is defined and has the effect above, with the text \<open>text_of\<close>. The lemmas are
  what the callers need: the result is readable, the blocks that existed are untouched, and
  freeing the result leaves the heap as it was.
\<close>

locale string_builder =
  fixes build :: "'e world \<Rightarrow> (ptr, 'e) res"
    and pre :: "'e world \<Rightarrow> bool"
    and text_of :: "'e world \<Rightarrow> string"
  assumes build_fresh:
      "world_wf w \<Longrightarrow> pre w \<Longrightarrow> \<exists>p w'. build w = Some (p, w') \<and> fresh_str (text_of w) w p w'"
    and text_no_nul: "pre w \<Longrightarrow> NUL \<notin> set (text_of w)"
    and null_only_without_memory:
      "world_wf w \<Longrightarrow> pre w \<Longrightarrow> build w = Some (NULL, w') \<Longrightarrow> \<exists>n. \<not> alloc_ok w n"
begin

lemma defined: "world_wf w \<Longrightarrow> pre w \<Longrightarrow> build w \<noteq> None"
  using build_fresh by fastforce

lemma result_fresh:
  "world_wf w \<Longrightarrow> pre w \<Longrightarrow> build w = Some (p, w') \<Longrightarrow> fresh_str (text_of w) w p w'"
  using build_fresh by fastforce

lemma with_memory:
  assumes "world_wf w" "pre w" "\<And>n. alloc_ok w n"
  obtains b w' where "build w = Some (Ptr b, w')" "fresh_str (text_of w) w (Ptr b) w'"
proof -
  obtain p w' where b: "build w = Some (p, w')" "fresh_str (text_of w) w p w'"
    using build_fresh [OF assms(1,2)] by blast
  then have "p \<noteq> NULL" using null_only_without_memory assms by blast
  with b(2) obtain c where "p = Ptr c" by (auto elim: fresh_str_cases)
  with b show ?thesis using that by blast
qed

lemma result_text:
  assumes "world_wf w" "pre w" "build w = Some (p, w')" "p \<noteq> NULL"
  shows "cstr p w' = Some (text_of w)"
  using result_fresh [OF assms(1-3)] assms(4) text_no_nul [OF assms(2)]
  by (auto elim!: fresh_str_cases)

lemma old_blocks:
  assumes "world_wf w" "pre w" "build w = Some (p, w')" "heap w b = Some x"
  shows "heap w' b = Some x"
  using result_fresh [OF assms(1-3)] world_wf_less [OF assms(1,4)] assms(4)
  by (auto elim!: fresh_str_cases)

lemma old_strings:
  assumes "world_wf w" "pre w" "build w = Some (p, w')" "cstr q w = Some s"
  shows "cstr q w' = Some s"
proof -
  have "heap w \<subseteq>\<^sub>m heap w'"
    using old_blocks [OF assms(1-3)] by (auto simp: map_le_def dom_def)
  then show ?thesis using assms(4) by (rule cstr_mono)
qed

lemma free_restores:
  assumes "world_wf w" "pre w" "build w = Some (p, w')"
  shows "\<exists>w''. free p w' = Some w'' \<and> heap w'' = heap w"
  using result_fresh [OF assms]
proof (cases rule: fresh_str_cases)
  case 1
  then show ?thesis by simp
next
  case (2 b)
  moreover have "heap w b = None" using assms(1) 2(2) by (rule world_wfD)
  ultimately show ?thesis by (simp add: fun_upd_idem)
qed

end

text \<open>\<^verbatim>\<open>strdup\<close> is the library's own such routine.\<close>

interpretation strdup: string_builder
  "strdup p" "\<lambda>w. \<exists>s. cstr p w = Some s \<and> length s < ptrdiff_max" "\<lambda>w. the (cstr p w)" for p
  by unfold_locales (auto simp: strdup_eq alloc_str_ex cstr_no_nul dest: alloc_str_NULL)

end
