(* ===== verification/Errors_Log.thy ===== *)
theory Errors_Log
  imports Memory
begin

text \<open>
  \<^verbatim>\<open>src/error.c\<close> (the message of an error code) and \<^verbatim>\<open>src/log.c\<close> (the logger: which stream a level
  goes to, what is printed). \<open>actions\<close> is the trace without the diagnostic output; every
  component uses that logging does not change it.
\<close>

section \<open>error.c\<close>

abbreviation ERR_OK :: string where "ERR_OK \<equiv> ''No error'' @ [LF]"
abbreviation ERR_CURL :: string where "ERR_CURL \<equiv> ''There was an error calling libcurl'' @ [LF]"
abbreviation ERR_DENIED :: string where "ERR_DENIED \<equiv> ''The request was denied by the server'' @ [LF]"
abbreviation ERR_ERR :: string where "ERR_ERR \<equiv> ''Logic error'' @ [LF]"
abbreviation ERR_MALLOC :: string where "ERR_MALLOC \<equiv> ''Failed to allocate memory'' @ [LF]"
abbreviation ERR_SD_SOCKET_DISABLED :: string where
  "ERR_SD_SOCKET_DISABLED \<equiv>
     ''SD_SOCKET is not active, but at least one file descriptor was passed to the program'' @ [LF]"
abbreviation ERR_SD_SOCKET_NO_FD :: string where
  "ERR_SD_SOCKET_NO_FD \<equiv>
     ''SD_SOCKET is active, but no file descriptor was passed to the program'' @ [LF]"
abbreviation ERR_SD_SOCKET_MANY_FD :: string where
  "ERR_SD_SOCKET_MANY_FD \<equiv>
     ''SD_SOCKET is active and more than one file descriptor was passed to the program'' @ [LF]"
abbreviation ERR_UNKNOWN :: string where "ERR_UNKNOWN \<equiv> ''Unknomn error'' @ [LF]"

text \<open>
  \<open>errno_text\<close> is what \<^verbatim>\<open>strerror (errno)\<close> returns. The argument is the integer behind the
  enumeration, so the default branch of the switch is there as well.
\<close>

definition ul_error :: "string \<Rightarrow> nat \<Rightarrow> string" where
  "ul_error errno_text err =
     (if err = err_code UL_OK then ERR_OK
      else if err = err_code UL_CURL then ERR_CURL
      else if err = err_code UL_DENIED then ERR_DENIED
      else if err = err_code UL_ERR then ERR_ERR
      else if err = err_code UL_ERRNO then errno_text
      else if err = err_code UL_MALLOC then ERR_MALLOC
      else if err = err_code UL_SD_SOCKET_DISABLED then ERR_SD_SOCKET_DISABLED
      else if err = err_code UL_SD_SOCKET_NO_FD then ERR_SD_SOCKET_NO_FD
      else if err = err_code UL_SD_SOCKET_MANY_FD then ERR_SD_SOCKET_MANY_FD
      else ERR_UNKNOWN)"

section \<open>log.c\<close>

abbreviation LOG_DEBUG :: string where "LOG_DEBUG \<equiv> ''debug''"
abbreviation LOG_ERROR :: string where "LOG_ERROR \<equiv> ''error''"
abbreviation LOG_INFO :: string where "LOG_INFO \<equiv> ''info''"
abbreviation LOG_WARNING :: string where "LOG_WARNING \<equiv> ''warning''"

definition ul_debug :: "'e world \<Rightarrow> bool" where
  "ul_debug w = g_is_debug w"

definition log_stream :: "string \<Rightarrow> 'e world \<Rightarrow> stream option" where
  "log_stream level w =
     (if level = LOG_ERROR \<or> level = LOG_WARNING then Some Stderr
      else if level = LOG_DEBUG then (if ul_debug w then Some Stdout else None)
      else Some Stdout)"

text \<open>The arguments are only read when a stream was chosen.\<close>

definition logger :: "string \<Rightarrow> string \<Rightarrow> farg list \<Rightarrow> 'e world \<Rightarrow> 'e world option" where
  "logger level fmt as w =
     (case log_stream level w of
        None \<Rightarrow> Some w
      | Some stream \<Rightarrow> do {
          let w = emit (Print stream (''['' @ level @ ''] '')) w;
          s \<leftarrow> format fmt as w;
          Some (emit (Print stream s) w)
        })"

section \<open>What logging does to the state\<close>

fun is_print :: "event \<Rightarrow> bool" where
  "is_print (Print _ _) = True"
| "is_print _ = False"

definition actions :: "'e world \<Rightarrow> event list" where
  "actions w = filter (\<lambda>e. \<not> is_print e) (trace w)"

lemma actions_emit [simp]:
  "actions (emit e w) = (if is_print e then actions w else actions w @ [e])"
  by (simp add: actions_def emit_def)

lemma actions_cong: "trace w' = trace w \<Longrightarrow> actions w' = actions w"
  by (simp add: actions_def)

lemma actions_upd [simp]:
  "actions (w\<lparr>heap := h\<rparr>) = actions w" "actions (w\<lparr>brk := n\<rparr>) = actions w"
  "actions (w\<lparr>ext := x\<rparr>) = actions w" "actions (w\<lparr>g_hex_digest := s\<rparr>) = actions w"
  by (simp_all add: actions_def)

lemma logger_debug_off [simp]: "\<not> g_is_debug w \<Longrightarrow> logger LOG_DEBUG fmt as w = Some w"
  by (simp add: logger_def log_stream_def ul_debug_def)

text \<open>Only the trace changes, by diagnostic output.\<close>

lemma loggerD:
  assumes "logger level fmt as w = Some w'"
  shows "\<exists>ps. w' = w\<lparr>trace := trace w @ ps\<rparr> \<and> list_all is_print ps"
proof (cases "log_stream level w")
  case None
  with assms have "w' = w\<lparr>trace := trace w @ []\<rparr> \<and> list_all is_print []"
    by (simp add: logger_def)
  then show ?thesis by blast
next
  case (Some st)
  with assms obtain s where
    "w' = w\<lparr>trace := trace w @ [Print st (''['' @ level @ ''] ''), Print st s]\<rparr>"
    by (auto simp: logger_def emit_def Option.bind_eq_Some_conv)
  then show ?thesis by fastforce
qed

lemma actions_logger:
  assumes "logger level fmt as w = Some w'"
  shows "actions w' = actions w"
proof -
  obtain ps where "w' = w\<lparr>trace := trace w @ ps\<rparr>" and "list_all is_print ps"
    using loggerD [OF assms] by blast
  then show ?thesis by (simp add: actions_def list_all_iff)
qed

lemma logger_frame [frame]:
  assumes "logger level fmt as w = Some w'"
  shows "heap w' = heap w" "brk w' = brk w" "alloc_ok w' = alloc_ok w" "ext w' = ext w"
    "g_modules w' = g_modules w" "g_module_count w' = g_module_count w"
    "g_is_debug w' = g_is_debug w" "actions w' = actions w"
  using loggerD [OF assms] actions_logger [OF assms] by auto

text \<open>Logging is defined whenever its arguments can be printed.\<close>

lemma logger_defined:
  assumes "format fmt as w \<noteq> None"
  shows "\<exists>w'. logger level fmt as w = Some w'"
proof -
  have "vformat ps as (emit e w) = vformat ps as w" for ps e
    by (rule vformat_heap_cong) (simp add: emit_def)
  with assms show ?thesis
    by (auto simp: logger_def split: option.splits)
qed

section \<open>What an operation does outside its memory\<close>

text \<open>
  \<open>did es w w'\<close>: from \<open>w\<close> to \<open>w'\<close> the actions \<open>es\<close> were performed, and the static variables other
  than the digest buffer and the modules' table are as before.
\<close>

definition did :: "event list \<Rightarrow> 'e world \<Rightarrow> 'e world \<Rightarrow> bool" where
  "did es w w' \<longleftrightarrow>
     actions w' = actions w @ es \<and> alloc_ok w' = alloc_ok w \<and> g_is_debug w' = g_is_debug w \<and>
     g_modules w' = g_modules w \<and> g_module_count w' = g_module_count w \<and>
     g_sub_parsers w' = g_sub_parsers w \<and> g_sub_parser_inputs w' = g_sub_parser_inputs w \<and>
     g_sub_parser_count w' = g_sub_parser_count w \<and> g_socket_fd w' = g_socket_fd w"

lemma did_refl [simp]: "did [] w w"
  by (simp add: did_def)

lemma did_trans [trans]: "did es w w' \<Longrightarrow> did fs w' w'' \<Longrightarrow> did (es @ fs) w w''"
  by (simp add: did_def)

lemma did_nothing [trans]: "did [] w w' \<Longrightarrow> did es w' w'' \<Longrightarrow> did es w w''"
  using did_trans by fastforce

lemma did_frame:
  assumes "did es w w'"
  shows "actions w' = actions w @ es" "alloc_ok w' = alloc_ok w" "g_is_debug w' = g_is_debug w"
    "g_modules w' = g_modules w" "g_module_count w' = g_module_count w"
  using assms by (simp_all add: did_def)

lemma did_upd [simp]:
  "did es w (w'\<lparr>heap := h\<rparr>) = did es w w'" "did es w (w'\<lparr>brk := n\<rparr>) = did es w w'"
  "did es w (w'\<lparr>ext := x\<rparr>) = did es w w'" "did es w (w'\<lparr>g_hex_digest := s\<rparr>) = did es w w'"
  by (simp_all add: did_def)

lemma did_emit: "did (if is_print e then [] else [e]) w (emit e w)"
  by (simp add: did_def) (simp add: emit_def)

lemma did_heap_only: "heap_only w w' \<Longrightarrow> did [] w w'"
  unfolding heap_only_def by (metis did_refl did_upd(1,2))

lemma did_logger: "logger level fmt as w = Some w' \<Longrightarrow> did [] w w'"
  using loggerD actions_logger by (fastforce simp: did_def)

end
