(* ===== verification/Module_Table.thy ===== *)
theory Module_Table
  imports Errors_Log
begin

text \<open>
  \<^verbatim>\<open>src/mod/module.c\<close> (the table of modules and the functions that call one callback of each) and the
  child parsers of \<^verbatim>\<open>src/cli.c\<close> that follow the table. The callbacks are reached through their
  addresses: \<open>dispatch\<close> says what the function at an address does. The locale \<open>module_steps\<close> is the
  contract of such a callback; under it a loop over the table is a walk over the list of modules.
\<close>

section \<open>The functions behind the addresses\<close>

text \<open>
  A \<^verbatim>\<open>dictionary\<close> of iniparser, by what the program reads from it: \<^verbatim>\<open>iniparser_getstring\<close> with a null
  default, \<^verbatim>\<open>iniparser_getlongint\<close> and \<^verbatim>\<open>iniparser_getboolean\<close>.
\<close>

record dictionary =
  ini_string :: "string \<Rightarrow> string option"
  ini_long :: "string \<Rightarrow> int \<Rightarrow> int"
  ini_boolean :: "string \<Rightarrow> int \<Rightarrow> int"

record 'e dispatch =
  call_parse_config :: "fn \<Rightarrow> ptr \<Rightarrow> dictionary \<Rightarrow> 'e world \<Rightarrow> (unlocked_err, 'e) res"
  call_init :: "fn \<Rightarrow> ptr \<Rightarrow> 'e world \<Rightarrow> (unlocked_err, 'e) res"
  call_success :: "fn \<Rightarrow> ptr \<Rightarrow> ptr \<Rightarrow> 'e world \<Rightarrow> (unlocked_err, 'e) res"
  call_failure :: "fn \<Rightarrow> ptr \<Rightarrow> unlocked_err \<Rightarrow> 'e world \<Rightarrow> (unlocked_err, 'e) res"
  call_cleanup :: "fn \<Rightarrow> ptr \<Rightarrow> 'e world \<Rightarrow> (unlocked_err, 'e) res"

text \<open>
  The functions of the C library and of systemd the modules call: how many bytes \<^verbatim>\<open>fwrite\<close> writes to
  the standard output, whether \<^verbatim>\<open>fflush\<close> succeeds, the number and the names \<^verbatim>\<open>sd_listen_fds_with_names\<close>
  returns, and the results of \<^verbatim>\<open>accept\<close> and \<^verbatim>\<open>send\<close>.
\<close>

record 'e platform =
  os_fwrite :: "string \<Rightarrow> 'e \<Rightarrow> nat \<times> 'e"
  os_fflush :: "'e \<Rightarrow> bool \<times> 'e"
  os_listen_fds :: "'e \<Rightarrow> (int \<times> string list) \<times> 'e"
  os_accept :: "int \<Rightarrow> 'e \<Rightarrow> int \<times> 'e"
  os_send :: "int \<Rightarrow> string \<Rightarrow> 'e \<Rightarrow> int \<times> 'e"

definition ARGP_ERR_UNKNOWN :: int where "ARGP_ERR_UNKNOWN = 7"

section \<open>Arrays of pointers\<close>

text \<open>\<^verbatim>\<open>realloc\<close> on an array of \<open>n\<close> elements of \<open>k\<close> bytes.\<close>

definition new_ptr_array :: "nat \<Rightarrow> nat \<Rightarrow> 'e world \<Rightarrow> (ptr, 'e) res" where
  "new_ptr_array k n w =
     (if size_t (k * n) \<le> ptrdiff_max then new_block (Ptr_array (replicate n None)) w
      else Some (NULL, w\<lparr>brk := Suc (brk w)\<rparr>))"

definition realloc_ptr_array :: "nat \<Rightarrow> ptr \<Rightarrow> nat \<Rightarrow> 'e world \<Rightarrow> (ptr, 'e) res" where
  "realloc_ptr_array k p n w =
     (if p = NULL then new_ptr_array k n w
      else if n = 0 then do { w \<leftarrow> free p w; Some (NULL, w) }
      else do {
        ps \<leftarrow> ptr_array_of p w;
        (q, w) \<leftarrow> new_ptr_array k n w;
        if q = NULL then Some (NULL, w)
        else do {
          w \<leftarrow> assign q (Ptr_array (take n ps @ replicate (n - length ps) None)) w;
          w \<leftarrow> free p w;
          Some (q, w)
        }
      })"

definition set_entry :: "ptr \<Rightarrow> nat \<Rightarrow> ptr \<Rightarrow> 'e world \<Rightarrow> 'e world option" where
  "set_entry p i q w = do {
     ps \<leftarrow> ptr_array_of p w;
     if i < length ps then assign p (Ptr_array (ps[i := Some q])) w else None
   }"

definition get_entry :: "ptr \<Rightarrow> nat \<Rightarrow> 'e world \<Rightarrow> ptr option" where
  "get_entry p i w = do {
     ps \<leftarrow> ptr_array_of p w;
     if i < length ps then ps ! i else None
   }"

section \<open>The loop over the table\<close>

text \<open>
  \<^verbatim>\<open>for (unsigned int i = 0; i < module_count; i++)\<close> with the early return. The counter has 32 bits;
  it cannot wrap, since it is below the count.
\<close>

type_synonym 'e mod_step = "ptr \<Rightarrow> unlocked_module \<Rightarrow> 'e world \<Rightarrow> (unlocked_err, 'e) res"

lemma unat_next:
  assumes "i < (c :: 32 word)"
  shows "unat (i + 1) = Suc (unat i)"
proof -
  have "unat i < unat c" "unat c < 2 ^ 32"
    using assms unsigned_less [of c, where ?'a = nat] by (simp_all add: word_less_nat_alt)
  then have "unat i + unat (1 :: 32 word) < 2 ^ LENGTH(32)" by simp
  then show ?thesis by (simp only: unat_add_lem [THEN iffD1] unat_1)
qed

function module_loop :: "'e mod_step \<Rightarrow> 32 word \<Rightarrow> 'e world \<Rightarrow> (unlocked_err, 'e) res" where
  "module_loop step i w =
     (if i < g_module_count w then do {
        mp \<leftarrow> get_entry (g_modules w) (unat i) w;
        m \<leftarrow> module_of mp w;
        (err, w) \<leftarrow> step mp m w;
        if err \<noteq> UL_OK then Some (err, w) else module_loop step (i + 1) w
      }
      else Some (UL_OK, w))"
  by pat_completeness auto
termination
proof (relation "measure (\<lambda>(step, i, w). 2 ^ 32 - unat i)", goal_cases)
  case (2 step i w mp m x err w')
  then show ?case using unat_next unsigned_less [of i, where ?'a = nat] by simp
qed simp

declare module_loop.simps [simp del]

section \<open>The operations\<close>

text \<open>One turn of each loop: a module without the callback (or disabled) is passed over.\<close>

definition cleanup_step :: "'e dispatch \<Rightarrow> 'e mod_step" where
  "cleanup_step D mp m w =
     (case mod_cleanup m of None \<Rightarrow> Some (UL_OK, w) | Some f \<Rightarrow> call_cleanup D f mp w)"

definition init_step :: "'e dispatch \<Rightarrow> 'e mod_step" where
  "init_step D mp m w =
     (case mod_init m of None \<Rightarrow> Some (UL_OK, w) | Some f \<Rightarrow> call_init D f mp w)"

definition parse_config_step :: "'e dispatch \<Rightarrow> dictionary \<Rightarrow> 'e mod_step" where
  "parse_config_step D ini mp m w =
     (case mod_parse_config m of None \<Rightarrow> Some (UL_OK, w) | Some f \<Rightarrow> call_parse_config D f mp ini w)"

definition log_callback :: "string \<Rightarrow> ptr \<Rightarrow> 'e world \<Rightarrow> 'e world option" where
  "log_callback what name w =
     (if name \<noteq> NULL then
        logger LOG_DEBUG (''Invoking '' @ what @ '' callback on module \"%s\"'' @ [LF]) [AStr name] w
      else logger LOG_DEBUG (''Invoking '' @ what @ '' callback on unnamed module'' @ [LF]) [] w)"

definition success_step :: "'e dispatch \<Rightarrow> ptr \<Rightarrow> 'e mod_step" where
  "success_step D key mp m w =
     (case mod_success m of
        None \<Rightarrow> Some (UL_OK, w)
      | Some f \<Rightarrow>
          if mod_enabled m then do {
            w \<leftarrow> log_callback ''success'' (mod_name m) w;
            call_success D f mp key w
          }
          else Some (UL_OK, w))"

definition failure_step :: "'e dispatch \<Rightarrow> unlocked_err \<Rightarrow> 'e mod_step" where
  "failure_step D provided_err mp m w =
     (case mod_failure m of
        None \<Rightarrow> Some (UL_OK, w)
      | Some f \<Rightarrow>
          if mod_enabled m then do {
            w \<leftarrow> log_callback ''failure'' (mod_name m) w;
            call_failure D f mp provided_err w
          }
          else Some (UL_OK, w))"

text \<open>When a clean-up callback fails, the table is not freed.\<close>

definition cleanup_modules :: "'e dispatch \<Rightarrow> 'e world \<Rightarrow> (unlocked_err, 'e) res" where
  "cleanup_modules D w = do {
     (err, w) \<leftarrow> module_loop (cleanup_step D) 0 w;
     if err \<noteq> UL_OK then Some (err, w)
     else do {
       w \<leftarrow> free (g_modules w) w;
       Some (UL_OK, w\<lparr>g_modules := NULL, g_module_count := 0\<rparr>)
     }
   }"

definition handle_failure :: "'e dispatch \<Rightarrow> unlocked_err \<Rightarrow> 'e world \<Rightarrow> (unlocked_err, 'e) res" where
  "handle_failure D provided_err w = module_loop (failure_step D provided_err) 0 w"

definition handle_success :: "'e dispatch \<Rightarrow> ptr \<Rightarrow> 'e world \<Rightarrow> (unlocked_err, 'e) res" where
  "handle_success D key w = module_loop (success_step D key) 0 w"

definition initialize_modules :: "'e dispatch \<Rightarrow> 'e world \<Rightarrow> (unlocked_err, 'e) res" where
  "initialize_modules D w = module_loop (init_step D) 0 w"

definition parse_config :: "'e dispatch \<Rightarrow> dictionary \<Rightarrow> 'e world \<Rightarrow> (unlocked_err, 'e) res" where
  "parse_config D ini w = module_loop (parse_config_step D ini) 0 w"

text \<open>
  \<^verbatim>\<open>register_child_parser\<close> of \<^verbatim>\<open>cli.c\<close>. The successful path has no return statement: its result is
  \<open>None\<close>. An entry of \<^verbatim>\<open>sub_parsers\<close> is a structure whose only varying member is the parser.
\<close>

definition register_child_parser :: "ptr \<Rightarrow> 'e world \<Rightarrow> (unlocked_err option, 'e) res" where
  "register_child_parser mp w = do {
     m \<leftarrow> module_of mp w;
     if mod_argp m = NULL then Some (Some UL_OK, w)
     else do {
       let n = g_sub_parser_count w;
       (parsers, w) \<leftarrow> realloc_ptr_array 32 (g_sub_parsers w) (n + 2) w;
       let w = w\<lparr>g_sub_parsers := parsers\<rparr>;
       if parsers = NULL then Some (Some UL_MALLOC, w)
       else do {
         (inputs, w) \<leftarrow> realloc_ptr_array 8 (g_sub_parser_inputs w) (n + 1) w;
         let w = w\<lparr>g_sub_parser_inputs := inputs\<rparr>;
         if inputs = NULL then Some (Some UL_MALLOC, w)
         else do {
           w \<leftarrow> set_entry parsers n (mod_argp m) w;
           w \<leftarrow> set_entry parsers (n + 1) NULL w;
           w \<leftarrow> set_entry inputs n mp w;
           Some (None, w\<lparr>g_sub_parser_count := n + 1\<rparr>)
         }
       }
     }
   }"

definition free_child_parsers :: "'e world \<Rightarrow> 'e world option" where
  "free_child_parsers w = do {
     w \<leftarrow> free (g_sub_parsers w) w;
     w \<leftarrow> free (g_sub_parser_inputs w) w;
     Some (w\<lparr>g_sub_parser_count := 0\<rparr>)
   }"

text \<open>The count is an \<^verbatim>\<open>unsigned int\<close>: its successor wraps before it becomes a size.\<close>

definition register_module :: "ptr \<Rightarrow> 'e world \<Rightarrow> (unlocked_err, 'e) res" where
  "register_module mp w = do {
     (modules, w) \<leftarrow> realloc_ptr_array 8 (g_modules w) (unat (g_module_count w + 1)) w;
     let w = w\<lparr>g_modules := modules\<rparr>;
     if modules = NULL then Some (UL_MALLOC, w)
     else do {
       w \<leftarrow> set_entry modules (unat (g_module_count w)) mp w;
       let w = w\<lparr>g_module_count := g_module_count w + 1\<rparr>;
       (_, w) \<leftarrow> register_child_parser mp w;
       Some (UL_OK, w)
     }
   }"

section \<open>The contract of a step\<close>

text \<open>The table holds the modules \<open>mps\<close>, in the order of their registration.\<close>

definition table :: "ptr list \<Rightarrow> 'e world \<Rightarrow> bool" where
  "table mps w \<longleftrightarrow>
     unat (g_module_count w) = length mps \<and>
     (mps = [] \<or> ptr_array_of (g_modules w) w = Some (map Some mps))"

text \<open>The loop as a walk over the list of modules.\<close>

fun walk :: "'e mod_step \<Rightarrow> ptr list \<Rightarrow> 'e world \<Rightarrow> (unlocked_err, 'e) res" where
  "walk step [] w = Some (UL_OK, w)"
| "walk step (mp # mps) w = do {
     m \<leftarrow> module_of mp w;
     (err, w) \<leftarrow> step mp m w;
     if err \<noteq> UL_OK then Some (err, w) else walk step mps w
   }"

text \<open>
  The contract: \<open>inv mps w\<close> holds while the modules \<open>mps\<close> are still to be visited; it gives the next
  module, the step is defined there and keeps the invariant and the table.
\<close>

locale module_steps =
  fixes step :: "'e mod_step"
    and inv :: "ptr list \<Rightarrow> 'e world \<Rightarrow> bool"
  assumes step_ok:
    "inv (mp # mps) w \<Longrightarrow>
     \<exists>m err w'. module_of mp w = Some m \<and> step mp m w = Some (err, w') \<and> inv mps w' \<and>
       (\<forall>all. table all w \<longrightarrow> table all w')"
begin

lemma walk_defined: "inv mps w \<Longrightarrow> \<exists>err w'. walk step mps w = Some (err, w')"
proof (induction mps arbitrary: w)
  case (Cons mp mps)
  then show ?case using step_ok [OF Cons.prems] by fastforce
qed simp

lemma walk_inv: "inv mps w \<Longrightarrow> walk step mps w = Some (UL_OK, w') \<Longrightarrow> inv [] w'"
proof (induction mps arbitrary: w)
  case (Cons mp mps)
  then show ?case using step_ok [OF Cons.prems(1)] by (fastforce split: if_splits)
qed simp

lemma walk_table:
  "inv mps w \<Longrightarrow> table all w \<Longrightarrow> walk step mps w = Some (err, w') \<Longrightarrow> table all w'"
proof (induction mps arbitrary: w)
  case (Cons mp mps)
  then show ?case using step_ok [OF Cons.prems(1)] by (fastforce split: if_splits)
qed simp

text \<open>The loop visits the rest of the table, in order.\<close>

lemma loop_walk:
  "table all w \<Longrightarrow> inv (drop (unat i) all) w \<Longrightarrow> module_loop step i w = walk step (drop (unat i) all) w"
proof (induction "length all - unat i" arbitrary: i w)
  case 0
  then have "\<not> i < g_module_count w" by (simp add: table_def word_less_nat_alt)
  with 0 show ?case by (simp add: module_loop.simps)
next
  case (Suc n)
  then have lt: "unat i < length all" by simp
  let ?mp = "all ! unat i" and ?rest = "drop (Suc (unat i)) all"
  have cons: "drop (unat i) all = ?mp # ?rest" using lt by (simp add: Cons_nth_drop_Suc)
  have i: "i < g_module_count w" using lt Suc.prems(1) by (simp add: table_def word_less_nat_alt)
  have next_i: "unat (i + 1) = Suc (unat i)" using i by (rule unat_next)
  have entry: "get_entry (g_modules w) (unat i) w = Some ?mp"
    using Suc.prems(1) lt by (auto simp: table_def get_entry_def)
  obtain m err w' where m: "module_of ?mp w = Some m" "step ?mp m w = Some (err, w')"
      "inv ?rest w'" "table all w'"
    using step_ok [of ?mp ?rest w] Suc.prems cons by auto
  have "module_loop step (i + 1) w' = walk step ?rest w'"
    using Suc.hyps(1) [of "i + 1" w'] Suc.hyps(2) m(3,4) by (simp add: next_i)
  then show ?case using i entry m by (simp add: module_loop.simps [of step i] cons)
qed

lemma loop_is_walk: "table mps w \<Longrightarrow> inv mps w \<Longrightarrow> module_loop step 0 w = walk step mps w"
  using loop_walk [of mps w 0] by simp

lemma loop_defined:
  "table mps w \<Longrightarrow> inv mps w \<Longrightarrow> \<exists>err w'. module_loop step 0 w = Some (err, w')"
  using loop_is_walk walk_defined by fastforce

end

text \<open>A loop whose step leaves the table alone is a walk, also where a step is not defined.\<close>

lemma loop_walk_table:
  assumes keep: "\<And>mp m w err w'. step mp m w = Some (err, w') \<Longrightarrow> table all w \<Longrightarrow> table all w'"
  shows "table all w \<Longrightarrow> module_loop step i w = walk step (drop (unat i) all) w"
proof (induction "length all - unat i" arbitrary: i w)
  case 0
  then have "\<not> i < g_module_count w" by (simp add: table_def word_less_nat_alt)
  with 0 show ?case by (simp add: module_loop.simps)
next
  case (Suc n)
  then have lt: "unat i < length all" by simp
  have i: "i < g_module_count w" using lt Suc.prems by (simp add: table_def word_less_nat_alt)
  have next_i: "unat (i + 1) = Suc (unat i)" using i by (rule unat_next)
  have entry: "get_entry (g_modules w) (unat i) w = Some (all ! unat i)"
    using Suc.prems lt by (auto simp: table_def get_entry_def)
  have rest: "module_loop step (i + 1) w' = walk step (drop (Suc (unat i)) all) w'"
    if "step (all ! unat i) m w = Some (err, w')" for m err w'
    using Suc.hyps(1) [of "i + 1" w'] Suc.hyps(2) keep [OF that Suc.prems] by (simp add: next_i)
  show ?case
    using i entry rest
    by (auto simp: module_loop.simps [of step i] Cons_nth_drop_Suc [OF lt, symmetric] split: bind_splits)
qed

text \<open>An error of one module ends the walk: the modules behind it are not visited.\<close>

lemma walk_append:
  "walk step (xs @ ys) w =
     do { (err, w) \<leftarrow> walk step xs w; if err \<noteq> UL_OK then Some (err, w) else walk step ys w }"
  by (induction xs arbitrary: w) (auto split: Option.bind_splits)

end
