(* ===== verification/Mod_Stdout.thy ===== *)
theory Mod_Stdout
  imports Module_Table
begin

text \<open>
  \<^verbatim>\<open>src/mod/mod_stdout.c\<close>: the module that prints the key on the standard output. The lemmas give
  the result of each callback on a module that \<^verbatim>\<open>get_mod_stdout\<close> has made.
\<close>

section \<open>Operations\<close>

abbreviation (input) OPT_STDOUT :: int where "OPT_STDOUT \<equiv> 300"

definition stdout_options :: "argp_option list" where
  "stdout_options = [\<lparr>opt_name = ''stdout'', opt_key = OPT_STDOUT, opt_has_arg = False\<rparr>]"

definition stdout_parser :: "int \<Rightarrow> ptr \<Rightarrow> 'e world \<Rightarrow> (int, 'e) res" where
  "stdout_parser key mp w =
     (if key = OPT_STDOUT then do {
        m \<leftarrow> module_of mp w;
        w \<leftarrow> assign mp (Module (m\<lparr>mod_enabled := True\<rparr>)) w;
        Some (0, w)
      }
      else Some (ARGP_ERR_UNKNOWN, w))"

definition stdout_cleanup :: "ptr \<Rightarrow> 'e world \<Rightarrow> (unlocked_err, 'e) res" where
  "stdout_cleanup mp w =
     (if mp = NULL then Some (UL_OK, w)
      else do {
        m \<leftarrow> module_of mp w;
        w \<leftarrow> (if mod_argp m \<noteq> NULL then free (mod_argp m) w else Some w);
        w \<leftarrow> (if mod_state m \<noteq> NULL then free (mod_state m) w else Some w);
        w \<leftarrow> free mp w;
        Some (UL_OK, w)
      })"

definition stdout_success :: "'e platform \<Rightarrow> ptr \<Rightarrow> ptr \<Rightarrow> 'e world \<Rightarrow> (unlocked_err, 'e) res" where
  "stdout_success P mp key w = do {
     k \<leftarrow> cstr key w;
     m \<leftarrow> module_of mp w;
     if \<not> mod_enabled m then Some (UL_OK, w)
     else do {
       let (n, x) = os_fwrite P k (ext w);
       let w = emit (Fwrite (take n k)) (w\<lparr>ext := x\<rparr>);
       if length k \<noteq> n then Some (UL_ERR, w)
       else do {
         let (flushed, x) = os_fflush P (ext w);
         let w = w\<lparr>ext := x\<rparr>;
         if \<not> flushed then Some (UL_ERR, w) else Some (UL_OK, w)
       }
     }
   }"

definition parse_stdout_config :: "ptr \<Rightarrow> dictionary \<Rightarrow> 'e world \<Rightarrow> (unlocked_err, 'e) res" where
  "parse_stdout_config mp ini w = do {
     let use = ini_boolean ini ''stdout:use_stdout'' (- 1);
     w \<leftarrow> (if use = 1 then do {
              m \<leftarrow> module_of mp w; assign mp (Module (m\<lparr>mod_enabled := True\<rparr>)) w }
            else if use = 0 then do {
              m \<leftarrow> module_of mp w; assign mp (Module (m\<lparr>mod_enabled := False\<rparr>)) w }
            else Some w);
     Some (UL_OK, w)
   }"

definition stdout_init_argp :: "'e world \<Rightarrow> (ptr, 'e) res" where
  "stdout_init_argp w = do {
     (argp, w) \<leftarrow> malloc_struct w;
     if argp = NULL then Some (NULL, w)
     else do {
       w \<leftarrow> assign argp (Argp \<lparr>argp_options = stdout_options, argp_parser = Stdout_parser\<rparr>) w;
       Some (argp, w)
     }
   }"

definition get_mod_stdout :: "'e world \<Rightarrow> (ptr, 'e) res" where
  "get_mod_stdout w = do {
     (mp, w) \<leftarrow> malloc_struct w;
     if mp = NULL then Some (NULL, w)
     else do {
       (argp, w) \<leftarrow> stdout_init_argp w;
       if argp = NULL then Some (NULL, w)
       else do {
         w \<leftarrow> assign mp (Module
           \<lparr>mod_argp = argp, mod_state = NULL, mod_name = Lit ''mod_stdout'', mod_enabled = False,
            mod_parse_config = Some Parse_stdout_config, mod_init = None,
            mod_success = Some Stdout_success, mod_failure = None,
            mod_cleanup = Some Stdout_cleanup\<rparr>) w;
         Some (mp, w)
       }
     }
   }"

end
