(* ===== verification/Mod_Sd_Socket.thy ===== *)
theory Mod_Sd_Socket
  imports Module_Table
begin

text \<open>
  \<^verbatim>\<open>src/mod/mod_sd_socket.c\<close>: the module that sends the key to a client of the socket systemd
  passed to the program.
\<close>

section \<open>Operations\<close>

abbreviation (input) OPT_SD_SOCKET :: int where "OPT_SD_SOCKET \<equiv> 350"
abbreviation SD_LISTEN_FDS_START :: int where "SD_LISTEN_FDS_START \<equiv> 3"

definition sd_socket_options :: "argp_option list" where
  "sd_socket_options = [\<lparr>opt_name = ''sd-socket'', opt_key = OPT_SD_SOCKET, opt_has_arg = False\<rparr>]"

text \<open>\<^verbatim>\<open>struct sd_socket_state\<close> has one member, the descriptor.\<close>

definition socket_fd_of :: "ptr \<Rightarrow> 'e world \<Rightarrow> int option" where
  "socket_fd_of p w = (case deref p w of Some (Sd_socket_state fd) \<Rightarrow> Some fd | _ \<Rightarrow> None)"

definition sd_socket_parser :: "int \<Rightarrow> ptr \<Rightarrow> 'e world \<Rightarrow> (int, 'e) res" where
  "sd_socket_parser key mp w =
     (if key = OPT_SD_SOCKET then do {
        m \<leftarrow> module_of mp w;
        w \<leftarrow> assign mp (Module (m\<lparr>mod_enabled := True\<rparr>)) w;
        Some (0, w)
      }
      else Some (ARGP_ERR_UNKNOWN, w))"

definition sd_socket_cleanup :: "ptr \<Rightarrow> 'e world \<Rightarrow> (unlocked_err, 'e) res" where
  "sd_socket_cleanup mp w =
     (if mp = NULL then Some (UL_OK, w)
      else do {
        m \<leftarrow> module_of mp w;
        w \<leftarrow> (if mod_argp m \<noteq> NULL then free (mod_argp m) w else Some w);
        w \<leftarrow> (if mod_state m \<noteq> NULL then free (mod_state m) w else Some w);
        w \<leftarrow> free mp w;
        Some (UL_OK, w)
      })"

text \<open>
  The name of the first descriptor is an argument of the log message, so it is read whether the
  message is printed or not; systemd stores no names when the count is negative.
\<close>

definition sd_socket_init :: "'e platform \<Rightarrow> ptr \<Rightarrow> 'e world \<Rightarrow> (unlocked_err, 'e) res" where
  "sd_socket_init P mp w = do {
     let ((fd_count, socket_names), x) = os_listen_fds P (ext w);
     let w = w\<lparr>ext := x\<rparr>;
     m \<leftarrow> module_of mp w;
     if \<not> mod_enabled m then Some (if fd_count > 0 then UL_SD_SOCKET_DISABLED else UL_OK, w)
     else if fd_count = 0 then Some (UL_SD_SOCKET_NO_FD, w)
     else if fd_count > 1 then Some (UL_SD_SOCKET_MANY_FD, w)
     else do {
       name \<leftarrow> (case socket_names of [] \<Rightarrow> None | name # _ \<Rightarrow> Some name);
       w \<leftarrow> logger LOG_DEBUG (''Socket \"%s\" passed by systemd.'' @ [LF]) [AStr (Lit name)] w;
       _ \<leftarrow> socket_fd_of (mod_state m) w;
       w \<leftarrow> assign (mod_state m) (Sd_socket_state (SD_LISTEN_FDS_START + 0)) w;
       Some (UL_OK, w)
     }
   }"

definition sd_socket_success :: "'e platform \<Rightarrow> ptr \<Rightarrow> ptr \<Rightarrow> 'e world \<Rightarrow> (unlocked_err, 'e) res" where
  "sd_socket_success P mp key w = do {
     k \<leftarrow> cstr key w;
     m \<leftarrow> module_of mp w;
     if \<not> mod_enabled m then Some (UL_OK, w)
     else do {
       fd \<leftarrow> socket_fd_of (mod_state m) w;
       let (client_fd, x) = os_accept P fd (ext w);
       let w = emit (Accept fd) (w\<lparr>ext := x\<rparr>);
       if client_fd < 0 then Some (UL_ERRNO, w)
       else do {
         let (sent, x) = os_send P client_fd k (ext w);
         let w = emit (Send client_fd k) (w\<lparr>ext := x\<rparr>);
         let ret = signed_take_bit 31 sent;
         if ret < 0 then Some (UL_ERRNO, w) else Some (UL_OK, w)
       }
     }
   }"

definition parse_sd_socket_config :: "ptr \<Rightarrow> dictionary \<Rightarrow> 'e world \<Rightarrow> (unlocked_err, 'e) res" where
  "parse_sd_socket_config mp ini w = do {
     let use = ini_boolean ini ''sd_socket:use_socket'' (- 1);
     w \<leftarrow> (if use = 1 then do {
              m \<leftarrow> module_of mp w; assign mp (Module (m\<lparr>mod_enabled := True\<rparr>)) w }
            else if use = 0 then do {
              m \<leftarrow> module_of mp w; assign mp (Module (m\<lparr>mod_enabled := False\<rparr>)) w }
            else Some w);
     Some (UL_OK, w)
   }"

definition sd_socket_init_argp :: "'e world \<Rightarrow> (ptr, 'e) res" where
  "sd_socket_init_argp w = do {
     (argp, w) \<leftarrow> malloc_struct w;
     if argp = NULL then Some (NULL, w)
     else do {
       w \<leftarrow> assign argp (Argp \<lparr>argp_options = sd_socket_options, argp_parser = Sd_socket_parser\<rparr>) w;
       Some (argp, w)
     }
   }"

definition init_state :: "'e world \<Rightarrow> (ptr, 'e) res" where
  "init_state w = do {
     (state, w) \<leftarrow> malloc_struct w;
     if state = NULL then Some (NULL, w)
     else do { w \<leftarrow> assign state (Sd_socket_state 0) w; Some (state, w) }
   }"

definition get_mod_sd_socket :: "'e world \<Rightarrow> (ptr, 'e) res" where
  "get_mod_sd_socket w = do {
     (mp, w) \<leftarrow> malloc_struct w;
     if mp = NULL then Some (NULL, w)
     else do {
       (argp, w) \<leftarrow> sd_socket_init_argp w;
       if argp = NULL then Some (NULL, w)
       else do {
         (state, w) \<leftarrow> init_state w;
         if state = NULL then do { w \<leftarrow> free argp w; Some (NULL, w) }
         else do {
           w \<leftarrow> assign mp (Module
             \<lparr>mod_argp = argp, mod_state = state, mod_name = Lit ''mod_sd_socket'',
              mod_enabled = False, mod_parse_config = Some Parse_sd_socket_config,
              mod_init = Some Sd_socket_init, mod_success = Some Sd_socket_success,
              mod_failure = None, mod_cleanup = Some Sd_socket_cleanup\<rparr>) w;
           Some (mp, w)
         }
       }
     }
   }"

end
