(* ===== verification/Module_Set.thy ===== *)
theory Module_Set
  imports Mod_Stdout Mod_Sd_Socket
begin

text \<open>
  The two modules of the program in the table: which function is behind each address, the
  invariant of the registered modules (each has its blocks, no two share one), and the
  interpretations of the contract \<open>module_steps\<close> for every loop of \<^verbatim>\<open>module.c\<close> the program runs.
\<close>

section \<open>The functions behind the addresses\<close>

definition dispatch :: "'e platform \<Rightarrow> 'e dispatch" where
  "dispatch P =
     \<lparr>call_parse_config = (\<lambda>f mp ini w. case f of
         Parse_stdout_config \<Rightarrow> parse_stdout_config mp ini w
       | Parse_sd_socket_config \<Rightarrow> parse_sd_socket_config mp ini w
       | _ \<Rightarrow> None),
      call_init = (\<lambda>f mp w. case f of Sd_socket_init \<Rightarrow> sd_socket_init P mp w | _ \<Rightarrow> None),
      call_success = (\<lambda>f mp key w. case f of
         Stdout_success \<Rightarrow> stdout_success P mp key w
       | Sd_socket_success \<Rightarrow> sd_socket_success P mp key w
       | _ \<Rightarrow> None),
      call_failure = (\<lambda>f mp err w. None),
      call_cleanup = (\<lambda>f mp w. case f of
         Stdout_cleanup \<Rightarrow> stdout_cleanup mp w
       | Sd_socket_cleanup \<Rightarrow> sd_socket_cleanup mp w
       | _ \<Rightarrow> None)\<rparr>"

section \<open>The invariant of the registered modules\<close>

definition stdout_module :: "ptr \<Rightarrow> bool \<Rightarrow> unlocked_module" where
  "stdout_module a en =
     \<lparr>mod_argp = a, mod_state = NULL, mod_name = Lit ''mod_stdout'', mod_enabled = en,
      mod_parse_config = Some Parse_stdout_config, mod_init = None,
      mod_success = Some Stdout_success, mod_failure = None, mod_cleanup = Some Stdout_cleanup\<rparr>"

definition sd_socket_module :: "ptr \<Rightarrow> ptr \<Rightarrow> bool \<Rightarrow> unlocked_module" where
  "sd_socket_module a s en =
     \<lparr>mod_argp = a, mod_state = s, mod_name = Lit ''mod_sd_socket'', mod_enabled = en,
      mod_parse_config = Some Parse_sd_socket_config, mod_init = Some Sd_socket_init,
      mod_success = Some Sd_socket_success, mod_failure = None,
      mod_cleanup = Some Sd_socket_cleanup\<rparr>"

definition is_stdout :: "ptr \<Rightarrow> bool \<Rightarrow> 'e world \<Rightarrow> bool" where
  "is_stdout mp en w \<longleftrightarrow>
     (\<exists>b a. mp = Ptr b \<and> heap w b = Some (Module (stdout_module (Ptr a) en)) \<and>
        heap w a = Some (Argp \<lparr>argp_options = stdout_options, argp_parser = Stdout_parser\<rparr>))"

definition is_sd_socket :: "ptr \<Rightarrow> bool \<Rightarrow> int \<Rightarrow> 'e world \<Rightarrow> bool" where
  "is_sd_socket mp en fd w \<longleftrightarrow>
     (\<exists>b a s. mp = Ptr b \<and> heap w b = Some (Module (sd_socket_module (Ptr a) (Ptr s) en)) \<and>
        heap w a = Some (Argp \<lparr>argp_options = sd_socket_options, argp_parser = Sd_socket_parser\<rparr>) \<and>
        heap w s = Some (Sd_socket_state fd))"

definition module_ok :: "ptr \<Rightarrow> 'e world \<Rightarrow> bool" where
  "module_ok mp w \<longleftrightarrow> (\<exists>en. is_stdout mp en w) \<or> (\<exists>en fd. is_sd_socket mp en fd w)"

text \<open>The blocks of a module: its structure, its parser, its state.\<close>

definition owned :: "ptr \<Rightarrow> 'e world \<Rightarrow> nat set" where
  "owned mp w = blocks_of mp \<union>
     (case module_of mp w of
        None \<Rightarrow> {}
      | Some m \<Rightarrow> blocks_of (mod_argp m) \<union> blocks_of (mod_state m))"

text \<open>The pointer to the parser of a module, and a change that keeps the blocks of a module and its parser.\<close>

definition argp_ptr :: "ptr \<Rightarrow> 'e world \<Rightarrow> ptr" where
  "argp_ptr mp w = (case module_of mp w of Some m \<Rightarrow> mod_argp m | None \<Rightarrow> NULL)"

definition same_shape :: "ptr \<Rightarrow> 'e world \<Rightarrow> 'e world \<Rightarrow> bool" where
  "same_shape mp w w' \<longleftrightarrow> owned mp w' = owned mp w \<and> argp_ptr mp w' = argp_ptr mp w"

fun separate :: "ptr list \<Rightarrow> 'e world \<Rightarrow> bool" where
  "separate [] w \<longleftrightarrow> True"
| "separate (mp # mps) w \<longleftrightarrow> (\<forall>q \<in> set mps. owned mp w \<inter> owned q w = {}) \<and> separate mps w"

definition modules_inv :: "ptr list \<Rightarrow> 'e world \<Rightarrow> bool" where
  "modules_inv mps w \<longleftrightarrow> world_wf w \<and> list_all (\<lambda>mp. module_ok mp w) mps \<and> separate mps w"

text \<open>A change that stays within the blocks of one module.\<close>

definition only_module :: "ptr \<Rightarrow> 'e world \<Rightarrow> 'e world \<Rightarrow> bool" where
  "only_module mp w w' \<longleftrightarrow>
     world_wf w' \<and> g_modules w' = g_modules w \<and> g_module_count w' = g_module_count w \<and>
     (\<forall>b. b \<notin> owned mp w \<longrightarrow> heap w' b = heap w b)"

lemma module_of_Ptr [simp]: "heap w b = Some (Module m) \<Longrightarrow> module_of (Ptr b) w = Some m"
  by (simp add: module_of_def deref_def)

lemma owned_obj:
  assumes "module_ok mp w" "b \<in> owned mp w"
  shows "heap w b \<noteq> None" "heap w b \<noteq> Some (Ptr_array ps)" "heap w b \<noteq> Some (Chars cs)"
  using assms
  by (auto simp: module_ok_def is_stdout_def is_sd_socket_def owned_def stdout_module_def
      sd_socket_module_def)

lemma module_ok_cong:
  assumes "module_ok mp w" "\<And>b. b \<in> owned mp w \<Longrightarrow> heap w' b = heap w b"
  shows "module_ok mp w' \<and> owned mp w' = owned mp w"
proof -
  have "mp = Ptr b \<Longrightarrow> heap w' b = heap w b" for b
    using assms(2) [of b] by (simp add: owned_def)
  then show ?thesis
    using assms
    by (auto simp: module_ok_def is_stdout_def is_sd_socket_def owned_def stdout_module_def
        sd_socket_module_def)
qed

lemma separate_cong: "(\<And>mp. mp \<in> set mps \<Longrightarrow> owned mp w' = owned mp w) \<Longrightarrow>
  separate mps w' = separate mps w"
  by (induction mps) auto

text \<open>Such a change keeps the invariant of the other modules, and the table.\<close>

lemma modules_inv_only:
  assumes inv: "modules_inv (mp # mps) w" and only: "only_module mp w w'"
  shows "modules_inv mps w'"
proof -
  have q: "module_ok q w' \<and> owned q w' = owned q w" if "q \<in> set mps" for q
  proof (rule module_ok_cong)
    show "module_ok q w" using inv that by (auto simp: modules_inv_def list_all_iff)
    fix b assume "b \<in> owned q w"
    with inv that have "b \<notin> owned mp w" by (auto simp: modules_inv_def)
    then show "heap w' b = heap w b" using only by (simp add: only_module_def)
  qed
  then have "separate mps w' = separate mps w" by (intro separate_cong) simp
  then show ?thesis
    using inv only q by (simp add: modules_inv_def only_module_def list_all_iff)
qed

lemma table_only:
  assumes ok: "module_ok mp w" and only: "only_module mp w w'" and table: "table all w"
  shows "table all w'"
proof (cases "all = []")
  case True
  then show ?thesis using table only by (simp add: table_def only_module_def)
next
  case False
  with table obtain b where b: "g_modules w = Ptr b" "heap w b = Some (Ptr_array (map Some all))"
    by (auto simp: table_def ptr_array_of_def deref_def split: ptr.splits option.splits obj.splits)
  then have "b \<notin> owned mp w" using owned_obj(2) [OF ok] by blast
  with only b have "heap w' b = Some (Ptr_array (map Some all))" by (simp add: only_module_def)
  then show ?thesis
    using only table b by (simp add: table_def only_module_def ptr_array_of_def deref_def)
qed

text \<open>The obligation of an interpretation, for a step that stays within its module.\<close>

lemma module_step_ok:
  assumes inv: "modules_inv (mp # mps) w"
    and step: "\<And>m. module_of mp w = Some m \<Longrightarrow> \<exists>err w'. step mp m w = Some (err, w') \<and> only_module mp w w' \<and> Q w'"
  shows "\<exists>m err w'. module_of mp w = Some m \<and> step mp m w = Some (err, w') \<and>
    (modules_inv mps w' \<and> Q w') \<and> (\<forall>all. table all w \<longrightarrow> table all w')"
proof -
  have ok: "module_ok mp w" using inv by (simp add: modules_inv_def)
  then obtain m where m: "module_of mp w = Some m"
    by (auto simp: module_ok_def is_stdout_def is_sd_socket_def)
  obtain err w' where w': "step mp m w = Some (err, w')" "only_module mp w w'" "Q w'"
    using step [OF m] by blast
  have "\<forall>all. table all w \<longrightarrow> table all w'"
    using table_only [OF ok w'(2)] by blast
  then show ?thesis using m w' modules_inv_only [OF inv w'(2)] by blast
qed

section \<open>The success callbacks\<close>

text \<open>Nothing in memory changes.\<close>

definition same_memory :: "'e world \<Rightarrow> 'e world \<Rightarrow> bool" where
  "same_memory w w' \<longleftrightarrow>
     heap w' = heap w \<and> brk w' = brk w \<and> g_hex_digest w' = g_hex_digest w \<and>
     g_modules w' = g_modules w \<and> g_module_count w' = g_module_count w"

lemma same_memory_refl [simp]: "same_memory w w"
  by (simp add: same_memory_def)

lemma same_memory_trans: "same_memory w w' \<Longrightarrow> same_memory w' w'' \<Longrightarrow> same_memory w w''"
  by (simp add: same_memory_def)

lemma same_memory_upd [simp]:
  "same_memory w (w'\<lparr>ext := x\<rparr>) = same_memory w w'" "same_memory w (emit e w') = same_memory w w'"
  by (simp_all add: same_memory_def emit_def)

lemma same_memory_logger: "logger level fmt as w = Some w' \<Longrightarrow> same_memory w w'"
  using loggerD by (fastforce simp: same_memory_def)

lemma same_memory_only: "world_wf w \<Longrightarrow> same_memory w w' \<Longrightarrow> only_module mp w w'"
  by (simp add: same_memory_def only_module_def world_wf_def)

lemma same_memory_cstr: "same_memory w w' \<Longrightarrow> cstr p w' = cstr p w"
  by (rule cstr_heap_cong) (simp add: same_memory_def)

lemma same_memory_is_stdout: "same_memory w w' \<Longrightarrow> is_stdout mp en w' = is_stdout mp en w"
  by (simp add: same_memory_def is_stdout_def)

lemma same_memory_is_sd: "same_memory w w' \<Longrightarrow> is_sd_socket mp en fd w' = is_sd_socket mp en fd w"
  by (simp add: same_memory_def is_sd_socket_def)

lemma log_callback_ok:
  assumes "NUL \<notin> set s" "what \<in> {''success'', ''failure''}"
  shows "\<exists>w'. log_callback what (Lit s) w = Some w' \<and> same_memory w w' \<and> did [] w w' \<and> ext w' = ext w"
proof -
  have "format (''Invoking '' @ what @ '' callback on module \"%s\"'' @ [LF]) [AStr (Lit s)] w \<noteq> None"
    using assms by auto
  then obtain w' where
    "logger LOG_DEBUG (''Invoking '' @ what @ '' callback on module \"%s\"'' @ [LF]) [AStr (Lit s)] w = Some w'"
    using logger_defined by blast
  then show ?thesis
    using same_memory_logger did_logger logger_frame(4) by (fastforce simp: log_callback_def)
qed

text \<open>
  What the callback of the standard output does, and that of the socket: the error code and the
  events, by what the functions of the platform return in some state of the outside.
\<close>

definition stdout_outcome :: "'e platform \<Rightarrow> bool \<Rightarrow> string \<Rightarrow> unlocked_err \<Rightarrow> event list \<Rightarrow> bool" where
  "stdout_outcome P en k err es \<longleftrightarrow>
     (if en then
        \<exists>x n y. os_fwrite P k x = (n, y) \<and> es = [Fwrite (take n k)] \<and>
          err = (if n = length k \<and> fst (os_fflush P y) then UL_OK else UL_ERR)
      else err = UL_OK \<and> es = [])"

definition sd_socket_outcome ::
  "'e platform \<Rightarrow> bool \<Rightarrow> int \<Rightarrow> string \<Rightarrow> unlocked_err \<Rightarrow> event list \<Rightarrow> bool" where
  "sd_socket_outcome P en fd k err es \<longleftrightarrow>
     (if en then
        \<exists>x c y. os_accept P fd x = (c, y) \<and>
          (if c < 0 then err = UL_ERRNO \<and> es = [Accept fd]
           else es = [Accept fd, Send c k] \<and>
             err = (if signed_take_bit 31 (fst (os_send P c k y)) < 0 then UL_ERRNO else UL_OK))
      else err = UL_OK \<and> es = [])"

lemma did_emit1: "\<not> is_print e \<Longrightarrow> did [e] w (emit e (w\<lparr>ext := x\<rparr>))"
  by (simp add: did_def) (simp add: emit_def)

lemma stdout_success_spec:
  assumes "is_stdout mp en w" "cstr key w = Some k"
  shows "\<exists>err w' es. stdout_success P mp key w = Some (err, w') \<and> same_memory w w' \<and> did es w w' \<and>
    stdout_outcome P en k err es"
proof -
  obtain m where m: "module_of mp w = Some m" "mod_enabled m = en"
    using assms(1) by (auto simp: is_stdout_def stdout_module_def)
  obtain n x fl y where wr: "os_fwrite P k (ext w) = (n, x)" and fl: "os_fflush P x = (fl, y)"
    by (metis surj_pair)
  let ?w1 = "emit (Fwrite (take n k)) (w\<lparr>ext := x\<rparr>)"
  have d: "did [Fwrite (take n k)] w ?w1" by (rule did_emit1) simp
  have x1: "ext ?w1 = x" by (simp add: emit_def)
  show ?thesis
  proof (cases "en \<and> n = length k")
    case True
    then have "stdout_success P mp key w = Some (if fl then UL_OK else UL_ERR, ?w1\<lparr>ext := y\<rparr>)"
      using m assms(2) wr fl x1 by (simp add: stdout_success_def Let_def)
    moreover have "stdout_outcome P en k (if fl then UL_OK else UL_ERR) [Fwrite (take n k)]"
    proof -
      have "\<exists>x' n' y'. os_fwrite P k x' = (n', y') \<and> [Fwrite (take n k)] = [Fwrite (take n' k)] \<and>
          (if fl then UL_OK else UL_ERR) = (if n' = length k \<and> fst (os_fflush P y') then UL_OK else UL_ERR)"
        by (intro exI [of _ "ext w"] exI [of _ n] exI [of _ x]) (use True wr fl in simp)
      moreover have en using True ..
      ultimately show ?thesis by (simp only: stdout_outcome_def if_True)
    qed
    ultimately show ?thesis using d by force
  next
    case False
    then have "stdout_success P mp key w = Some (if en then (UL_ERR, ?w1) else (UL_OK, w))"
      using m assms(2) wr by (auto simp: stdout_success_def Let_def)
    with False d show ?thesis
      using wr by (cases en) (fastforce simp: stdout_outcome_def)+
  qed
qed

lemma sd_socket_success_spec:
  assumes "is_sd_socket mp en fd w" "cstr key w = Some k"
  shows "\<exists>err w' es. sd_socket_success P mp key w = Some (err, w') \<and> same_memory w w' \<and> did es w w' \<and>
    sd_socket_outcome P en fd k err es"
proof -
  obtain m where m: "module_of mp w = Some m" "mod_enabled m = en" "socket_fd_of (mod_state m) w = Some fd"
    using assms(1) by (auto simp: is_sd_socket_def sd_socket_module_def socket_fd_of_def deref_def)
  obtain c x r y where ac: "os_accept P fd (ext w) = (c, x)" and se: "os_send P c k x = (r, y)"
    by (metis surj_pair)
  let ?w1 = "emit (Accept fd) (w\<lparr>ext := x\<rparr>)"
  let ?w2 = "emit (Send c k) (?w1\<lparr>ext := y\<rparr>)"
  have x1: "ext ?w1 = x" by (simp add: emit_def)
  have d1: "did [Accept fd] w ?w1" by (rule did_emit1) simp
  also have "did [Send c k] ?w1 ?w2" by (rule did_emit1) simp
  finally have d2: "did [Accept fd, Send c k] w ?w2" by simp
  show ?thesis
  proof (cases "en \<and> 0 \<le> c")
    case True
    then have "sd_socket_success P mp key w = Some (if signed_take_bit 31 r < 0 then UL_ERRNO else UL_OK, ?w2)"
      using m assms(2) ac se x1 by (simp add: sd_socket_success_def Let_def)
    moreover have "sd_socket_outcome P en fd k (if signed_take_bit 31 r < 0 then UL_ERRNO else UL_OK)
        [Accept fd, Send c k]"
    proof -
      let ?err = "if signed_take_bit 31 r < 0 then UL_ERRNO else UL_OK"
      have "\<exists>x' c' y'. os_accept P fd x' = (c', y') \<and>
          (if c' < 0 then ?err = UL_ERRNO \<and> [Accept fd, Send c k] = [Accept fd]
           else [Accept fd, Send c k] = [Accept fd, Send c' k] \<and>
             ?err = (if signed_take_bit 31 (fst (os_send P c' k y')) < 0 then UL_ERRNO else UL_OK))"
        by (intro exI [of _ "ext w"] exI [of _ c] exI [of _ x]) (use True ac se in simp)
      moreover have en using True ..
      ultimately show ?thesis by (simp only: sd_socket_outcome_def if_True)
    qed
    ultimately show ?thesis using d2 by force
  next
    case False
    then have "sd_socket_success P mp key w = Some (if en then (UL_ERRNO, ?w1) else (UL_OK, w))"
      using m assms(2) ac by (auto simp: sd_socket_success_def Let_def)
    with False d1 show ?thesis
      using ac by (cases en) (fastforce simp: sd_socket_outcome_def)+
  qed
qed

lemma success_step_spec:
  assumes m: "module_of mp w = Some m" and key: "cstr key w = Some k"
  shows "is_stdout mp en w \<Longrightarrow> \<exists>err w' es. success_step (dispatch P) key mp m w = Some (err, w') \<and>
      same_memory w w' \<and> did es w w' \<and> stdout_outcome P en k err es"
    and "is_sd_socket mp en fd w \<Longrightarrow> \<exists>err w' es. success_step (dispatch P) key mp m w = Some (err, w') \<and>
      same_memory w w' \<and> did es w w' \<and> sd_socket_outcome P en fd k err es"
proof -
  assume i: "is_stdout mp en w"
  then have mm: "mod_success m = Some Stdout_success" "mod_name m = Lit ''mod_stdout''" "mod_enabled m = en"
    using m by (auto simp: is_stdout_def stdout_module_def)
  obtain w1 where w1: "log_callback ''success'' (Lit ''mod_stdout'') w = Some w1" "same_memory w w1" "did [] w w1"
    using log_callback_ok [of "''mod_stdout''" "''success''" w] by auto
  obtain err w' es where w': "stdout_success P mp key w1 = Some (err, w')" "same_memory w1 w'"
      "did es w1 w'" "stdout_outcome P en k err es"
    using stdout_success_spec [of mp en w1 key k P] i key w1(2)
    by (auto simp: same_memory_is_stdout same_memory_cstr)
  show "\<exists>err w' es. success_step (dispatch P) key mp m w = Some (err, w') \<and>
      same_memory w w' \<and> did es w w' \<and> stdout_outcome P en k err es"
  proof (cases en)
    case True
    then have "success_step (dispatch P) key mp m w = Some (err, w')"
      using mm w1(1) w'(1) by (simp add: success_step_def dispatch_def)
    then show ?thesis using w' w1 same_memory_trans did_nothing by blast
  next
    case False
    then show ?thesis using mm by (simp add: success_step_def stdout_outcome_def exI [of _ "[]"])
  qed
next
  assume i: "is_sd_socket mp en fd w"
  then have mm: "mod_success m = Some Sd_socket_success" "mod_name m = Lit ''mod_sd_socket''"
      "mod_enabled m = en"
    using m by (auto simp: is_sd_socket_def sd_socket_module_def)
  obtain w1 where w1: "log_callback ''success'' (Lit ''mod_sd_socket'') w = Some w1" "same_memory w w1"
      "did [] w w1"
    using log_callback_ok [of "''mod_sd_socket''" "''success''" w] by auto
  obtain err w' es where w': "sd_socket_success P mp key w1 = Some (err, w')" "same_memory w1 w'"
      "did es w1 w'" "sd_socket_outcome P en fd k err es"
    using sd_socket_success_spec [of mp en fd w1 key k P] i key w1(2)
    by (auto simp: same_memory_is_sd same_memory_cstr)
  show "\<exists>err w' es. success_step (dispatch P) key mp m w = Some (err, w') \<and>
      same_memory w w' \<and> did es w w' \<and> sd_socket_outcome P en fd k err es"
  proof (cases en)
    case True
    then have "success_step (dispatch P) key mp m w = Some (err, w')"
      using mm w1(1) w'(1) by (simp add: success_step_def dispatch_def)
    then show ?thesis using w' w1 same_memory_trans did_nothing by blast
  next
    case False
    then show ?thesis using mm by (simp add: success_step_def sd_socket_outcome_def exI [of _ "[]"])
  qed
qed

interpretation success: module_steps
  "success_step (dispatch P) key" "\<lambda>mps w. modules_inv mps w \<and> (\<exists>k. cstr key w = Some k)" for P key
proof unfold_locales
  fix mp mps and w :: "'a world"
  assume a: "modules_inv (mp # mps) w \<and> (\<exists>k. cstr key w = Some k)"
  then have inv: "modules_inv (mp # mps) w" and ok: "module_ok mp w" and wf: "world_wf w"
    by (simp_all add: modules_inv_def)
  show "\<exists>m err w'. module_of mp w = Some m \<and> success_step (dispatch P) key mp m w = Some (err, w') \<and>
      (modules_inv mps w' \<and> (\<exists>k. cstr key w' = Some k)) \<and> (\<forall>all. table all w \<longrightarrow> table all w')"
  proof (rule module_step_ok [OF inv])
    fix m assume m: "module_of mp w = Some m"
    from a obtain k where k: "cstr key w = Some k" by blast
    have "\<exists>err w'. success_step (dispatch P) key mp m w = Some (err, w') \<and> same_memory w w'"
      using ok success_step_spec [OF m k] unfolding module_ok_def by blast
    then show "\<exists>err w'. success_step (dispatch P) key mp m w = Some (err, w') \<and> only_module mp w w' \<and>
        (\<exists>k. cstr key w' = Some k)"
      using k same_memory_only [OF wf] same_memory_cstr by metis
  qed
qed

section \<open>The init callbacks\<close>

text \<open>
  \<^verbatim>\<open>sd_listen_fds_with_names\<close> stores a name for each descriptor it counts; a negative count is an error, and
  no names are stored then. \<open>listen_ok\<close> says that there is no error.
\<close>

definition names_ok :: "'e platform \<Rightarrow> bool" where
  "names_ok P \<longleftrightarrow> (\<forall>x n names y. os_listen_fds P x = ((n, names), y) \<longrightarrow>
     length names = nat n \<and> list_all (\<lambda>s. NUL \<notin> set s) names)"

definition listen_ok :: "'e platform \<Rightarrow> bool" where
  "listen_ok P \<longleftrightarrow> (\<forall>x n names y. os_listen_fds P x = ((n, names), y) \<longrightarrow>
     0 \<le> n \<and> length names = nat n \<and> list_all (\<lambda>s. NUL \<notin> set s) names)"

lemma listen_names_ok: "listen_ok P \<Longrightarrow> names_ok P"
  by (force simp: listen_ok_def names_ok_def)

lemma listen_count: "listen_ok P \<Longrightarrow> os_listen_fds P x = ((n, names), y) \<Longrightarrow> 0 \<le> n"
  by (force simp: listen_ok_def)

definition sd_socket_init_err :: "bool \<Rightarrow> int \<Rightarrow> unlocked_err" where
  "sd_socket_init_err en n =
     (if \<not> en then (if n > 0 then UL_SD_SOCKET_DISABLED else UL_OK)
      else if n = 0 then UL_SD_SOCKET_NO_FD
      else if n > 1 then UL_SD_SOCKET_MANY_FD
      else UL_OK)"

lemma sd_socket_init_spec:
  assumes i: "is_sd_socket mp en fd w" and P: "names_ok P" and wf: "world_wf w"
    and n: "os_listen_fds P (ext w) = ((n, names), x)" and pos: "en \<Longrightarrow> 0 \<le> n"
  shows "\<exists>w'. sd_socket_init P mp w = Some (sd_socket_init_err en n, w') \<and> only_module mp w w' \<and>
    did [] w w' \<and> is_sd_socket mp en (if en \<and> n = 1 then SD_LISTEN_FDS_START else fd) w' \<and> same_shape mp w w' \<and>
    ext w' = x"
proof (cases "en \<and> n = 1")
  case False
  moreover have "is_sd_socket mp en fd (w\<lparr>ext := x\<rparr>)" using i by (simp add: is_sd_socket_def)
  moreover have "only_module mp w (w\<lparr>ext := x\<rparr>)" by (rule same_memory_only [OF wf]) simp
  moreover have "same_shape mp w (w\<lparr>ext := x\<rparr>)"
    by (simp add: same_shape_def owned_def argp_ptr_def module_of_def deref_def split: ptr.splits)
  ultimately show ?thesis
    using i n pos
    by (auto simp: sd_socket_init_def sd_socket_init_err_def is_sd_socket_def sd_socket_module_def Let_def)
next
  case True
  let ?w = "w\<lparr>ext := x\<rparr>"
  obtain b a s where b: "mp = Ptr b" "heap w b = Some (Module (sd_socket_module (Ptr a) (Ptr s) en))"
      "heap w s = Some (Sd_socket_state fd)"
      "heap w a = Some (Argp \<lparr>argp_options = sd_socket_options, argp_parser = Sd_socket_parser\<rparr>)"
    using i by (auto simp: is_sd_socket_def)
  have "length names = Suc 0" "list_all (\<lambda>s. NUL \<notin> set s) names"
    using P n True by (force simp: names_ok_def)+
  then obtain nm where nm: "names = [nm]" "NUL \<notin> set nm"
    by (auto simp: length_Suc_conv)
  have "format (''Socket \"%s\" passed by systemd.'' @ [LF]) [AStr (Lit nm)] ?w \<noteq> None"
    using nm by simp
  then obtain w1 where w1:
    "logger LOG_DEBUG (''Socket \"%s\" passed by systemd.'' @ [LF]) [AStr (Lit nm)] ?w = Some w1"
    using logger_defined by blast
  let ?w' = "w1\<lparr>heap := (heap w1)(s \<mapsto> Sd_socket_state SD_LISTEN_FDS_START)\<rparr>"
  note h1 = logger_frame(1) [OF w1]
  have sm: "same_memory w w1" using same_memory_logger [OF w1] by (simp add: same_memory_def)
  have fd: "socket_fd_of (Ptr s) w1 = Some fd" using h1 b by (simp add: socket_fd_of_def deref_def)
  have run: "sd_socket_init P mp w = Some (UL_OK, ?w')"
    using n nm b h1 w1 fd True
    by (simp add: sd_socket_init_def Let_def sd_socket_module_def)
  have "s \<in> owned mp w" using b by (simp add: owned_def sd_socket_module_def)
  then have "only_module mp w ?w'"
    using sm wf world_wf_less [OF wf b(3)] by (auto simp: only_module_def same_memory_def world_wf_def)
  moreover have "did [] w ?w'" using did_logger [OF w1] by (simp add: did_def)
  moreover have "is_sd_socket mp en SD_LISTEN_FDS_START ?w'"
    unfolding is_sd_socket_def using b h1 by (intro exI [of _ b] exI [of _ a] exI [of _ s]) auto
  moreover have "same_shape mp w ?w'"
  proof -
    have "s \<noteq> b" using b by auto
    then have "module_of mp ?w' = module_of mp w" using b h1 by simp
    then show ?thesis by (simp add: same_shape_def owned_def argp_ptr_def)
  qed
  moreover have "ext ?w' = x" using logger_frame(4) [OF w1] by simp
  ultimately show ?thesis using run True by (simp add: sd_socket_init_err_def)
qed

interpretation init: module_steps
  "init_step (dispatch P)" "\<lambda>mps w. modules_inv mps w \<and> listen_ok P" for P
proof unfold_locales
  fix mp mps and w :: "'a world"
  assume a: "modules_inv (mp # mps) w \<and> listen_ok P"
  then have inv: "modules_inv (mp # mps) w" and ok: "module_ok mp w" and wf: "world_wf w" and P: "listen_ok P"
    by (simp_all add: modules_inv_def)
  show "\<exists>m err w'. module_of mp w = Some m \<and> init_step (dispatch P) mp m w = Some (err, w') \<and>
      (modules_inv mps w' \<and> listen_ok P) \<and> (\<forall>all. table all w \<longrightarrow> table all w')"
  proof (rule module_step_ok [OF inv])
    fix m assume m: "module_of mp w = Some m"
    from ok show "\<exists>err w'. init_step (dispatch P) mp m w = Some (err, w') \<and> only_module mp w w' \<and> listen_ok P"
      unfolding module_ok_def
    proof (elim disjE exE)
      fix en assume "is_stdout mp en w"
      then show ?thesis
        using m P same_memory_only [OF wf same_memory_refl]
        by (auto simp: init_step_def is_stdout_def stdout_module_def)
    next
      fix en fd assume i: "is_sd_socket mp en fd w"
      obtain n names x where n: "os_listen_fds P (ext w) = ((n, names), x)" by (metis surj_pair)
      have "mod_init m = Some Sd_socket_init" using i m by (auto simp: is_sd_socket_def sd_socket_module_def)
      then show ?thesis
        using sd_socket_init_spec [OF i listen_names_ok [OF P] wf n] listen_count [OF P n] P
        by (auto simp: init_step_def dispatch_def)
    qed
  qed
qed

text \<open>
  Whatever systemd reports, the callback writes only to the state of its module, so that the table stays. With an
  enabled module and an error of systemd it reads the name of a descriptor that is not there.
\<close>

lemma table_same_heap:
  "table all w \<Longrightarrow> heap w' = heap w \<Longrightarrow> g_modules w' = g_modules w \<Longrightarrow> g_module_count w' = g_module_count w \<Longrightarrow>
   table all w'"
  by (simp add: table_def ptr_array_of_def deref_def split: ptr.splits)

lemma assign_state_table:
  assumes "socket_fd_of p w = Some fd" "assign p (Sd_socket_state n) w = Some w'" "table all w"
  shows "table all w'"
proof -
  obtain b where b: "p = Ptr b" "heap w b = Some (Sd_socket_state fd)"
    using assms(1) by (auto simp: socket_fd_of_def deref_def split: ptr.splits option.splits obj.splits)
  then have "w' = w\<lparr>heap := (heap w)(b \<mapsto> Sd_socket_state n)\<rparr>" using assms(2) by (simp add: assign_def)
  then show ?thesis
    using assms(3) b(2) by (cases "g_modules w") (auto simp: table_def ptr_array_of_def deref_def)
qed

lemma sd_socket_init_table:
  assumes run: "sd_socket_init P mp w = Some (err, w')" and tab: "table all w"
  shows "table all w'"
proof -
  obtain n names x where n: "os_listen_fds P (ext w) = ((n, names), x)" by (metis surj_pair)
  let ?w = "w\<lparr>ext := x\<rparr>"
  have tab': "table all ?w" by (rule table_same_heap [OF tab]) simp_all
  obtain m where m: "module_of mp ?w = Some m" using run n by (auto simp: sd_socket_init_def bind_eq_Some_conv Let_def)
  show ?thesis
  proof (cases "mod_enabled m \<and> n \<noteq> 0 \<and> \<not> n > 1")
    case False
    then have "w' = ?w" using run n m by (auto simp: sd_socket_init_def Let_def split: if_splits)
    then show ?thesis using tab' by simp
  next
    case True
    then obtain nm ns w1 fd where "names = nm # ns"
      "logger LOG_DEBUG (''Socket \"%s\" passed by systemd.'' @ [LF]) [AStr (Lit nm)] ?w = Some w1"
      "socket_fd_of (mod_state m) w1 = Some fd" "assign (mod_state m) (Sd_socket_state 3) w1 = Some w'"
      using run n m by (cases names) (auto simp: sd_socket_init_def bind_eq_Some_conv Let_def)
    moreover from this(2) have "table all w1" by (intro table_same_heap [OF tab']) (auto dest!: loggerD)
    ultimately show ?thesis using assign_state_table by blast
  qed
qed

lemma init_step_table: "init_step (dispatch P) mp m w = Some (err, w') \<Longrightarrow> table all w \<Longrightarrow> table all w'"
  by (auto simp: init_step_def dispatch_def intro: sd_socket_init_table split: option.splits fn.splits)

lemma initialize_modules_walk:
  "table mps w \<Longrightarrow> initialize_modules (dispatch P) w = walk (init_step (dispatch P)) mps w"
  unfolding initialize_modules_def by (rule loop_walk_table [where i = 0, simplified]) (rule init_step_table)

lemma sd_socket_init_error:
  assumes "is_sd_socket mp True fd w" "os_listen_fds P (ext w) = ((n, names), x)" "names_ok P" "n < 0"
  shows "sd_socket_init P mp w = None"
proof -
  have "names = []" using assms(2-4) by (force simp: names_ok_def)
  then show ?thesis
    using assms(1,2,4) by (auto simp: sd_socket_init_def Let_def is_sd_socket_def sd_socket_module_def)
qed

section \<open>The configuration callbacks\<close>

text \<open>What \<^verbatim>\<open>use_stdout\<close> or \<^verbatim>\<open>use_socket\<close> makes of the enabled flag: any other value leaves it.\<close>

definition configured :: "int \<Rightarrow> bool \<Rightarrow> bool" where
  "configured use en = (if use = 1 then True else if use = 0 then False else en)"

lemma parse_stdout_config_spec:
  assumes i: "is_stdout mp en w" and wf: "world_wf w"
  shows "\<exists>w'. parse_stdout_config mp ini w = Some (UL_OK, w') \<and> only_module mp w w' \<and> heap_only w w' \<and>
    is_stdout mp (configured (ini_boolean ini ''stdout:use_stdout'' (- 1)) en) w' \<and> same_shape mp w w'"
proof -
  obtain b a where b: "mp = Ptr b" "heap w b = Some (Module (stdout_module (Ptr a) en))"
    "heap w a = Some (Argp \<lparr>argp_options = stdout_options, argp_parser = Stdout_parser\<rparr>)"
    using i by (auto simp: is_stdout_def)
  let ?en = "configured (ini_boolean ini ''stdout:use_stdout'' (- 1)) en"
  let ?w' = "w\<lparr>heap := (heap w)(b \<mapsto> Module (stdout_module (Ptr a) ?en))\<rparr>"
  have "parse_stdout_config mp ini w = Some (UL_OK, ?w')"
    using b by (cases w) (auto simp: parse_stdout_config_def Let_def configured_def stdout_module_def fun_upd_idem)
  moreover have "only_module mp w ?w'"
    using b wf world_wf_less [OF wf b(2)] by (auto simp: only_module_def owned_def world_wf_def)
  moreover have "is_stdout mp ?en ?w'"
    unfolding is_stdout_def using b by (intro exI [of _ b] exI [of _ a]) auto
  moreover have "same_shape mp w ?w'"
    using b by (simp add: same_shape_def owned_def argp_ptr_def stdout_module_def)
  ultimately show ?thesis by (auto simp: heap_only_def)
qed

lemma parse_sd_socket_config_spec:
  assumes i: "is_sd_socket mp en fd w" and wf: "world_wf w"
  shows "\<exists>w'. parse_sd_socket_config mp ini w = Some (UL_OK, w') \<and> only_module mp w w' \<and> heap_only w w' \<and>
    is_sd_socket mp (configured (ini_boolean ini ''sd_socket:use_socket'' (- 1)) en) fd w' \<and> same_shape mp w w'"
proof -
  obtain b a s where b: "mp = Ptr b" "heap w b = Some (Module (sd_socket_module (Ptr a) (Ptr s) en))"
    "heap w a = Some (Argp \<lparr>argp_options = sd_socket_options, argp_parser = Sd_socket_parser\<rparr>)"
    "heap w s = Some (Sd_socket_state fd)"
    using i by (auto simp: is_sd_socket_def)
  let ?en = "configured (ini_boolean ini ''sd_socket:use_socket'' (- 1)) en"
  let ?w' = "w\<lparr>heap := (heap w)(b \<mapsto> Module (sd_socket_module (Ptr a) (Ptr s) ?en))\<rparr>"
  have "parse_sd_socket_config mp ini w = Some (UL_OK, ?w')"
    using b by (cases w)
      (auto simp: parse_sd_socket_config_def Let_def configured_def sd_socket_module_def fun_upd_idem)
  moreover have "only_module mp w ?w'"
    using b wf world_wf_less [OF wf b(2)] by (auto simp: only_module_def owned_def world_wf_def)
  moreover have "is_sd_socket mp ?en fd ?w'"
    unfolding is_sd_socket_def using b by (intro exI [of _ b] exI [of _ a] exI [of _ s]) auto
  moreover have "same_shape mp w ?w'"
    using b by (simp add: same_shape_def owned_def argp_ptr_def sd_socket_module_def)
  ultimately show ?thesis by (auto simp: heap_only_def)
qed

interpretation config: module_steps
  "parse_config_step (dispatch P) ini" modules_inv for P ini
proof unfold_locales
  fix mp mps and w :: "'a world"
  assume inv: "modules_inv (mp # mps) w"
  then have ok: "module_ok mp w" and wf: "world_wf w" by (simp_all add: modules_inv_def)
  have "\<exists>m err w'. module_of mp w = Some m \<and> parse_config_step (dispatch P) ini mp m w = Some (err, w') \<and>
      (modules_inv mps w' \<and> True) \<and> (\<forall>all. table all w \<longrightarrow> table all w')"
  proof (rule module_step_ok [OF inv])
    fix m assume m: "module_of mp w = Some m"
    from ok show "\<exists>err w'. parse_config_step (dispatch P) ini mp m w = Some (err, w') \<and> only_module mp w w' \<and> True"
      unfolding module_ok_def
    proof (elim disjE exE)
      fix en assume i: "is_stdout mp en w"
      then have "mod_parse_config m = Some Parse_stdout_config"
        using m by (auto simp: is_stdout_def stdout_module_def)
      then show ?thesis
        using parse_stdout_config_spec [OF i wf, of ini] by (auto simp: parse_config_step_def dispatch_def)
    next
      fix en fd assume i: "is_sd_socket mp en fd w"
      then have "mod_parse_config m = Some Parse_sd_socket_config"
        using m by (auto simp: is_sd_socket_def sd_socket_module_def)
      then show ?thesis
        using parse_sd_socket_config_spec [OF i wf, of ini]
        by (auto simp: parse_config_step_def dispatch_def)
    qed
  qed
  then show "\<exists>m err w'. module_of mp w = Some m \<and> parse_config_step (dispatch P) ini mp m w = Some (err, w') \<and>
      modules_inv mps w' \<and> (\<forall>all. table all w \<longrightarrow> table all w')" by simp
qed

section \<open>The clean-up callbacks\<close>

text \<open>Both free the blocks of their module and nothing else.\<close>

definition freed :: "nat set \<Rightarrow> 'e world \<Rightarrow> 'e world" where
  "freed B w = w\<lparr>heap := (\<lambda>b. if b \<in> B then None else heap w b)\<rparr>"

lemma cleanup_step_spec:
  assumes ok: "module_ok mp w" and m: "module_of mp w = Some m"
  shows "cleanup_step (dispatch P) mp m w = Some (UL_OK, freed (owned mp w) w)"
  using ok unfolding module_ok_def
proof (elim disjE exE)
  fix en assume "is_stdout mp en w"
  then obtain b a where b: "mp = Ptr b" "heap w b = Some (Module (stdout_module (Ptr a) en))"
    "heap w a = Some (Argp \<lparr>argp_options = stdout_options, argp_parser = Stdout_parser\<rparr>)"
    by (auto simp: is_stdout_def)
  then have "b \<noteq> a" "m = stdout_module (Ptr a) en" using m by auto
  then show ?thesis
    using b by (auto simp: cleanup_step_def dispatch_def stdout_cleanup_def stdout_module_def owned_def
        freed_def free_def fun_eq_iff)
next
  fix en fd assume "is_sd_socket mp en fd w"
  then obtain b a s where b: "mp = Ptr b" "heap w b = Some (Module (sd_socket_module (Ptr a) (Ptr s) en))"
    "heap w a = Some (Argp \<lparr>argp_options = sd_socket_options, argp_parser = Sd_socket_parser\<rparr>)"
    "heap w s = Some (Sd_socket_state fd)"
    by (auto simp: is_sd_socket_def)
  then have "b \<noteq> a" "b \<noteq> s" "a \<noteq> s" "m = sd_socket_module (Ptr a) (Ptr s) en" using m by auto
  then show ?thesis
    using b by (auto simp: cleanup_step_def dispatch_def sd_socket_cleanup_def sd_socket_module_def
        owned_def freed_def free_def fun_eq_iff)
qed

lemma only_module_freed: "world_wf w \<Longrightarrow> only_module mp w (freed (owned mp w) w)"
  by (simp add: only_module_def freed_def world_wf_def)

interpretation cleanup: module_steps "cleanup_step (dispatch P)" modules_inv for P
proof unfold_locales
  fix mp mps and w :: "'a world"
  assume inv: "modules_inv (mp # mps) w"
  then have ok: "module_ok mp w" and wf: "world_wf w" by (simp_all add: modules_inv_def)
  have "\<exists>m err w'. module_of mp w = Some m \<and> cleanup_step (dispatch P) mp m w = Some (err, w') \<and>
      (modules_inv mps w' \<and> True) \<and> (\<forall>all. table all w \<longrightarrow> table all w')"
    using cleanup_step_spec [OF ok] only_module_freed [OF wf]
    by (intro module_step_ok [OF inv]) blast
  then show "\<exists>m err w'. module_of mp w = Some m \<and> cleanup_step (dispatch P) mp m w = Some (err, w') \<and>
      modules_inv mps w' \<and> (\<forall>all. table all w \<longrightarrow> table all w')" by simp
qed

section \<open>Heaps that grow\<close>

lemma is_stdout_mono: "heap w \<subseteq>\<^sub>m heap w' \<Longrightarrow> is_stdout mp en w \<Longrightarrow> is_stdout mp en w'"
  unfolding is_stdout_def map_le_def dom_def by fastforce

lemma is_sd_socket_mono: "heap w \<subseteq>\<^sub>m heap w' \<Longrightarrow> is_sd_socket mp en fd w \<Longrightarrow> is_sd_socket mp en fd w'"
  unfolding is_sd_socket_def map_le_def dom_def by fastforce

lemma modules_inv_mono:
  assumes le: "heap w \<subseteq>\<^sub>m heap w'" and inv: "modules_inv mps w" and wf: "world_wf w'"
  shows "modules_inv mps w'"
proof -
  have q: "module_ok q w' \<and> owned q w' = owned q w" if "q \<in> set mps" for q
  proof (rule module_ok_cong)
    show ok: "module_ok q w" using inv that by (auto simp: modules_inv_def list_all_iff)
    fix b assume "b \<in> owned q w"
    then have "heap w b \<noteq> None" by (rule owned_obj(1) [OF ok])
    then show "heap w' b = heap w b" using le by (auto simp: map_le_def dom_def)
  qed
  then have "separate mps w' = separate mps w" by (intro separate_cong) simp
  then show ?thesis using inv wf q by (simp add: modules_inv_def list_all_iff)
qed

lemma table_mono:
  assumes "heap w \<subseteq>\<^sub>m heap w'" "g_modules w' = g_modules w" "g_module_count w' = g_module_count w"
    and "table mps w"
  shows "table mps w'"
proof -
  have "ptr_array_of p w = Some x \<Longrightarrow> ptr_array_of p w' = Some x" for p x
    using deref_mono [OF assms(1)]
    by (auto simp: ptr_array_of_def split: option.splits obj.splits)
  then show ?thesis using assms(2-4) by (auto simp: table_def)
qed

text \<open>The socket module and the module for the standard output, registered in this order.\<close>

definition modules_ready :: "ptr \<Rightarrow> ptr \<Rightarrow> bool \<Rightarrow> int \<Rightarrow> bool \<Rightarrow> 'e world \<Rightarrow> bool" where
  "modules_ready sd st en1 fd en2 w \<longleftrightarrow>
     table [sd, st] w \<and> modules_inv [sd, st] w \<and> is_sd_socket sd en1 fd w \<and> is_stdout st en2 w"

lemma modules_ready_mono:
  assumes "modules_ready sd st en1 fd en2 w" "heap w \<subseteq>\<^sub>m heap w'" "world_wf w'"
    "g_modules w' = g_modules w" "g_module_count w' = g_module_count w"
  shows "modules_ready sd st en1 fd en2 w'"
  using assms table_mono [OF assms(2,4,5)] modules_inv_mono [OF assms(2) _ assms(3)]
    is_stdout_mono [OF assms(2)] is_sd_socket_mono [OF assms(2)]
  by (simp add: modules_ready_def)

section \<open>Reporting a failure\<close>

text \<open>No module of the program has a callback for failures, so \<^verbatim>\<open>handle_failure\<close> passes over all of them.\<close>

lemma failure_step_nothing:
  assumes "module_ok mp w" "module_of mp w = Some m"
  shows "failure_step D e mp m w = Some (UL_OK, w)"
  using assms by (auto simp: module_ok_def is_stdout_def is_sd_socket_def stdout_module_def sd_socket_module_def failure_step_def)

lemma module_ok_module: "module_ok mp w \<Longrightarrow> \<exists>m. module_of mp w = Some m"
  by (auto simp: module_ok_def is_stdout_def is_sd_socket_def)

lemma modules_inv_tl: "modules_inv (mp # mps) w \<Longrightarrow> modules_inv mps w"
  by (simp add: modules_inv_def)

interpretation failure: module_steps "failure_step D e" modules_inv for D e
proof unfold_locales
  fix mp mps and w :: "'a world"
  assume inv: "modules_inv (mp # mps) w"
  then have ok: "module_ok mp w" by (simp add: modules_inv_def)
  then obtain m where m: "module_of mp w = Some m" using module_ok_module by blast
  show "\<exists>m err w'. module_of mp w = Some m \<and> failure_step D e mp m w = Some (err, w') \<and> modules_inv mps w' \<and>
      (\<forall>all. table all w \<longrightarrow> table all w')"
    using m failure_step_nothing [OF ok m] modules_inv_tl [OF inv] by blast
qed

lemma walk_failure: "modules_inv mps w \<Longrightarrow> walk (failure_step D e) mps w = Some (UL_OK, w)"
proof (induction mps)
  case (Cons mp mps)
  then have ok: "module_ok mp w" by (simp add: modules_inv_def)
  then obtain m where m: "module_of mp w = Some m" using module_ok_module by blast
  show ?case using Cons.IH [OF modules_inv_tl [OF Cons.prems]] failure_step_nothing [OF ok m] m by simp
qed simp

lemma handle_failure_nothing:
  assumes "table mps w" "modules_inv mps w"
  shows "handle_failure D e w = Some (UL_OK, w)"
  unfolding handle_failure_def using failure.loop_is_walk [OF assms] walk_failure [OF assms(2)] by simp

section \<open>Delivering the key\<close>

text \<open>
  The outcome of \<^verbatim>\<open>handle_success\<close> with the socket module before the module for the standard output:
  the second one runs if the first one succeeds.
\<close>

definition delivered :: "'e platform \<Rightarrow> bool \<Rightarrow> int \<Rightarrow> bool \<Rightarrow> string \<Rightarrow> unlocked_err \<Rightarrow> event list \<Rightarrow> bool" where
  "delivered P en1 fd en2 k err es \<longleftrightarrow>
     (\<exists>err1 es1. sd_socket_outcome P en1 fd k err1 es1 \<and>
        (if err1 \<noteq> UL_OK then err = err1 \<and> es = es1
         else \<exists>es2. stdout_outcome P en2 k err es2 \<and> es = es1 @ es2))"

lemma handle_success_spec:
  assumes ready: "modules_ready sd st en1 fd en2 w" and key: "cstr key w = Some k"
  shows "\<exists>err w' es. handle_success (dispatch P) key w = Some (err, w') \<and> same_memory w w' \<and>
    did es w w' \<and> delivered P en1 fd en2 k err es"
proof -
  have table: "table [sd, st] w" and inv: "modules_inv [sd, st] w"
    and sd: "is_sd_socket sd en1 fd w" and st: "is_stdout st en2 w"
    using ready by (simp_all add: modules_ready_def)
  have walk: "handle_success (dispatch P) key w = walk (success_step (dispatch P) key) [sd, st] w"
    unfolding handle_success_def by (rule success.loop_is_walk) (use table inv key in auto)
  obtain m1 where m1: "module_of sd w = Some m1" using sd by (auto simp: is_sd_socket_def)
  obtain err1 w1 es1 where w1: "success_step (dispatch P) key sd m1 w = Some (err1, w1)" "same_memory w w1"
      "did es1 w w1" "sd_socket_outcome P en1 fd k err1 es1"
    using success_step_spec(2) [OF m1 key sd, of P] by blast
  show ?thesis
  proof (cases "err1 = UL_OK")
    case False
    with walk m1 w1 show ?thesis
      by (intro exI [of _ err1] exI [of _ w1] exI [of _ es1]) (auto simp: delivered_def)
  next
    case True
    have st1: "is_stdout st en2 w1" and key1: "cstr key w1 = Some k"
      using st key w1(2) by (simp_all add: same_memory_is_stdout same_memory_cstr)
    then obtain m2 where m2: "module_of st w1 = Some m2" by (auto simp: is_stdout_def)
    obtain err2 w2 es2 where w2: "success_step (dispatch P) key st m2 w1 = Some (err2, w2)"
        "same_memory w1 w2" "did es2 w1 w2" "stdout_outcome P en2 k err2 es2"
      using success_step_spec(1) [OF m2 key1 st1, of P] by blast
    have "handle_success (dispatch P) key w = Some (err2, w2)"
      using walk m1 w1(1) True m2 w2(1) by simp
    moreover have "delivered P en1 fd en2 k err2 (es1 @ es2)"
      using w1(4) w2(4) True by (auto simp: delivered_def)
    ultimately show ?thesis
      using did_trans [OF w1(3) w2(3)] same_memory_trans [OF w1(2) w2(2)] by blast
  qed
qed

end
