(* ===== verification/Cli.thy ===== *)
theory Cli
  imports Module_Set
begin

text \<open>
  \<^verbatim>\<open>src/cli.c\<close>: the options of the command line, the configuration file and the merging of the
  settings. glibc's argp splits the command line; what it hands to the parsers is a list of events.
  iniparser loads the configuration file.
\<close>

section \<open>The options\<close>

abbreviation (input) OPT_CONFIG :: int where "OPT_CONFIG \<equiv> 99"
abbreviation (input) OPT_HOST :: int where "OPT_HOST \<equiv> 104"
abbreviation (input) OPT_KEY :: int where "OPT_KEY \<equiv> 107"
abbreviation (input) OPT_PORT :: int where "OPT_PORT \<equiv> 112"
abbreviation (input) OPT_SECRET :: int where "OPT_SECRET \<equiv> 115"
abbreviation (input) OPT_USER :: int where "OPT_USER \<equiv> 117"
abbreviation (input) OPT_SKIP_VALIDATION :: int where "OPT_SKIP_VALIDATION \<equiv> 256"
abbreviation (input) OPT_VERBOSE :: int where "OPT_VERBOSE \<equiv> 257"
abbreviation (input) ARGP_KEY_ARG :: int where "ARGP_KEY_ARG \<equiv> 0"
abbreviation (input) ARGP_KEY_INIT :: int where "ARGP_KEY_INIT \<equiv> 16777219"
abbreviation (input) ARGP_KEY_FINI :: int where "ARGP_KEY_FINI \<equiv> 16777223"

definition options :: "argp_option list" where
  "options =
     [\<lparr>opt_name = ''config'', opt_key = OPT_CONFIG, opt_has_arg = True\<rparr>,
      \<lparr>opt_name = ''host'', opt_key = OPT_HOST, opt_has_arg = True\<rparr>,
      \<lparr>opt_name = ''key'', opt_key = OPT_KEY, opt_has_arg = True\<rparr>,
      \<lparr>opt_name = ''port'', opt_key = OPT_PORT, opt_has_arg = True\<rparr>,
      \<lparr>opt_name = ''secret'', opt_key = OPT_SECRET, opt_has_arg = True\<rparr>,
      \<lparr>opt_name = ''user'', opt_key = OPT_USER, opt_has_arg = True\<rparr>,
      \<lparr>opt_name = ''skip-validation'', opt_key = OPT_SKIP_VALIDATION, opt_has_arg = False\<rparr>,
      \<lparr>opt_name = ''verbose'', opt_key = OPT_VERBOSE, opt_has_arg = False\<rparr>]"

text \<open>\<^verbatim>\<open>atol\<close>: spaces, a sign, digits; glibc stays within the range of \<^verbatim>\<open>long\<close>.\<close>

definition is_space :: "char \<Rightarrow> bool" where
  "is_space c \<longleftrightarrow> (let n = of_char c :: nat in n = 32 \<or> 9 \<le> n \<and> n \<le> 13)"

definition is_digit :: "char \<Rightarrow> bool" where
  "is_digit c \<longleftrightarrow> (let n = of_char c :: nat in 48 \<le> n \<and> n \<le> 57)"

definition long_clamp :: "int \<Rightarrow> int" where
  "long_clamp i = max (- 9223372036854775808) (min 9223372036854775807 i)"

definition atol :: "string \<Rightarrow> int" where
  "atol s =
     (let t = dropWhile is_space s;
          digits = (\<lambda>u. int (read_nat (takeWhile is_digit u)))
      in case t of
           [] \<Rightarrow> 0
         | c # u \<Rightarrow>
             long_clamp (if c = CHR ''-'' then - digits u else if c = CHR ''+'' then digits u
                         else digits t))"

section \<open>The parser\<close>

text \<open>
  A parser function returns an error number, or the program ends: \<^verbatim>\<open>argp_usage\<close> prints a message and
  exits with \<^verbatim>\<open>EX_USAGE\<close>.
\<close>

abbreviation (input) EX_USAGE :: int where "EX_USAGE \<equiv> 64"

definition set_string ::
  "((ptr \<Rightarrow> ptr) \<Rightarrow> arguments \<Rightarrow> arguments) \<Rightarrow> ptr \<Rightarrow> ptr \<Rightarrow> 'e world \<Rightarrow> (int + int, 'e) res" where
  "set_string upd arg input w = do {
     (p, w) \<leftarrow> strdup arg w;
     a \<leftarrow> arguments_of input w;
     w \<leftarrow> assign input (Arguments (upd (\<lambda>_. p) a)) w;
     Some (Inr 0, w)
   }"

fun entries :: "ptr \<Rightarrow> nat \<Rightarrow> 'e world \<Rightarrow> ptr list option" where
  "entries p 0 w = Some []"
| "entries p (Suc n) w = do { qs \<leftarrow> entries p n w; q \<leftarrow> get_entry p n w; Some (qs @ [q]) }"

definition parse_opt :: "int \<Rightarrow> ptr \<Rightarrow> ptr \<Rightarrow> 'e world \<Rightarrow> (int + int, 'e) res" where
  "parse_opt key arg input w =
     (if key = OPT_CONFIG then set_string arg_config_file_update arg input w
      else if key = OPT_HOST then set_string arg_host_update arg input w
      else if key = OPT_KEY then set_string arg_key_handle_update arg input w
      else if key = OPT_PORT then do {
        s \<leftarrow> cstr arg w;
        a \<leftarrow> arguments_of input w;
        w \<leftarrow> assign input (Arguments (a\<lparr>arg_port := atol s\<rparr>)) w;
        Some (Inr 0, w)
      }
      else if key = OPT_SECRET then set_string arg_secret_update arg input w
      else if key = OPT_USER then set_string arg_username_update arg input w
      else if key = OPT_SKIP_VALIDATION then do {
        a \<leftarrow> arguments_of input w;
        w \<leftarrow> assign input (Arguments (a\<lparr>arg_validate := No\<rparr>)) w;
        Some (Inr 0, w)
      }
      else if key = OPT_VERBOSE then do {
        a \<leftarrow> arguments_of input w;
        w \<leftarrow> assign input (Arguments (a\<lparr>arg_verbose := Yes\<rparr>)) w;
        Some (Inr 0, w)
      }
      else if key = ARGP_KEY_ARG then Some (Inl EX_USAGE, w)
      else if key = ARGP_KEY_INIT then do {
        _ \<leftarrow> entries (g_sub_parser_inputs w) (g_sub_parser_count w) w;
        Some (Inr 0, w)
      }
      else if key = ARGP_KEY_FINI then Some (Inr 0, w)
      else Some (Inr ARGP_ERR_UNKNOWN, w))"

section \<open>argp\<close>

text \<open>
  What argp makes of the words of the command line, in their order: an option with its value, a plain
  argument, or the end of the program (help, an option that does not exist, a missing value) with a status.
  What argp itself prints then is not in the trace.
\<close>

datatype arg_event = Opt int "string option" | Arg string | Stop int

text \<open>The children of the parser: the entries of the array up to the one without a parser.\<close>

fun scan_ptrs :: "ptr option list \<Rightarrow> ptr list option" where
  "scan_ptrs [] = None"
| "scan_ptrs (None # ps) = None"
| "scan_ptrs (Some p # ps) = (if p = NULL then Some [] else map_option ((#) p) (scan_ptrs ps))"

definition children_of :: "'e world \<Rightarrow> ptr list option" where
  "children_of w =
     (if g_sub_parsers w = NULL then Some []
      else do { ps \<leftarrow> ptr_array_of (g_sub_parsers w) w; scan_ptrs ps })"

definition call_parser :: "fn \<Rightarrow> int \<Rightarrow> ptr \<Rightarrow> 'e world \<Rightarrow> (int, 'e) res" where
  "call_parser f key input w =
     (case f of
        Stdout_parser \<Rightarrow> stdout_parser key input w
      | Sd_socket_parser \<Rightarrow> sd_socket_parser key input w
      | _ \<Rightarrow> None)"

text \<open>The child whose table has the option gets it, with its input.\<close>

fun call_child :: "(ptr \<times> ptr) list \<Rightarrow> int \<Rightarrow> 'e world \<Rightarrow> (int, 'e) res" where
  "call_child [] key w = None"
| "call_child ((kid, input) # kids) key w = do {
     a \<leftarrow> argp_of kid w;
     if key \<in> set (map opt_key (argp_options a)) then call_parser (argp_parser a) key input w
     else call_child kids key w
   }"

text \<open>
  \<^verbatim>\<open>handle_args\<close> gives argp no flags, so argp reads all options first, wherever they are on the line, and hands
  over the other arguments behind them. When the program ends is then a matter of the whole line.
\<close>

fun is_arg :: "arg_event \<Rightarrow> bool" where
  "is_arg (Arg s) \<longleftrightarrow> True"
| "is_arg _ \<longleftrightarrow> False"

definition permuted :: "arg_event list \<Rightarrow> arg_event list" where
  "permuted es = filter (\<lambda>e. \<not> is_arg e) es @ filter is_arg es"

text \<open>The result is the exit status if the program ends.\<close>

fun argp_run :: "(ptr \<times> ptr) list \<Rightarrow> ptr \<Rightarrow> arg_event list \<Rightarrow> 'e world \<Rightarrow> (int option, 'e) res" where
  "argp_run kids input [] w = Some (None, w)"
| "argp_run kids input (Stop code # es) w = Some (Some code, w)"
| "argp_run kids input (Arg s # es) w = do {
     (r, w) \<leftarrow> parse_opt ARGP_KEY_ARG (Lit s) input w;
     case r of Inl code \<Rightarrow> Some (Some code, w) | Inr _ \<Rightarrow> argp_run kids input es w
   }"
| "argp_run kids input (Opt key arg # es) w =
     (if key \<in> set (map opt_key options) then do {
        (r, w) \<leftarrow> parse_opt key (case arg of None \<Rightarrow> NULL | Some s \<Rightarrow> Lit s) input w;
        case r of Inl code \<Rightarrow> Some (Some code, w) | Inr _ \<Rightarrow> argp_run kids input es w
      }
      else do {
        (_, w) \<leftarrow> call_child kids key w;
        argp_run kids input es w
      })"

definition argp_parse :: "arg_event list \<Rightarrow> ptr \<Rightarrow> 'e world \<Rightarrow> (int option, 'e) res" where
  "argp_parse events input w = do {
     (_, w) \<leftarrow> parse_opt ARGP_KEY_INIT NULL input w;
     inputs \<leftarrow> entries (g_sub_parser_inputs w) (g_sub_parser_count w) w;
     kids \<leftarrow> children_of w;
     argp_run (zip kids inputs) input (permuted events) w
   }"

section \<open>The settings\<close>

definition zero_arguments :: arguments where
  "zero_arguments =
     \<lparr>arg_config_file = NULL, arg_key_handle = NULL, arg_host = NULL, arg_port = 0,
      arg_secret = NULL, arg_username = NULL, arg_validate = Unset, arg_verbose = Unset\<rparr>"

definition create_args :: "'e world \<Rightarrow> (ptr, 'e) res" where
  "create_args w = new_block (Arguments zero_arguments) w"

definition free_field :: "ptr \<Rightarrow> 'e world \<Rightarrow> 'e world option" where
  "free_field p w = (if p \<noteq> NULL then free p w else Some w)"

definition free_args :: "ptr \<Rightarrow> 'e world \<Rightarrow> 'e world option" where
  "free_args args w =
     (if args = NULL then Some w
      else do {
        a \<leftarrow> arguments_of args w;
        w \<leftarrow> free_field (arg_config_file a) w;
        w \<leftarrow> free_field (arg_key_handle a) w;
        w \<leftarrow> free_field (arg_host a) w;
        w \<leftarrow> free_field (arg_secret a) w;
        w \<leftarrow> free_field (arg_username a) w;
        free args w
      })"

text \<open>
  One string of \<^verbatim>\<open>merge_config\<close>: the old one is freed before the new one is copied, and the copy is
  stored whether it could be made or not.
\<close>

definition merge_string ::
  "(arguments \<Rightarrow> ptr) \<Rightarrow> ((ptr \<Rightarrow> ptr) \<Rightarrow> arguments \<Rightarrow> arguments) \<Rightarrow> ptr \<Rightarrow> ptr \<Rightarrow> 'e world \<Rightarrow>
   'e world option" where
  "merge_string sel upd base new w = do {
     n \<leftarrow> arguments_of new w;
     if sel n = NULL then Some w
     else do {
       b \<leftarrow> arguments_of base w;
       w \<leftarrow> free_field (sel b) w;
       (p, w) \<leftarrow> strdup (sel n) w;
       assign base (Arguments (upd (\<lambda>_. p) b)) w
     }
   }"

definition merge_value ::
  "(arguments \<Rightarrow> 'v) \<Rightarrow> (('v \<Rightarrow> 'v) \<Rightarrow> arguments \<Rightarrow> arguments) \<Rightarrow> 'v \<Rightarrow> ptr \<Rightarrow> ptr \<Rightarrow> 'e world \<Rightarrow>
   'e world option" where
  "merge_value sel upd unset base new w = do {
     n \<leftarrow> arguments_of new w;
     if sel n = unset then Some w
     else do {
       b \<leftarrow> arguments_of base w;
       assign base (Arguments (upd (\<lambda>_. sel n) b)) w
     }
   }"

definition merge_config :: "ptr \<Rightarrow> ptr \<Rightarrow> 'e world \<Rightarrow> 'e world option" where
  "merge_config base new w = do {
     w \<leftarrow> merge_string arg_config_file arg_config_file_update base new w;
     w \<leftarrow> merge_string arg_key_handle arg_key_handle_update base new w;
     w \<leftarrow> merge_string arg_host arg_host_update base new w;
     w \<leftarrow> merge_value arg_port arg_port_update 0 base new w;
     w \<leftarrow> merge_string arg_secret arg_secret_update base new w;
     w \<leftarrow> merge_string arg_username arg_username_update base new w;
     w \<leftarrow> merge_value arg_validate arg_validate_update Unset base new w;
     merge_value arg_verbose arg_verbose_update Unset base new w
   }"

section \<open>The configuration file\<close>

text \<open>
  A string of the file: it is copied if it is there; the result says that there was no memory.
\<close>

definition config_string ::
  "((ptr \<Rightarrow> ptr) \<Rightarrow> arguments \<Rightarrow> arguments) \<Rightarrow> string option \<Rightarrow> ptr \<Rightarrow> 'e world \<Rightarrow> (bool, 'e) res" where
  "config_string upd value args w =
     (case value of
        None \<Rightarrow> Some (False, w)
      | Some s \<Rightarrow> do {
          (p, w) \<leftarrow> strdup (Lit s) w;
          a \<leftarrow> arguments_of args w;
          w \<leftarrow> assign args (Arguments (upd (\<lambda>_. p) a)) w;
          Some (p = NULL, w)
        })"

definition config_validate :: "int \<Rightarrow> tristate" where
  "config_validate validate = (if validate = 1 then Yes else if validate = 0 then No else Unset)"

definition parse_config_file ::
  "'e dispatch \<Rightarrow> (string \<Rightarrow> 'e \<Rightarrow> dictionary option) \<Rightarrow> ptr \<Rightarrow> ptr \<Rightarrow> 'e world \<Rightarrow>
   (unlocked_err, 'e) res" where
  "parse_config_file D iniparser_load path args w = do {
     name \<leftarrow> cstr path w;
     case iniparser_load name (ext w) of
       None \<Rightarrow> do {
         w \<leftarrow> logger LOG_ERROR ''Could not parse configuration file %s'' [AStr path] w;
         Some (UL_ERR, w)
       }
     | Some ini \<Rightarrow> do {
         (failed, w) \<leftarrow> config_string arg_host_update (ini_string ini ''unlocked:host'') args w;
         if failed then Some (UL_MALLOC, w)
         else do {
           (failed, w) \<leftarrow> config_string arg_key_handle_update (ini_string ini ''unlocked:key_handle'') args w;
           if failed then Some (UL_MALLOC, w)
           else do {
             a \<leftarrow> arguments_of args w;
             w \<leftarrow> assign args (Arguments (a\<lparr>arg_port := ini_long ini ''unlocked:port'' 0\<rparr>)) w;
             (failed, w) \<leftarrow> config_string arg_secret_update (ini_string ini ''unlocked:secret'') args w;
             if failed then Some (UL_MALLOC, w)
             else do {
               (failed, w) \<leftarrow> config_string arg_username_update (ini_string ini ''unlocked:username'') args w;
               if failed then Some (UL_MALLOC, w)
               else do {
                 a \<leftarrow> arguments_of args w;
                 w \<leftarrow> assign args (Arguments (a\<lparr>arg_validate :=
                       config_validate (ini_boolean ini ''unlocked:validate'' (- 1))\<rparr>)) w;
                 (err, w) \<leftarrow> parse_config D ini w;
                 Some (err, w)
               }
             }
           }
         }
       }
   }"

section \<open>handle_args\<close>

text \<open>
  The result is the exit status if the program ends while it parses its arguments, and the error
  otherwise. On the error paths the two temporary structures stay allocated.
\<close>

definition handle_args ::
  "'e dispatch \<Rightarrow> (string \<Rightarrow> 'e \<Rightarrow> dictionary option) \<Rightarrow> arg_event list \<Rightarrow> ptr \<Rightarrow> 'e world \<Rightarrow>
   (int + unlocked_err, 'e) res" where
  "handle_args D iniparser_load events args w = do {
     (cli_args, w) \<leftarrow> create_args w;
     (config_args, w) \<leftarrow> create_args w;
     if cli_args = NULL then Some (Inr UL_MALLOC, w)
     else if config_args = NULL then do { w \<leftarrow> free_args cli_args w; Some (Inr UL_MALLOC, w) }
     else do {
       (ended, w) \<leftarrow> argp_parse events cli_args w;
       case ended of
         Some code \<Rightarrow> Some (Inl code, w)
       | None \<Rightarrow> do {
           c \<leftarrow> arguments_of cli_args w;
           (err, w) \<leftarrow> (if arg_config_file c \<noteq> NULL
                         then parse_config_file D iniparser_load (arg_config_file c) config_args w
                         else Some (UL_OK, w));
           if err \<noteq> UL_OK then Some (Inr err, w)
           else do {
             w \<leftarrow> merge_config args config_args w;
             w \<leftarrow> free_args config_args w;
             w \<leftarrow> merge_config args cli_args w;
             w \<leftarrow> free_args cli_args w;
             a \<leftarrow> arguments_of args w;
             Some (Inr UL_OK, w\<lparr>g_is_debug := (arg_verbose a = Yes)\<rparr>)
           }
         }
     }
   }"

end
