(* ===== verification/Curl.thy ===== *)
theory Curl
  imports Errors_Log
begin

text \<open>
  What \<^verbatim>\<open>https-client.c\<close> uses of libcurl, OpenSSL and the clock. The functions of these libraries
  are parameters: the fields of the record \<open>lib\<close>, on the outside state \<open>ext\<close>. The model adds the
  memory of the string lists and the rule that a transfer ends when a callback does not accept
  its data.
\<close>

section \<open>The library functions\<close>

text \<open>
  \<open>lib_slist_append n xs s\<close> is the list after appending \<open>s\<close> to \<open>xs\<close>, or \<open>None\<close> when there is no
  memory; \<open>n\<close> numbers the attempt. \<open>lib_hmac key message\<close> is the digest of
  \<^verbatim>\<open>HMAC (EVP_sha512 (), ...)\<close>, or \<open>None\<close> when it fails.
\<close>

record 'e lib =
  lib_time :: "'e \<Rightarrow> int \<times> 'e"
  lib_hmac :: "string \<Rightarrow> string \<Rightarrow> string option"
  lib_slist_append :: "nat \<Rightarrow> string list \<Rightarrow> string \<Rightarrow> string list option"
  lib_global_init :: "'e \<Rightarrow> int \<times> 'e"
  lib_easy_init :: "'e \<Rightarrow> bool \<times> 'e"
  lib_perform :: "easy \<Rightarrow> 'e \<Rightarrow> transfer \<times> 'e"
  lib_strerror :: "int \<Rightarrow> string"
  lib_sleep :: "nat \<Rightarrow> 'e \<Rightarrow> 'e"

text \<open>
  What the code relies on: appending to a list yields that list with the new string at its end,
  a SHA512 digest has 64 bytes, an error message is a C string.
\<close>

definition lib_ok :: "'e lib \<Rightarrow> bool" where
  "lib_ok L \<longleftrightarrow>
     (\<forall>n xs s ys. lib_slist_append L n xs s = Some ys \<longrightarrow> ys = xs @ [s]) \<and>
     (\<forall>k m d. lib_hmac L k m = Some d \<longrightarrow> length d = 64) \<and>
     (\<forall>c. NUL \<notin> set (lib_strerror L c))"

lemma lib_ok_append: "lib_ok L \<Longrightarrow> lib_slist_append L n xs s = Some ys \<Longrightarrow> ys = xs @ [s]"
  by (simp add: lib_ok_def)

lemma lib_ok_hmac: "lib_ok L \<Longrightarrow> lib_hmac L k m = Some d \<Longrightarrow> length d = 64"
  by (simp add: lib_ok_def)

section \<open>String lists\<close>

text \<open>
  \<^verbatim>\<open>curl_slist_append\<close> copies the string; the first append of a list allocates it, a later one
  returns the same list. When it fails it returns null and leaves the list as it is.
\<close>

definition curl_slist_append :: "'e lib \<Rightarrow> ptr \<Rightarrow> ptr \<Rightarrow> 'e world \<Rightarrow> (ptr, 'e) res" where
  "curl_slist_append L p q w = do {
     s \<leftarrow> cstr q w;
     xs \<leftarrow> slist_of p w;
     let b = brk w;
     let w = w\<lparr>brk := Suc b\<rparr>;
     case lib_slist_append L b xs s of
       None \<Rightarrow> Some (NULL, w)
     | Some ys \<Rightarrow>
         if p = NULL then Some (Ptr b, w\<lparr>heap := (heap w)(b \<mapsto> Slist ys)\<rparr>)
         else do { w \<leftarrow> assign p (Slist ys) w; Some (p, w) }
   }"

definition curl_slist_free_all :: "ptr \<Rightarrow> 'e world \<Rightarrow> 'e world option" where
  "curl_slist_free_all p w = do { xs \<leftarrow> slist_of p w; free p w }"

lemma slist_of_NULL [simp]: "slist_of NULL w = Some []"
  by (simp add: slist_of_def)

lemma slist_of_Ptr [simp]:
  "heap w b = Some (Slist xs) \<Longrightarrow> xs \<noteq> [] \<Longrightarrow> slist_of (Ptr b) w = Some xs"
  by (simp add: slist_of_def deref_def)

lemma slist_of_cases:
  assumes "slist_of p w = Some xs"
  obtains "p = NULL" "xs = []" | b where "p = Ptr b" "heap w b = Some (Slist xs)" "xs \<noteq> []"
  using assms
  by (auto simp: slist_of_def deref_def split: if_splits option.splits obj.splits ptr.splits)

lemma curl_slist_free_all_Ptr [simp]:
  "heap w b = Some (Slist xs) \<Longrightarrow> xs \<noteq> [] \<Longrightarrow>
   curl_slist_free_all (Ptr b) w = Some (w\<lparr>heap := (heap w)(b := None)\<rparr>)"
  by (simp add: curl_slist_free_all_def)

lemma curl_slist_free_all_NULL [simp]: "curl_slist_free_all NULL w = Some w"
  by (simp add: curl_slist_free_all_def)

text \<open>The effect of appending to a list in a block and to the empty list.\<close>

lemma curl_slist_append_new:
  assumes "cstr q w = Some s"
  shows "curl_slist_append L NULL q w =
    Some (case lib_slist_append L (brk w) [] s of
            None \<Rightarrow> (NULL, w\<lparr>brk := Suc (brk w)\<rparr>)
          | Some ys \<Rightarrow>
              (Ptr (brk w), w\<lparr>brk := Suc (brk w), heap := (heap w)(brk w \<mapsto> Slist ys)\<rparr>))"
  using assms by (simp add: curl_slist_append_def Let_def split: option.splits)

lemma curl_slist_append_more:
  assumes "cstr q w = Some s" and "heap w b = Some (Slist xs)" and "xs \<noteq> []"
  shows "curl_slist_append L (Ptr b) q w =
    Some (case lib_slist_append L (brk w) xs s of
            None \<Rightarrow> (NULL, w\<lparr>brk := Suc (brk w)\<rparr>)
          | Some ys \<Rightarrow>
              (Ptr b, w\<lparr>brk := Suc (brk w), heap := (heap w)(b \<mapsto> Slist ys)\<rparr>))"
  using assms by (simp add: curl_slist_append_def Let_def split: option.splits)

text \<open>No allocation fails from here on, neither of the program nor of the library.\<close>

definition memory_ok :: "'e lib \<Rightarrow> 'e world \<Rightarrow> bool" where
  "memory_ok L w \<longleftrightarrow>
     (\<forall>n. alloc_ok w n) \<and> (\<forall>n xs s. lib_slist_append L n xs s = Some (xs @ [s]))"

text \<open>Then appending works, and the list is in its old block or in a new one.\<close>

lemma curl_slist_append_ok:
  assumes "memory_ok L w" and "cstr q w = Some s" and "slist_of p w = Some xs"
    and "c = (case p of Ptr c \<Rightarrow> c | _ \<Rightarrow> brk w)"
  shows "curl_slist_append L p q w =
    Some (Ptr c, w\<lparr>brk := Suc (brk w), heap := (heap w)(c \<mapsto> Slist (xs @ [s]))\<rparr>)"
  using assms(3)
  by (cases rule: slist_of_cases)
    (use assms in \<open>simp_all add: memory_ok_def curl_slist_append_new curl_slist_append_more\<close>)

end
