(* ===== verification/Http_Date.thy ===== *)
theory Http_Date
  imports Curl
begin

text \<open>
  \<^verbatim>\<open>date_header\<close> and \<^verbatim>\<open>add_date_header\<close> of \<^verbatim>\<open>src/https-client.c\<close>, with the part of the C library's
  \<^verbatim>\<open>gmtime\<close> they use. The lemmas show that every index into the two tables is in range, that the
  calendar computation is the inverse of counting days, which text the header is, and that reading
  the text gives the time back.
\<close>

section \<open>gmtime\<close>

record tm =
  tm_sec :: int
  tm_min :: int
  tm_hour :: int
  tm_mday :: int
  tm_mon :: int
  tm_year :: int
  tm_wday :: int

text \<open>
  The civil date of a day number (day 0 is the first of January 1970), in the Gregorian calendar
  extended to all years. A year is counted from the first of March, so that the leap day is its
  last day; 400 years have 146097 days.
\<close>

definition year_of_era :: "int \<Rightarrow> int" where
  "year_of_era doe = (doe - doe div 1460 + doe div 36524 - doe div 146096) div 365"

definition days_before_year :: "int \<Rightarrow> int" where
  "days_before_year yoe = 365 * yoe + yoe div 4 - yoe div 100"

definition days_before_month :: "int \<Rightarrow> int" where
  "days_before_month mp = (153 * mp + 2) div 5"

definition civil_from_days :: "int \<Rightarrow> int \<times> int \<times> int" where
  "civil_from_days days =
     (let z = days + 719468;
          doe = z mod 146097;
          yoe = year_of_era doe;
          doy = doe - days_before_year yoe;
          mp = (5 * doy + 2) div 153;
          d = doy - days_before_month mp + 1;
          m = (if mp < 10 then mp + 3 else mp - 9);
          y = yoe + (z div 146097) * 400
      in (if m \<le> 2 then y + 1 else y, m, d))"

text \<open>\<^verbatim>\<open>gmtime\<close> is null when the year is not an \<^verbatim>\<open>int\<close>.\<close>

definition gmtime :: "int \<Rightarrow> tm option" where
  "gmtime t =
     (let days = t div 86400; r = t mod 86400; (y, m, d) = civil_from_days days
      in if - 2147483648 \<le> y - 1900 \<and> y - 1900 \<le> 2147483647
         then Some \<lparr>tm_sec = r mod 60, tm_min = r div 60 mod 60, tm_hour = r div 3600,
                    tm_mday = d, tm_mon = m - 1, tm_year = y - 1900, tm_wday = (days + 4) mod 7\<rparr>
         else None)"

section \<open>The header\<close>

text \<open>Reading \<open>xs[i]\<close> of a table.\<close>

definition index_of :: "'a list \<Rightarrow> int \<Rightarrow> 'a option" where
  "index_of xs i = (if 0 \<le> i \<and> i < int (length xs) then Some (xs ! nat i) else None)"

definition days :: "string list" where
  "days = [''Sun'', ''Mon'', ''Tue'', ''Wed'', ''Thu'', ''Fri'', ''Sat'']"

definition months :: "string list" where
  "months = [''Jan'', ''Feb'', ''Mar'', ''Apr'', ''May'', ''Jun'', ''Jul'', ''Aug'', ''Sep'',
     ''Oct'', ''Nov'', ''Dec'']"

definition header_fmt :: string where
  "header_fmt = ''Date: %s, %02d %s %d %02d:%02d:%02d GMT''"

text \<open>
  The argument is \<open>None\<close> for a null pointer: then the current time is taken. Adding 1900 to the year
  must not leave the range of \<^verbatim>\<open>int\<close>.
\<close>

definition date_header :: "'e lib \<Rightarrow> int option \<Rightarrow> 'e world \<Rightarrow> (ptr, 'e) res" where
  "date_header L epoch w = do {
     let (now, w) = (case epoch of
                       Some t \<Rightarrow> (t, w)
                     | None \<Rightarrow> let (t, x) = lib_time L (ext w) in (t, w\<lparr>ext := x\<rparr>));
     tm \<leftarrow> gmtime now;
     day \<leftarrow> index_of days (tm_wday tm);
     month \<leftarrow> index_of months (tm_mon tm);
     year \<leftarrow> (if tm_year tm + 1900 \<le> int int_max then Some (tm_year tm + 1900) else None);
     let args = [AStr (Lit day), AInt (tm_mday tm), AStr (Lit month), AInt year,
                 AInt (tm_hour tm), AInt (tm_min tm), AInt (tm_sec tm)];
     header_length \<leftarrow> snprintf_len header_fmt args w;
     if header_length < 0 then Some (NULL, w)
     else do {
       (header, w) \<leftarrow> malloc (size_t (nat (header_length + 1))) w;
       if header = NULL then Some (NULL, w)
       else do {
         (n, w) \<leftarrow> snprintf header (size_t (nat (header_length + 1))) header_fmt args w;
         if n < 0 then do { w \<leftarrow> free header w; Some (NULL, w) } else Some (header, w)
       }
     }
   }"

definition add_date_header :: "'e lib \<Rightarrow> ptr \<Rightarrow> 'e world \<Rightarrow> (ptr, 'e) res" where
  "add_date_header L headers w = do {
     (header_date, w) \<leftarrow> date_header L None w;
     if header_date = NULL then Some (NULL, w)
     else do {
       (headers, w) \<leftarrow> curl_slist_append L headers header_date w;
       w \<leftarrow> free header_date w;
       Some (headers, w)
     }
   }"

section \<open>The calendar\<close>

lemma year_of_era_step: "0 \<le> d \<Longrightarrow> year_of_era d \<le> year_of_era (d + 1)"
proof -
  assume "0 \<le> d"
  have step: "(d + 1) div k \<le> d div k + 1" "d div k \<le> (d + 1) div k" if "0 < k" for k
    using zdiv_mono1 [of "d + 1" "d + k" k] zdiv_mono1 [of d "d + 1" k] that by simp_all
  have four: "q' div 4 - q div 4 \<le> q' - q" if "q \<le> q'" "q' \<le> q + 1" for q q' :: int
    using that by presburger
  let ?q = "d div 36524" and ?q' = "(d + 1) div 36524"
  have e: "x div 146096 = x div 36524 div 4" for x :: int
    by (simp add: div_mult2_eq [symmetric] zdiv_zmult2_eq [symmetric])
  have "?q' div 4 - ?q div 4 \<le> ?q' - ?q" using step [of 36524] four [of ?q ?q'] by simp
  with step(1) [of 1460] have "d - d div 1460 + d div 36524 - d div 146096 \<le>
      (d + 1) - (d + 1) div 1460 + (d + 1) div 36524 - (d + 1) div 146096"
    unfolding e by simp
  then show ?thesis unfolding year_of_era_def by (rule zdiv_mono1) simp
qed

lemma year_of_era_mono: "0 \<le> d \<Longrightarrow> d \<le> e \<Longrightarrow> year_of_era d \<le> year_of_era e"
proof (induction "nat (e - d)" arbitrary: e)
  case 0
  then show ?case by simp
next
  case (Suc n)
  then have "year_of_era d \<le> year_of_era (e - 1)" by simp
  also have "\<dots> \<le> year_of_era e" using year_of_era_step [of "e - 1"] Suc by simp
  finally show ?case .
qed


text \<open>Checked for each of the 400 years: its first and its last day are in it.\<close>

definition year_ok :: "int \<Rightarrow> bool" where
  "year_ok y \<longleftrightarrow> year_of_era (days_before_year y) = y \<and>
     year_of_era (days_before_year (y + 1) - 1 + (if y = 399 then 1 else 0)) = y \<and>
     days_before_year (y + 1) - days_before_year y + (if y = 399 then 1 else 0) \<le> 366 \<and>
     0 \<le> days_before_year y"

lemma year_ok_all: "list_all year_ok [0..399]"
  by code_simp

lemma year_okI: "0 \<le> y \<Longrightarrow> y \<le> 399 \<Longrightarrow> year_ok y"
  using year_ok_all by (simp add: list_all_iff del: upto.simps)

lemma year_interval:
  "0 \<le> d \<Longrightarrow> d < days_before_year (int n) \<Longrightarrow>
   \<exists>y. 0 \<le> y \<and> y < int n \<and> days_before_year y \<le> d \<and> d < days_before_year (y + 1)"
proof (induction n)
  case 0
  then show ?case by (simp add: days_before_year_def)
next
  case (Suc n)
  show ?case
  proof (cases "d < days_before_year (int n)")
    case True
    with Suc.IH Suc.prems(1) show ?thesis by fastforce
  next
    case False
    with Suc.prems(2) show ?thesis by (intro exI [of _ "int n"]) (simp add: add.commute)
  qed
qed

text \<open>The year that \<open>year_of_era\<close> computes contains the day.\<close>

lemma year_of_era_ok:
  assumes "0 \<le> d" "d < 146097"
  shows "0 \<le> year_of_era d" "year_of_era d \<le> 399"
    "0 \<le> d - days_before_year (year_of_era d)" "d - days_before_year (year_of_era d) \<le> 365"
proof -
  have "days_before_year 400 = 146096" by (simp add: days_before_year_def)
  then obtain y where y: "0 \<le> y" "y \<le> 399" "days_before_year y \<le> d"
      "d \<le> days_before_year (y + 1) - 1 + (if y = 399 then 1 else 0)"
  proof (cases "d = 146096")
    case True
    then show ?thesis by (intro that [of 399]) (simp_all add: days_before_year_def)
  next
    case False
    with assms have "d < days_before_year (int 400)" by (simp add: days_before_year_def)
    then obtain y where "0 \<le> y" "y < 400" "days_before_year y \<le> d" "d < days_before_year (y + 1)"
      using year_interval [OF assms(1), of 400] by auto
    then show ?thesis by (intro that [of y]) auto
  qed
  have ok: "year_ok y" using y by (intro year_okI)
  have "year_of_era (days_before_year y) \<le> year_of_era d"
    "year_of_era d \<le> year_of_era (days_before_year (y + 1) - 1 + (if y = 399 then 1 else 0))"
    using y(3,4) ok assms(1) year_of_era_mono [of "days_before_year y" d]
      year_of_era_mono [of d "days_before_year (y + 1) - 1 + (if y = 399 then 1 else 0)"]
    unfolding year_ok_def by blast+
  then have "year_of_era d = y" using ok by (simp add: year_ok_def)
  then show "0 \<le> year_of_era d" "year_of_era d \<le> 399"
    "0 \<le> d - days_before_year (year_of_era d)" "d - days_before_year (year_of_era d) \<le> 365"
    using y ok by (simp_all add: year_ok_def split: if_splits)
qed

text \<open>Checked for each day of a year: its month and its day of the month.\<close>

definition month_ok :: "int \<Rightarrow> bool" where
  "month_ok doy \<longleftrightarrow> (let mp = (5 * doy + 2) div 153; d = doy - days_before_month mp
     in 0 \<le> mp \<and> mp \<le> 11 \<and> 0 \<le> d \<and> d \<le> 30)"

lemma month_ok_all: "list_all month_ok [0..365]"
  by code_simp

lemma month_okI: "0 \<le> doy \<Longrightarrow> doy \<le> 365 \<Longrightarrow> month_ok doy"
  using month_ok_all by (simp add: list_all_iff del: upto.simps)

text \<open>The day number of a civil date, by counting the days before its year and its month.\<close>

definition days_from_civil :: "int \<Rightarrow> int \<Rightarrow> int \<Rightarrow> int" where
  "days_from_civil y m d =
     (let y' = (if m \<le> 2 then y - 1 else y); mp = (if m \<le> 2 then m + 9 else m - 3)
      in y' div 400 * 146097 + days_before_year (y' mod 400) + days_before_month mp + d - 1 - 719468)"

lemma civil_from_days_ok:
  assumes "civil_from_days z = (y, m, d)"
  shows "1 \<le> m" "m \<le> 12" "1 \<le> d" "d \<le> 31" "days_from_civil y m d = z"
proof -
  let ?z = "z + 719468"
  define era where "era = ?z div 146097"
  define doe where "doe = ?z mod 146097"
  define yoe where "yoe = year_of_era doe"
  define doy where "doy = doe - days_before_year yoe"
  define mp where "mp = (5 * doy + 2) div 153"
  have doe: "0 \<le> doe" "doe < 146097" by (simp_all add: doe_def)
  note y = year_of_era_ok [OF doe, folded yoe_def, folded doy_def]
  have "month_ok doy" using y by (intro month_okI)
  then have mp: "0 \<le> mp" "mp \<le> 11" "0 \<le> doy - days_before_month mp" "doy - days_before_month mp \<le> 30"
    by (simp_all add: month_ok_def Let_def mp_def)
  have m: "m = (if mp < 10 then mp + 3 else mp - 9)" and d: "d = doy - days_before_month mp + 1"
    and yy: "y = (if m \<le> 2 then yoe + era * 400 + 1 else yoe + era * 400)"
    using assms
    by (simp_all add: civil_from_days_def Let_def era_def doe_def yoe_def doy_def mp_def split: if_splits)
  from mp m d show "1 \<le> m" "m \<le> 12" "1 \<le> d" "d \<le> 31" by (auto split: if_splits)
  have "(yoe + era * 400) div 400 = era" "(yoe + era * 400) mod 400 = yoe"
    using y by simp_all
  moreover have "(if m \<le> 2 then m + 9 else m - 3) = mp" using mp m by auto
  moreover have "(if m \<le> 2 then y - 1 else y) = yoe + era * 400" using yy by auto
  moreover have "era * 146097 + doe = ?z" by (simp add: era_def doe_def)
  ultimately show "days_from_civil y m d = z"
    by (simp add: days_from_civil_def Let_def d doy_def)
qed

text \<open>The seconds since the epoch of a broken-down time, and what \<^verbatim>\<open>gmtime\<close> returns.\<close>

definition timegm :: "tm \<Rightarrow> int" where
  "timegm tm = days_from_civil (tm_year tm + 1900) (tm_mon tm + 1) (tm_mday tm) * 86400 +
     tm_hour tm * 3600 + tm_min tm * 60 + tm_sec tm"

definition tm_ok :: "tm \<Rightarrow> bool" where
  "tm_ok tm \<longleftrightarrow> 0 \<le> tm_sec tm \<and> tm_sec tm < 60 \<and> 0 \<le> tm_min tm \<and> tm_min tm < 60 \<and>
     0 \<le> tm_hour tm \<and> tm_hour tm < 24 \<and> 1 \<le> tm_mday tm \<and> tm_mday tm \<le> 31 \<and>
     0 \<le> tm_mon tm \<and> tm_mon tm < 12 \<and> 0 \<le> tm_wday tm \<and> tm_wday tm < 7"

lemma gmtime_wday: "gmtime t = Some tm \<Longrightarrow> tm_wday tm = (t div 86400 + 4) mod 7"
  by (auto simp: gmtime_def Let_def split: prod.splits if_splits)

lemma gmtime_ok:
  assumes "gmtime t = Some tm"
  shows "tm_ok tm" "timegm tm = t" "- 2147483648 \<le> tm_year tm" "tm_year tm \<le> 2147483647"
proof -
  obtain y m d where c: "civil_from_days (t div 86400) = (y, m, d)" by (metis prod_cases3)
  let ?r = "t mod 86400"
  have tm: "tm = \<lparr>tm_sec = ?r mod 60, tm_min = ?r div 60 mod 60, tm_hour = ?r div 3600,
      tm_mday = d, tm_mon = m - 1, tm_year = y - 1900, tm_wday = (t div 86400 + 4) mod 7\<rparr>"
    and yr: "- 2147483648 \<le> y - 1900" "y - 1900 \<le> 2147483647"
    using assms by (auto simp: gmtime_def c Let_def split: if_splits)
  have r: "0 \<le> ?r" "?r < 86400" by simp_all
  have h: "?r div 3600 < 24" "0 \<le> ?r div 3600" using r by simp_all
  have hms: "?r div 3600 * 3600 + ?r div 60 mod 60 * 60 + ?r mod 60 = ?r"
  proof -
    have "?r div 60 div 60 = ?r div 3600" by (simp add: zdiv_zmult2_eq [symmetric])
    then show ?thesis
      using div_mult_mod_eq [of "?r" 60] div_mult_mod_eq [of "?r div 60" 60] by linarith
  qed
  show "tm_ok tm" using civil_from_days_ok [OF c] h by (simp add: tm_ok_def tm)
  have "timegm tm = t div 86400 * 86400 + (?r div 3600 * 3600 + ?r div 60 mod 60 * 60 + ?r mod 60)"
    using civil_from_days_ok [OF c] by (simp add: timegm_def tm)
  then show "timegm tm = t" unfolding hms by simp
  show "- 2147483648 \<le> tm_year tm" "tm_year tm \<le> 2147483647" using yr by (simp_all add: tm)
qed


section \<open>The text of the header\<close>

definition date_text :: "tm \<Rightarrow> string" where
  "date_text tm =
     ''Date: '' @ days ! nat (tm_wday tm) @ '', '' @ pad02 (show_int (tm_mday tm)) @ '' '' @
     months ! nat (tm_mon tm) @ '' '' @ show_int (tm_year tm + 1900) @ '' '' @
     pad02 (show_int (tm_hour tm)) @ '':'' @ pad02 (show_int (tm_min tm)) @ '':'' @
     pad02 (show_int (tm_sec tm)) @ '' GMT''"

lemma stb31: "- 2147483648 \<le> i \<Longrightarrow> i \<le> 2147483647 \<Longrightarrow> signed_take_bit 31 i = (i :: int)"
  by (simp add: signed_take_bit_int_eq_self)

lemma names_no_nul: "list_all (\<lambda>s. NUL \<notin> set s) (days @ months)"
  by code_simp

definition date_args :: "tm \<Rightarrow> farg list" where
  "date_args tm =
     [AStr (Lit (days ! nat (tm_wday tm))), AInt (tm_mday tm), AStr (Lit (months ! nat (tm_mon tm))),
      AInt (tm_year tm + 1900), AInt (tm_hour tm), AInt (tm_min tm), AInt (tm_sec tm)]"

lemma format_date:
  assumes "tm_ok tm" and yr: "- 2147483648 \<le> tm_year tm + 1900" "tm_year tm + 1900 \<le> 2147483647"
  shows "format header_fmt (date_args tm) w = Some (date_text tm)"
proof -
  have "length days = 7" "length months = 12" by (simp_all add: days_def months_def)
  then have "days ! nat (tm_wday tm) \<in> set days" "months ! nat (tm_mon tm) \<in> set months"
    using assms by (auto simp: tm_ok_def)
  then have nul: "NUL \<notin> set (days ! nat (tm_wday tm))" "NUL \<notin> set (months ! nat (tm_mon tm))"
    using names_no_nul by (auto simp: list_all_iff)
  have stb: "signed_take_bit 31 (tm_mday tm) = tm_mday tm" "signed_take_bit 31 (tm_hour tm) = tm_hour tm"
    "signed_take_bit 31 (tm_min tm) = tm_min tm" "signed_take_bit 31 (tm_sec tm) = tm_sec tm"
    "signed_take_bit 31 (tm_year tm + 1900) = tm_year tm + 1900"
    using assms by (simp_all add: stb31 tm_ok_def)
  show ?thesis
    by (simp add: header_fmt_def date_args_def date_text_def stb nul)
qed


text \<open>The fields of the text, for a year of four digits.\<close>

lemma pad02_ok:
  assumes "0 \<le> i" "i < 100"
  shows "length (pad02 (show_int i)) = 2" "read_nat (pad02 (show_int i)) = nat i"
proof -
  have "list_all (\<lambda>n. length (pad02 (show_int (int n))) = 2 \<and> read_nat (pad02 (show_int (int n))) = n) [0..<100]"
    by code_simp
  then have "length (pad02 (show_int (int (nat i)))) = 2 \<and> read_nat (pad02 (show_int (int (nat i)))) = nat i"
    unfolding list_all_iff using assms by (metis atLeastLessThan_iff bot_nat_0.extremum nat_less_iff of_nat_numeral set_upt)
  then show "length (pad02 (show_int i)) = 2" "read_nat (pad02 (show_int i)) = nat i"
    using assms by simp_all
qed

lemma length_show_nat_4:
  assumes "1000 \<le> n" "n \<le> 9999"
  shows "length (show_nat n) = 4"
proof -
  have "n div 1000 < 10" "10 \<le> n div 100" "10 \<le> n div 10" "10 \<le> n"
    using assms by (simp_all add: less_eq_div_iff_mult_less_eq div_less_iff_less_mult)
  moreover have "n div 10 div 10 = n div 100" "n div 100 div 10 = n div 1000"
    by (simp_all add: div_mult2_eq [symmetric])
  ultimately show ?thesis
    by (simp add: show_nat.simps [of n] show_nat.simps [of "n div 10"] show_nat.simps [of "n div 100"]
        show_nat.simps [of "n div 1000"])
qed

lemma show_year:
  assumes "1000 \<le> y" "y \<le> 9999"
  shows "length (show_int y) = 4" "read_nat (show_int y) = nat y"
  using assms by (simp_all add: show_int_def length_show_nat_4)

lemma name_3: "list_all (\<lambda>s. length s = 3) (days @ months)"
  by code_simp

text \<open>
  Reading the header back, by the positions and the names RFC 7231 fixes for its fields: the names are written out
  here once more, apart from the tables of the code. \<open>read_weekday\<close> is the number of the day in the week, with 0 for
  Sunday.
\<close>

definition rfc_months :: "string list" where
  "rfc_months = [''Jan'', ''Feb'', ''Mar'', ''Apr'', ''May'', ''Jun'', ''Jul'', ''Aug'', ''Sep'', ''Oct'', ''Nov'', ''Dec'']"

definition rfc_days :: "string list" where
  "rfc_days = [''Sun'', ''Mon'', ''Tue'', ''Wed'', ''Thu'', ''Fri'', ''Sat'']"

definition number_in :: "string list \<Rightarrow> string \<Rightarrow> int" where
  "number_in names s = int (length (takeWhile (\<lambda>m. m \<noteq> s) names))"

lemma months_numbered: "list_all (\<lambda>i. number_in rfc_months (months ! i) = int i) [0..<12]"
  by code_simp

lemma days_numbered: "list_all (\<lambda>i. number_in rfc_days (days ! i) = int i) [0..<7]"
  by code_simp

definition field :: "nat \<Rightarrow> nat \<Rightarrow> string \<Rightarrow> string" where
  "field i n s = take n (drop i s)"

definition read_date :: "string \<Rightarrow> int" where
  "read_date s =
     days_from_civil (int (read_nat (field 18 4 s))) (number_in rfc_months (field 14 3 s) + 1)
       (int (read_nat (field 11 2 s))) * 86400 +
     int (read_nat (field 23 2 s)) * 3600 + int (read_nat (field 26 2 s)) * 60 +
     int (read_nat (field 29 2 s))"

definition read_weekday :: "string \<Rightarrow> int" where
  "read_weekday s = number_in rfc_days (field 6 3 s)"

text \<open>What is between the fields.\<close>

definition date_frame :: "string \<Rightarrow> string list" where
  "date_frame s = [field 0 6 s, field 9 2 s, field 13 1 s, field 17 1 s, field 22 1 s, field 25 1 s, field 28 1 s, drop 31 s]"

lemma date_text_ok:
  assumes ok: "tm_ok tm" and yr: "1000 \<le> tm_year tm + 1900" "tm_year tm + 1900 \<le> 9999"
  shows "length (date_text tm) = 35" "read_date (date_text tm) = timegm tm" "read_weekday (date_text tm) = tm_wday tm"
    "date_frame (date_text tm) = [''Date: '', '', '', '' '', '' '', '' '', '':'', '':'', '' GMT'']"
proof -
  have len: "length days = 7" "length months = 12" by (simp_all add: days_def months_def)
  then have "days ! nat (tm_wday tm) \<in> set days" "months ! nat (tm_mon tm) \<in> set months"
    using ok by (auto simp: tm_ok_def)
  then have n: "length (days ! nat (tm_wday tm)) = 3" "length (months ! nat (tm_mon tm)) = 3"
    using name_3 by (auto simp: list_all_iff)
  have m: "number_in rfc_months (months ! nat (tm_mon tm)) = tm_mon tm"
    using months_numbered [unfolded list_all_iff, rule_format, of "nat (tm_mon tm)"] ok
    by (simp add: tm_ok_def nat_less_iff del: upt.simps)
  have d: "number_in rfc_days (days ! nat (tm_wday tm)) = tm_wday tm"
    using days_numbered [unfolded list_all_iff, rule_format, of "nat (tm_wday tm)"] ok
    by (simp add: tm_ok_def nat_less_iff del: upt.simps)
  have p: "length (pad02 (show_int i)) = 2 \<and> read_nat (pad02 (show_int i)) = nat i"
    if "i \<in> {tm_mday tm, tm_hour tm, tm_min tm, tm_sec tm}" for i
    using ok that by (auto simp: tm_ok_def intro!: pad02_ok)
  show "length (date_text tm) = 35"
    using p n show_year [OF yr] by (simp add: date_text_def)
  show "read_date (date_text tm) = timegm tm"
    using p n m show_year [OF yr] ok yr
    by (simp add: date_text_def read_date_def field_def timegm_def tm_ok_def)
  show "read_weekday (date_text tm) = tm_wday tm"
    using n d by (simp add: date_text_def read_weekday_def field_def)
  show "date_frame (date_text tm) = [''Date: '', '', '', '' '', '' '', '' '', '':'', '':'', '' GMT'']"
    using p n show_year [OF yr] by (simp add: date_text_def date_frame_def field_def)
qed

lemma date_header_eq:
  assumes tm: "gmtime t = Some tm" and yr: "tm_year tm + 1900 \<le> int int_max"
    and wf: "world_wf w" and len: "length (date_text tm) \<le> int_max"
  shows "date_header L (Some t) w = Some (alloc_str (date_text tm) w)"
proof -
  note ok = gmtime_ok [OF tm]
  have yr': "- 2147483648 \<le> tm_year tm + 1900" "tm_year tm + 1900 \<le> 2147483647"
    using ok(3) yr by (simp_all add: int_max_def)
  have "length days = 7" "length months = 12" by (simp_all add: days_def months_def)
  then have ix: "index_of days (tm_wday tm) = Some (days ! nat (tm_wday tm))"
    "index_of months (tm_mon tm) = Some (months ! nat (tm_mon tm))"
    using ok(1) by (simp_all add: index_of_def tm_ok_def)
  note fmt = format_date [OF ok(1) yr']
  have n: "snprintf_len header_fmt (date_args tm) w = Some (int (length (date_text tm)))"
    using len by (simp add: snprintf_len_def fmt printed_len_def)
  have pos: "\<not> int (length (date_text tm)) < 0"
    "nat (int (length (date_text tm)) + 1) = length (date_text tm) + 1" by simp_all
  have args: "[AStr (Lit (days ! nat (tm_wday tm))), AInt (tm_mday tm),
      AStr (Lit (months ! nat (tm_mon tm))), AInt (tm_year tm + 1900), AInt (tm_hour tm),
      AInt (tm_min tm), AInt (tm_sec tm)] = date_args tm" by (simp add: date_args_def)
  show ?thesis
    by (simp only: date_header_def Let_def option.case prod.case tm ix yr if_True args n pos if_False
          Option.bind.simps print_into_fresh_buffer [OF wf fmt len])
qed

end
