(* ===== verification/Http_Auth.thy ===== *)
theory Http_Auth
  imports Curl
begin

text \<open>
  The \<^verbatim>\<open>Authorization\<close> header of \<^verbatim>\<open>src/https-client.c\<close>: \<^verbatim>\<open>strToLower\<close>, \<^verbatim>\<open>joinHeaderNames\<close>,
  \<^verbatim>\<open>hmac_sha512\<close>, \<^verbatim>\<open>authHeader\<close> and \<^verbatim>\<open>add_auth_header\<close>, on the buffers the code allocates. The
  reference definitions below say what text each of them builds; the lemmas show that the code
  builds it without leaving its buffers.
\<close>

section \<open>strToLower\<close>

lemma chars_of_assign:
  "chars_of p w = Some cs \<Longrightarrow> assign p (Chars ds) w = Some w' \<Longrightarrow> chars_of p w' = Some ds"
  by (auto simp: chars_of_def assign_def deref_def split: ptr.splits if_splits)

lemma chars_of_store:
  "store p off s w = Some w' \<Longrightarrow> chars_of p w = Some cs \<Longrightarrow>
   off + length s \<le> length cs \<and> chars_of p w' = Some (put off s cs)"
  by (auto simp: store_def split: if_splits dest: chars_of_assign)

lemma load_Some_less: "load p i w = Some c \<Longrightarrow> \<exists>cs. chars_of p w = Some cs \<and> i < length cs"
  by (auto simp: load_def split: option.splits if_splits)

function strToLower_from :: "ptr \<Rightarrow> nat \<Rightarrow> 'e world \<Rightarrow> 'e world option" where
  "strToLower_from p i w =
     (case load p i w of
        None \<Rightarrow> None
      | Some c \<Rightarrow>
          if c = NUL then Some w
          else (case store p i [tolower c] w of
                  None \<Rightarrow> None
                | Some w \<Rightarrow> if i = int_max then None else strToLower_from p (i + 1) w))"
  by pat_completeness auto
termination
proof (relation "measure (\<lambda>(p, i, w). length (the (chars_of p w)) - i)", goal_cases)
  case (2 p i w c w')
  then obtain cs where cs: "chars_of p w = Some cs" "i < length cs"
    using load_Some_less by blast
  with 2 have "i + 1 \<le> length cs \<and> chars_of p w' = Some (put i [tolower c] cs)"
    using chars_of_store by fastforce
  with cs have "length (the (chars_of p w')) = length cs" by (simp add: length_put)
  with cs show ?case by simp
qed simp

declare strToLower_from.simps [simp del]

definition strToLower :: "ptr \<Rightarrow> 'e world \<Rightarrow> 'e world option" where
  "strToLower p w = strToLower_from p 0 w"

section \<open>joinHeaderNames\<close>

text \<open>\<^verbatim>\<open>strstr (data, ":") - data\<close>.\<close>

definition colon_at :: "string \<Rightarrow> nat option" where
  "colon_at h = (if CHR '':'' \<in> set h then Some (length (takeWhile (\<lambda>c. c \<noteq> CHR '':'') h)) else None)"

text \<open>
  The first loop adds up the size, the second one copies the names. The offset of the second one is
  an \<^verbatim>\<open>int\<close>, as the counter of \<^verbatim>\<open>strToLower\<close> is: beyond the largest \<^verbatim>\<open>int\<close> the behaviour is undefined.
\<close>

fun join_size :: "string list \<Rightarrow> nat \<Rightarrow> nat option" where
  "join_size [] n = Some n"
| "join_size (h # hs) n =
     (case colon_at h of
        None \<Rightarrow> None
      | Some k \<Rightarrow> join_size hs (n + k + (if hs = [] then 0 else 1)))"

fun join_fill :: "ptr \<Rightarrow> string list \<Rightarrow> nat \<Rightarrow> 'e world \<Rightarrow> 'e world option" where
  "join_fill p [] off w = Some w"
| "join_fill p (h # hs) off w =
     (case colon_at h of
        None \<Rightarrow> None
      | Some k \<Rightarrow> do {
          w \<leftarrow> store p off (take k h) w;
          w \<leftarrow> (if int_max \<le> off + k then None
                else store p (off + k) [if hs = [] then NUL else CHR '' ''] w);
          join_fill p hs (off + k + 1) w
        })"

definition joinHeaderNames :: "ptr \<Rightarrow> 'e world \<Rightarrow> (ptr, 'e) res" where
  "joinHeaderNames header_list w =
     (if header_list = NULL then do {
        (headers, w) \<leftarrow> malloc 1 w;
        if headers = NULL then Some (NULL, w)
        else do { w \<leftarrow> store headers 0 [NUL] w; Some (headers, w) }
      }
      else do {
        hs \<leftarrow> slist_of header_list w;
        case join_size hs 1 of
          None \<Rightarrow> Some (NULL, w)
        | Some headers_size \<Rightarrow> do {
            (headers, w) \<leftarrow> malloc (size_t headers_size) w;
            if headers = NULL then Some (NULL, w)
            else do {
              w \<leftarrow> join_fill headers hs 0 w;
              w \<leftarrow> strToLower headers w;
              Some (headers, w)
            }
          }
      })"

section \<open>hmac_sha512\<close>

text \<open>
  One turn of the loop prints a byte of the digest and a terminator into the static buffer.
  \<open>None\<close>: outside the digest or outside the buffer.
\<close>

fun hex_loop :: "nat list \<Rightarrow> string \<Rightarrow> string \<Rightarrow> string option" where
  "hex_loop [] digest buf = Some buf"
| "hex_loop (i # is) digest buf =
     (if i < length digest \<and> i * 2 + 3 \<le> length buf
      then hex_loop is digest
             (take (i * 2) buf @ show_hex02 (of_char (digest ! i)) @ [NUL] @ drop (i * 2 + 3) buf)
      else None)"

text \<open>
  The result is the text in the static buffer. A failed \<^verbatim>\<open>HMAC\<close> returns null, and the loop reads
  through it.
\<close>

definition hmac_sha512 :: "'e lib \<Rightarrow> ptr \<Rightarrow> ptr \<Rightarrow> 'e world \<Rightarrow> (string, 'e) res" where
  "hmac_sha512 L key message w = do {
     k \<leftarrow> cstr key w;
     m \<leftarrow> cstr message w;
     digest \<leftarrow> lib_hmac L k m;
     buf \<leftarrow> hex_loop [0..<64] digest (g_hex_digest w);
     hex_digest \<leftarrow> scan (map Some buf);
     Some (hex_digest, w\<lparr>g_hex_digest := buf\<rparr>)
   }"

section \<open>authHeader\<close>

definition auth_fmt :: string where
  "auth_fmt =
     ''Authorization: hmac username=\"%s\", algorithm=\"sha512\", headers=\"%s\", signature=\"%s\"''"

fun strcat_headers :: "ptr \<Rightarrow> string list \<Rightarrow> 'e world \<Rightarrow> 'e world option" where
  "strcat_headers p [] w = Some w"
| "strcat_headers p (h # hs) w = do {
     w \<leftarrow> strcat p h w;
     w \<leftarrow> strcat p [LF] w;
     strcat_headers p hs w
   }"

text \<open>
  \<^verbatim>\<open>auth_header_size += 1\<close> on the largest \<^verbatim>\<open>int\<close> is undefined.
\<close>

definition authHeader ::
  "'e lib \<Rightarrow> ptr \<Rightarrow> ptr \<Rightarrow> ptr \<Rightarrow> ptr \<Rightarrow> 'e world \<Rightarrow> (ptr, 'e) res" where
  "authHeader L headers username key body w = do {
     (header_names, w) \<leftarrow> joinHeaderNames headers w;
     if header_names = NULL then Some (NULL, w)
     else do {
       body_len \<leftarrow> (if body \<noteq> NULL then map_option length (cstr body w) else Some 0);
       hs \<leftarrow> slist_of headers w;
       let data_to_sign_size = 1 + body_len + sum_list (map (\<lambda>h. length h + 1) hs);
       (data_to_sign, w) \<leftarrow> malloc (size_t data_to_sign_size) w;
       if data_to_sign = NULL then do { w \<leftarrow> free header_names w; Some (NULL, w) }
       else do {
         w \<leftarrow> store data_to_sign 0 [NUL] w;
         w \<leftarrow> strcat_headers data_to_sign hs w;
         w \<leftarrow> (if body \<noteq> NULL then do { b \<leftarrow> cstr body w; strcat data_to_sign b w } else Some w);
         (hex_digest, w) \<leftarrow> hmac_sha512 L key data_to_sign w;
         w \<leftarrow> free data_to_sign w;
         let args = [AStr username, AStr header_names, AStr (Lit hex_digest)];
         auth_header_size \<leftarrow> snprintf_len auth_fmt args w;
         if auth_header_size < 0 then do { w \<leftarrow> free header_names w; Some (NULL, w) }
         else if auth_header_size = int int_max then None
         else do {
           (auth_header, w) \<leftarrow> malloc (size_t (nat (auth_header_size + 1))) w;
           if auth_header = NULL then do { w \<leftarrow> free header_names w; Some (NULL, w) }
           else do {
             (n, w) \<leftarrow> snprintf auth_header (size_t (nat (auth_header_size + 1))) auth_fmt args w;
             if n < 0 then do {
               w \<leftarrow> free auth_header w;
               w \<leftarrow> free header_names w;
               Some (NULL, w)
             }
             else do { w \<leftarrow> free header_names w; Some (auth_header, w) }
           }
         }
       }
     }
   }"

definition add_auth_header ::
  "'e lib \<Rightarrow> ptr \<Rightarrow> request \<Rightarrow> 'e world \<Rightarrow> (ptr, 'e) res" where
  "add_auth_header L headers request w = do {
     (header_auth, w) \<leftarrow>
       authHeader L headers (req_username request) (req_secret request) (req_body request) w;
     if header_auth = NULL then Some (NULL, w)
     else do {
       (headers, w) \<leftarrow> curl_slist_append L headers header_auth w;
       w \<leftarrow> free header_auth w;
       Some (headers, w)
     }
   }"

section \<open>The text these functions build\<close>

definition header_name :: "string \<Rightarrow> string" where
  "header_name h = takeWhile (\<lambda>c. c \<noteq> CHR '':'') h"

fun join_names :: "string list \<Rightarrow> string" where
  "join_names [] = []"
| "join_names [h] = header_name h"
| "join_names (h # hs) = header_name h @ [CHR '' ''] @ join_names hs"

definition signed_data :: "string list \<Rightarrow> string \<Rightarrow> string" where
  "signed_data hs body = concat (map (\<lambda>h. h @ [LF]) hs) @ body"

definition hex_of :: "string \<Rightarrow> string" where
  "hex_of digest = concat (map (\<lambda>c. show_hex02 (of_char c)) digest)"

definition auth_text :: "string \<Rightarrow> string list \<Rightarrow> string \<Rightarrow> string" where
  "auth_text user hs digest =
     ''Authorization: hmac username=\"'' @ user @ ''\", algorithm=\"sha512\", headers=\"'' @
     lower (join_names hs) @ ''\", signature=\"'' @ hex_of digest @ ''\"''"

section \<open>Lemmas\<close>

text \<open>A block that starts with a string, and the bytes that follow its terminator.\<close>

abbreviation str_then :: "string \<Rightarrow> cell list \<Rightarrow> obj" where
  "str_then s r \<equiv> Chars (map Some s @ Some NUL # r)"

lemma load_nth:
  "heap w b = Some (Chars cs) \<Longrightarrow> load (Ptr b) i w = (if i < length cs then cs ! i else None)"
  by (simp add: load_def)

lemma strToLower_from_spec:
  "heap w b = Some (str_then (a @ s) r) \<Longrightarrow> NUL \<notin> set s \<Longrightarrow> length (a @ s) \<le> int_max \<Longrightarrow>
   strToLower_from (Ptr b) (length a) w = Some (w\<lparr>heap := (heap w)(b \<mapsto> str_then (a @ lower s) r)\<rparr>)"
proof (induction s arbitrary: a w)
  case Nil
  then show ?case
    by (subst strToLower_from.simps) (simp add: load_nth nth_append fun_upd_idem)
next
  case (Cons c s)
  let ?w = "w\<lparr>heap := (heap w)(b \<mapsto> str_then ((a @ [tolower c]) @ s) r)\<rparr>"
  have put: "put (length a) [tolower c] (map Some (a @ c # s) @ Some NUL # r)
      = map Some ((a @ [tolower c]) @ s) @ Some NUL # r"
    using put_append [of a "[tolower c]" "map Some (c # s) @ Some NUL # r"] by simp
  have "strToLower_from (Ptr b) (length a) w = strToLower_from (Ptr b) (length (a @ [tolower c])) ?w"
    using Cons.prems put
    by (subst strToLower_from.simps) (auto simp: load_nth nth_append store_Ptr)
  also have "\<dots> = Some (?w\<lparr>heap := (heap ?w)(b \<mapsto> str_then ((a @ [tolower c]) @ lower s) r)\<rparr>)"
    by (rule Cons.IH) (use Cons.prems in simp_all)
  finally have "strToLower_from (Ptr b) (length a) w =
      Some (w\<lparr>heap := (heap w)(b \<mapsto> str_then (a @ lower (c # s)) r)\<rparr>)" by simp
  then show ?case .
qed

lemma strToLower_spec:
  assumes "heap w b = Some (str_then s r)" and "NUL \<notin> set s" and "length s \<le> int_max"
  shows "strToLower (Ptr b) w = Some (w\<lparr>heap := (heap w)(b \<mapsto> str_then (lower s) r)\<rparr>)"
  using strToLower_from_spec [of w b "[]" s r] assms by (simp add: strToLower_def)

lemma colon_at_Some: "CHR '':'' \<in> set h \<Longrightarrow> colon_at h = Some (length (header_name h))"
  by (simp add: colon_at_def header_name_def)

lemma take_header_name [simp]: "take (length (header_name h)) h = header_name h"
  by (metis header_name_def takeWhile_eq_take)

lemma join_names_Cons:
  "join_names (h # hs) = header_name h @ (if hs = [] then [] else CHR '' '' # join_names hs)"
  by (cases hs) simp_all

declare join_names.simps(2,3) [simp del]

lemma join_size_ok:
  "list_all (\<lambda>h. CHR '':'' \<in> set h) hs \<Longrightarrow> join_size hs n = Some (n + length (join_names hs))"
  by (induction hs arbitrary: n) (simp_all add: colon_at_Some join_names_Cons)

lemma join_size_bad:
  "\<not> list_all (\<lambda>h. CHR '':'' \<in> set h) hs \<Longrightarrow> join_size hs n = None"
  by (induction hs arbitrary: n) (auto simp: colon_at_def split: option.splits)

lemma store_behind:
  assumes "heap w b = Some (Chars (map Some a @ r))" and "length s \<le> length r"
  shows "store (Ptr b) (length a) s w =
    Some (w\<lparr>heap := (heap w)(b \<mapsto> Chars (map Some (a @ s) @ drop (length s) r))\<rparr>)"
  using assms put_append [of a s r] by (simp add: store_Ptr)

lemma join_fill_spec:
  "heap w b = Some (Chars (map Some a @ r)) \<Longrightarrow> hs \<noteq> [] \<Longrightarrow>
   list_all (\<lambda>h. CHR '':'' \<in> set h) hs \<Longrightarrow> length (join_names hs) < length r \<Longrightarrow>
   length a + length (join_names hs) < int_max \<Longrightarrow>
   join_fill (Ptr b) hs (length a) w =
     Some (w\<lparr>heap := (heap w)(b \<mapsto> str_then (a @ join_names hs) (drop (Suc (length (join_names hs))) r))\<rparr>)"
proof (induction hs arbitrary: a r w)
  case (Cons h hs)
  let ?n = "header_name h" and ?c = "if hs = [] then NUL else CHR '' ''"
  let ?w1 = "w\<lparr>heap := (heap w)(b \<mapsto> Chars (map Some (a @ ?n) @ drop (length ?n) r))\<rparr>"
  let ?a2 = "a @ ?n @ [?c]" and ?r2 = "drop (Suc (length ?n)) r"
  let ?w2 = "?w1\<lparr>heap := (heap ?w1)(b \<mapsto> Chars (map Some ?a2 @ ?r2))\<rparr>"
  have len: "length ?n < length r" using Cons.prems(4) by (simp add: join_names_Cons)
  have s1: "store (Ptr b) (length a) ?n w = Some ?w1"
    using Cons.prems(1) len by (intro store_behind) simp_all
  have "store (Ptr b) (length (a @ ?n)) [?c] ?w1 =
      Some (?w1\<lparr>heap := (heap ?w1)(b \<mapsto>
        Chars (map Some ((a @ ?n) @ [?c]) @ drop (length [?c]) (drop (length ?n) r)))\<rparr>)"
    using len by (intro store_behind) simp_all
  then have s2: "store (Ptr b) (length a + length ?n) [?c] ?w1 = Some ?w2" by simp
  have step: "join_fill (Ptr b) (h # hs) (length a) w = join_fill (Ptr b) hs (length ?a2) ?w2"
    using Cons.prems(3,5) s1 s2 by (simp add: colon_at_Some join_names_Cons split: if_splits)
  let ?r = "drop (Suc (length (join_names (h # hs)))) r"
  have "join_fill (Ptr b) (h # hs) (length a) w =
      Some (w\<lparr>heap := (heap w)(b \<mapsto> str_then (a @ join_names (h # hs)) ?r)\<rparr>)"
  proof (cases "hs = []")
    case True
    with step show ?thesis by (simp add: join_names_Cons)
  next
    case False
    have "join_fill (Ptr b) hs (length ?a2) ?w2 = Some (?w2\<lparr>heap := (heap ?w2)(b \<mapsto>
        str_then (?a2 @ join_names hs) (drop (Suc (length (join_names hs))) ?r2))\<rparr>)"
      by (rule Cons.IH) (use Cons.prems False in \<open>simp_all add: join_names_Cons\<close>)
    with step False show ?thesis
      by (simp add: join_names_Cons add.commute)
  qed
  then show ?case .
qed simp

abbreviation with_colons :: "string list \<Rightarrow> bool" where
  "with_colons hs \<equiv> list_all (\<lambda>h. CHR '':'' \<in> set h) hs"

text \<open>The strings of a list carry no terminator of their own.\<close>

abbreviation c_strings :: "string list \<Rightarrow> bool" where
  "c_strings hs \<equiv> list_all (\<lambda>h. NUL \<notin> set h) hs"

lemma header_name_subset: "set (header_name h) \<subseteq> set h"
  by (auto simp: header_name_def dest: set_takeWhileD)

lemma join_names_no_nul: "c_strings hs \<Longrightarrow> NUL \<notin> set (join_names hs)"
  using header_name_subset by (induction hs) (auto simp: join_names_Cons)

lemma lower_no_nul: "NUL \<notin> set s \<Longrightarrow> NUL \<notin> set (lower s)"
  by (metis imageE list.set_map tolower_eq_NUL)

text \<open>\<^verbatim>\<open>joinHeaderNames\<close> allocates exactly what it writes.\<close>

lemma joinHeaderNames_eq:
  assumes hs: "slist_of p w = Some hs" and ok: "with_colons hs" "c_strings hs"
    and len: "length (join_names hs) < int_max"
  shows "joinHeaderNames p w = Some (alloc_str (lower (join_names hs)) w)"
  using hs
proof (cases rule: slist_of_cases)
  case 1
  then show ?thesis
    by (simp add: joinHeaderNames_def malloc_def ptrdiff_max_def new_block_def alloc_str_def
        Let_def store_Ptr put_def)
next
  case (2 b)
  let ?n = "Suc (length (join_names hs))"
  have size: "join_size hs 1 = Some ?n" "size_t ?n = ?n" "?n \<le> ptrdiff_max"
    using ok(1) len by (simp_all add: join_size_ok size_t_small int_max_def ptrdiff_max_def)
  let ?w = "w\<lparr>brk := Suc (brk w), heap := (heap w)(brk w \<mapsto> Chars (replicate ?n None))\<rparr>"
  let ?w' = "?w\<lparr>heap := (heap ?w)(brk w \<mapsto> str_obj (join_names hs))\<rparr>"
  have fill: "join_fill (Ptr (brk w)) hs 0 ?w = Some ?w'"
    using join_fill_spec [of ?w "brk w" "[]" "replicate ?n None" hs] 2(3) ok(1) len
    by (simp del: replicate.simps add: replicate_0)
  have low: "strToLower (Ptr (brk w)) ?w' =
      Some (w\<lparr>brk := Suc (brk w), heap := (heap w)(brk w \<mapsto> str_obj (lower (join_names hs)))\<rparr>)"
    using strToLower_spec [of ?w' "brk w" "join_names hs" "[]"] join_names_no_nul [OF ok(2)] len
    by simp
  show ?thesis
    using 2 hs size fill low
    by (simp add: joinHeaderNames_def malloc_small new_block_def alloc_str_def Let_def
        del: replicate.simps join_fill.simps)
qed

lemma joinHeaderNames_bad:
  assumes "slist_of p w = Some hs" and "\<not> with_colons hs"
  shows "joinHeaderNames p w = Some (NULL, w)"
  using assms by (auto simp: joinHeaderNames_def join_size_bad)

text \<open>Appending to the string in a block with room.\<close>

lemma strcat_spec:
  assumes "heap w b = Some (str_then a r)" and "NUL \<notin> set a" and "length s \<le> length r"
  shows "strcat (Ptr b) s w =
    Some (w\<lparr>heap := (heap w)(b \<mapsto> str_then (a @ s) (drop (length s) r))\<rparr>)"
proof -
  have "cstr (Ptr b) w = Some a" using assms by (simp add: cstr_Ptr)
  moreover have "store (Ptr b) (length a) (s @ [NUL]) w =
      Some (w\<lparr>heap := (heap w)(b \<mapsto>
        Chars (map Some (a @ (s @ [NUL])) @ drop (length (s @ [NUL])) (Some NUL # r)))\<rparr>)"
    using assms by (intro store_behind) simp_all
  ultimately show ?thesis by (simp add: strcat_def)
qed

lemma strcat_headers_spec:
  "heap w b = Some (str_then a r) \<Longrightarrow> NUL \<notin> set a \<Longrightarrow> c_strings hs \<Longrightarrow>
   length (signed_data hs []) \<le> length r \<Longrightarrow>
   strcat_headers (Ptr b) hs w = Some (w\<lparr>heap := (heap w)(b \<mapsto>
     str_then (a @ signed_data hs []) (drop (length (signed_data hs [])) r))\<rparr>)"
proof (induction hs arbitrary: a r w)
  case Nil
  then have "(heap w)(b \<mapsto> str_then a r) = heap w" by (simp add: fun_upd_idem)
  then have "strcat_headers (Ptr b) [] w = Some (w\<lparr>heap := (heap w)(b \<mapsto>
      str_then (a @ signed_data [] []) (drop (length (signed_data [] [])) r))\<rparr>)"
    by (simp add: signed_data_def)
  then show ?case .
next
  case (Cons h hs)
  let ?l = "length (signed_data hs [])"
  let ?w1 = "w\<lparr>heap := (heap w)(b \<mapsto> str_then (a @ h) (drop (length h) r))\<rparr>"
  let ?w2 = "?w1\<lparr>heap := (heap ?w1)(b \<mapsto> str_then ((a @ h) @ [LF]) (drop (length [LF]) (drop (length h) r)))\<rparr>"
  have len: "length h + Suc ?l \<le> length r" using Cons.prems(4) by (simp add: signed_data_def)
  have "strcat (Ptr b) h w = Some ?w1"
    using Cons.prems len by (intro strcat_spec) simp_all
  moreover have "strcat (Ptr b) [LF] ?w1 = Some ?w2"
    using Cons.prems len by (intro strcat_spec) simp_all
  moreover have "strcat_headers (Ptr b) hs ?w2 = Some (?w2\<lparr>heap := (heap ?w2)(b \<mapsto>
      str_then (((a @ h) @ [LF]) @ signed_data hs []) (drop ?l (drop (length [LF]) (drop (length h) r))))\<rparr>)"
    using Cons.prems len by (intro Cons.IH) simp_all
  ultimately have "strcat_headers (Ptr b) (h # hs) w = Some (w\<lparr>heap := (heap w)(b \<mapsto>
      str_then (a @ signed_data (h # hs) []) (drop (length (signed_data (h # hs) [])) r))\<rparr>)"
    by (simp add: signed_data_def ac_simps)
  then show ?case .
qed

text \<open>The loop that prints the digest fills the static buffer up to its last byte.\<close>

lemma length_show_hex02 [simp]: "length (show_hex02 i) = 2"
  by (simp add: show_hex02_def)

lemma hex_of_drop:
  "i < length d \<Longrightarrow> hex_of (drop i d) = show_hex02 (of_char (d ! i)) @ hex_of (drop (Suc i) d)"
  by (simp add: hex_of_def Cons_nth_drop_Suc [symmetric])

lemma length_hex_of [simp]: "length (hex_of d) = 2 * length d"
  by (induction d) (simp_all add: hex_of_def)

lemma of_char_int_less [simp]: "(of_char c :: int) < 256" "0 \<le> (of_char c :: int)"
proof -
  have "(of_char c :: int) = int (of_char c)" by (simp add: of_nat_of_char)
  then show "(of_char c :: int) < 256" "0 \<le> (of_char c :: int)"
    using nat_of_char_less_256 [of c] by linarith+
qed

lemma NUL_notin_hex_of [simp]: "NUL \<notin> set (hex_of d)"
  by (auto simp: hex_of_def)

lemma hex_loop_spec:
  "length d = 64 \<Longrightarrow> length buf = 129 \<Longrightarrow> i \<le> 64 \<Longrightarrow>
   hex_loop [i..<64] d buf =
     Some (take (2 * i) buf @ hex_of (drop i d) @ (if i < 64 then [NUL] else drop (2 * i) buf))"
proof (induction "64 - i" arbitrary: i buf)
  case 0
  then show ?case by (simp add: hex_of_def)
next
  case (Suc n)
  let ?buf = "take (i * 2) buf @ show_hex02 (of_char (d ! i)) @ [NUL] @ drop (i * 2 + 3) buf"
  have i: "i < 64" using Suc.hyps(2) by simp
  have "hex_loop [Suc i..<64] d ?buf =
    Some (take (2 * Suc i) ?buf @ hex_of (drop (Suc i) d) @
      (if Suc i < 64 then [NUL] else drop (2 * Suc i) ?buf))"
    by (rule Suc.hyps(1)) (use Suc in simp_all)
  moreover have "drop (2 * Suc i) ?buf = [NUL]" if "\<not> Suc i < 64"
    using that i Suc.prems(2) by simp
  ultimately show ?case
    using i Suc.prems by (simp add: upt_conv_Cons hex_of_drop mult.commute)
qed

lemma hmac_sha512_spec:
  assumes "cstr key w = Some k" "cstr message w = Some m" "lib_hmac L k m = Some d"
    and "length d = 64" "length (g_hex_digest w) = 129"
  shows "hmac_sha512 L key message w = Some (hex_of d, w\<lparr>g_hex_digest := hex_of d @ [NUL]\<rparr>)"
  using assms hex_loop_spec [of d "g_hex_digest w" 0]
  by (simp add: hmac_sha512_def del: upt_rec_numeral)

text \<open>The buffer that is signed: sized before, filled by the loops, freed afterwards.\<close>

lemma signed_data_Nil: "signed_data hs body = signed_data hs [] @ body"
  by (simp add: signed_data_def)

lemma length_signed_data:
  "length (signed_data hs body) = sum_list (map (\<lambda>h. length h + 1) hs) + length body"
  by (induction hs) (simp_all add: signed_data_def)

lemma signed_data_no_nul:
  "c_strings hs \<Longrightarrow> NUL \<notin> set body \<Longrightarrow> NUL \<notin> set (signed_data hs body)"
  by (induction hs) (auto simp: signed_data_def)

lemma sign_buffer:
  assumes b: "heap w b = Some (Chars (replicate (Suc (length (signed_data hs bd))) None))"
    and hs: "c_strings hs"
    and body: "(if body \<noteq> NULL then cstr body (w\<lparr>heap := (heap w)(b := None)\<rparr>) else Some []) = Some bd"
    and key: "cstr key (w\<lparr>heap := (heap w)(b := None)\<rparr>) = Some k"
    and d: "lib_hmac L k (signed_data hs bd) = Some d" "length d = 64"
    and buf: "length (g_hex_digest w) = 129"
  shows "do {
      w \<leftarrow> store (Ptr b) 0 [NUL] w;
      w \<leftarrow> strcat_headers (Ptr b) hs w;
      w \<leftarrow> (if body \<noteq> NULL then do { bs \<leftarrow> cstr body w; strcat (Ptr b) bs w } else Some w);
      (hex_digest, w) \<leftarrow> hmac_sha512 L key (Ptr b) w;
      w \<leftarrow> free (Ptr b) w;
      K hex_digest w
    } = K (hex_of d) (w\<lparr>g_hex_digest := hex_of d @ [NUL], heap := (heap w)(b := None)\<rparr>)"
proof -
  let ?n = "length (signed_data hs [])"
  let ?at = "\<lambda>ob. w\<lparr>heap := (heap w)(b \<mapsto> ob)\<rparr>"
  have mono: "cstr q (?at ob) = Some s" if "cstr q (w\<lparr>heap := (heap w)(b := None)\<rparr>) = Some s" for q s ob
    by (rule cstr_mono [OF _ that]) (simp add: map_le_def)
  have bd: "NUL \<notin> set bd" using body by (auto split: if_splits dest: cstr_no_nul)
  have s1: "store (Ptr b) 0 [NUL] w = Some (?at (str_then [] (replicate (?n + length bd) None)))"
    using b by (simp add: store_Ptr put_def length_signed_data)
  have s2: "strcat_headers (Ptr b) hs (?at (str_then [] (replicate (?n + length bd) None))) =
      Some (?at (str_then (signed_data hs []) (replicate (length bd) None)))"
    using strcat_headers_spec [of "?at (str_then [] (replicate (?n + length bd) None))" b "[]"] hs
    by (simp del: replicate.simps)
  have s3: "(if body \<noteq> NULL then do { bs \<leftarrow> cstr body w'; strcat (Ptr b) bs w' } else Some w') =
      Some (?at (str_obj (signed_data hs bd)))"
    if "w' = ?at (str_then (signed_data hs []) (replicate (length bd) None))" for w'
    using that body mono bd strcat_spec [of w' b "signed_data hs []" "replicate (length bd) None" bd]
      signed_data_no_nul [OF hs, of "[]"]
    by (auto simp: signed_data_Nil [of hs bd] split: if_splits)
  have s4: "hmac_sha512 L key (Ptr b) (?at (str_obj (signed_data hs bd))) =
      Some (hex_of d, ?at (str_obj (signed_data hs bd))\<lparr>g_hex_digest := hex_of d @ [NUL]\<rparr>)"
    by (rule hmac_sha512_spec) (use mono key d buf signed_data_no_nul [OF hs bd] in auto)
  have s5: "free (Ptr b) (?at (str_obj (signed_data hs bd))\<lparr>g_hex_digest := hex_of d @ [NUL]\<rparr>) =
      Some (w\<lparr>g_hex_digest := hex_of d @ [NUL], heap := (heap w)(b := None)\<rparr>)"
    by simp
  show ?thesis
    by (simp only: s1 s2 s3 [OF refl] s4 s5 Option.bind.simps prod.case)
qed

text \<open>The header itself is printed into a buffer of its length, and the names are freed.\<close>

lemma format_auth:
  assumes "cstr username w = Some u" "cstr names w = Some n" "NUL \<notin> set h"
  shows "format auth_fmt [AStr username, AStr names, AStr (Lit h)] w =
    Some (''Authorization: hmac username=\"'' @ u @ ''\", algorithm=\"sha512\", headers=\"'' @
      n @ ''\", signature=\"'' @ h @ ''\"'')"
proof -
  have "username \<noteq> NULL" "names \<noteq> NULL" using assms by auto
  with assms show ?thesis by (simp add: auth_fmt_def)
qed

lemma print_auth_header:
  assumes hb: "heap w hb = Some x" and fresh: "heap w (brk w) = None"
    and fmt: "format auth_fmt args w = Some s" and len: "length s < int_max"
  shows "do {
      auth_header_size \<leftarrow> snprintf_len auth_fmt args w;
      if auth_header_size < 0 then do { w \<leftarrow> free (Ptr hb) w; Some (NULL, w) }
      else if auth_header_size = int int_max then None
      else do {
        (auth_header, w) \<leftarrow> malloc (size_t (nat (auth_header_size + 1))) w;
        if auth_header = NULL then do { w \<leftarrow> free (Ptr hb) w; Some (NULL, w) }
        else do {
          (n, w) \<leftarrow> snprintf auth_header (size_t (nat (auth_header_size + 1))) auth_fmt args w;
          if n < 0 then do { w \<leftarrow> free auth_header w; w \<leftarrow> free (Ptr hb) w; Some (NULL, w) }
          else do { w \<leftarrow> free (Ptr hb) w; Some (auth_header, w) }
        }
      }
    } = Some (alloc_str s (w\<lparr>heap := (heap w)(hb := None)\<rparr>))"
proof -
  have small: "size_t (nat (int (length s) + 1)) = length s + 1" "length s + 1 \<le> ptrdiff_max"
    using len by (simp_all add: size_t_small ptrdiff_max_def int_max_def nat_add_distrib)
  let ?w = "w\<lparr>brk := Suc (brk w), heap := (heap w)(brk w \<mapsto> Chars (replicate (length s + 1) None))\<rparr>"
  have "heap w \<subseteq>\<^sub>m heap ?w" using fresh by (simp add: map_le_fresh)
  then have "format auth_fmt args ?w = Some s" using fmt by (rule vformat_mono)
  moreover have "hb \<noteq> brk w" using hb fresh by auto
  ultimately show ?thesis
    using small len hb fmt
    by (simp add: snprintf_len_def malloc_small new_block_def alloc_str_def Let_def snprintf_def
        printed_len_def store_Ptr put_0_replicate fun_upd_twist del: replicate.simps)
qed

text \<open>
  \<^verbatim>\<open>authHeader\<close>: no buffer is left, the two temporary buffers are freed on every path, and the
  result has the documented text.
\<close>

lemma authHeader_spec:
  assumes wf: "world_wf w" and hs: "slist_of headers w = Some hs" "with_colons hs" "c_strings hs"
    and args: "cstr username w = Some u" "cstr key w = Some k"
      "(if body \<noteq> NULL then cstr body w else Some []) = Some bd"
    and d: "lib_hmac L k (signed_data hs bd) = Some d" "length d = 64"
    and len: "length (signed_data hs bd) < ptrdiff_max" "length (auth_text u hs d) < int_max"
  shows "\<exists>p w'. authHeader L headers username key body w = Some (p, w') \<and>
    fresh_str (auth_text u hs d) w p w' \<and> (p = NULL \<longrightarrow> (\<exists>n. \<not> alloc_ok w n)) \<and>
    w' = w\<lparr>heap := heap w', brk := brk w', g_hex_digest := g_hex_digest w'\<rparr>"
proof -
  let ?names = "lower (join_names hs)" and ?b0 = "brk w" and ?b1 = "Suc (brk w)"
  let ?n = "length (signed_data hs bd)"
  have names_len: "length (join_names hs) < int_max"
    using len(2) by (simp add: auth_text_def)
  have join: "joinHeaderNames headers w = Some (alloc_str ?names w)"
    by (rule joinHeaderNames_eq) (use hs names_len in simp_all)
  have size: "size_t (Suc ?n) = Suc ?n" "Suc ?n \<le> ptrdiff_max"
    using len(1) by (simp_all add: size_t_small)
  show ?thesis
  proof (cases "alloc_ok w ?b0")
    case False
    with wf show ?thesis
      by (auto simp: authHeader_def join alloc_str_def fresh_str_def world_wf_def)
  next
    case ok0: True
    let ?w1 = "w\<lparr>brk := ?b1, heap := (heap w)(?b0 \<mapsto> str_obj ?names)\<rparr>"
    have le1: "heap w \<subseteq>\<^sub>m heap ?w1" using wf by (simp add: map_le_fresh)
    have b1: "heap w ?b1 = None" using wf by (simp add: world_wf_def)
    have hs1: "slist_of headers ?w1 = Some hs" using le1 hs(1) by (rule slist_of_mono)
    have body1: "(if body \<noteq> NULL then map_option length (cstr body ?w1) else Some 0) = Some (length bd)"
      using args(3) cstr_mono [OF le1] by (auto split: if_splits)
    have n: "1 + length bd + sum_list (map (\<lambda>h. length h + 1) hs) = Suc ?n"
      by (simp add: length_signed_data)
    show ?thesis
    proof (cases "alloc_ok w ?b1")
      case False
      with ok0 wf size body1 n hs1 show ?thesis
        by (auto simp: authHeader_def join alloc_str_def malloc_small new_block_def fresh_str_def
            world_wf_def Let_def fun_upd_idem simp del: replicate.simps
            intro!: exI [of "\<lambda>n. \<not> alloc_ok w n" "Suc (brk w)"])
    next
      case ok1: True
      let ?w2 = "?w1\<lparr>brk := Suc ?b1, heap := (heap ?w1)(?b1 \<mapsto> Chars (replicate (Suc ?n) None))\<rparr>"
      let ?w3 = "?w2\<lparr>g_hex_digest := hex_of d @ [NUL], heap := (heap ?w2)(?b1 := None)\<rparr>"
      let ?s = "auth_text u hs d" and ?args = "[AStr username, AStr (Ptr ?b0), AStr (Lit (hex_of d))]"
      have heaps: "heap ?w3 = heap ?w1" using b1 by (simp add: fun_upd_idem)
      have join2: "joinHeaderNames headers w = Some (Ptr ?b0, ?w1)"
        using join ok0 by (simp add: alloc_str_def)
      have malloc2: "malloc (size_t (1 + length bd + sum_list (map (\<lambda>h. length h + 1) hs))) ?w1 =
          Some (Ptr ?b1, ?w2)"
        unfolding n size(1) malloc_small [OF size(2)]
        using ok1 by (simp add: new_block_def Let_def del: replicate.simps)
      have le3: "heap w \<subseteq>\<^sub>m heap ?w3" using le1 heaps by (simp only:)
      have le2: "heap ?w1 \<subseteq>\<^sub>m heap (?w2\<lparr>heap := (heap ?w2)(?b1 := None)\<rparr>)"
        using heaps by simp
      note le = map_le_trans [OF le1 le2]
      have sign: "do {
          w \<leftarrow> store (Ptr ?b1) 0 [NUL] ?w2;
          w \<leftarrow> strcat_headers (Ptr ?b1) hs w;
          w \<leftarrow> (if body \<noteq> NULL then do { bs \<leftarrow> cstr body w; strcat (Ptr ?b1) bs w } else Some w);
          (hex_digest, w) \<leftarrow> hmac_sha512 L key (Ptr ?b1) w;
          w \<leftarrow> free (Ptr ?b1) w;
          K hex_digest w
        } = K (hex_of d) ?w3" for K :: "string \<Rightarrow> 'a world \<Rightarrow> (ptr, 'a) res"
        by (rule sign_buffer)
          (use hs(3) args cstr_mono [OF le] d world_wf_digest [OF wf] in \<open>auto split: if_splits\<close>)
      have "NUL \<notin> set ?names" using join_names_no_nul [OF hs(3)] by (rule lower_no_nul)
      then have "cstr (Ptr ?b0) ?w3 = Some ?names" by (intro cstr_str_obj) simp_all
      then have fmt: "format auth_fmt ?args ?w3 = Some ?s"
        using format_auth [OF cstr_mono [OF le3 args(1)]] by (simp add: auth_text_def)
      have b2: "heap ?w3 (brk ?w3) = None" using wf by (simp add: world_wf_def)
      have "authHeader L headers username key body w =
          Some (alloc_str ?s (?w3\<lparr>heap := (heap ?w3)(?b0 := None)\<rparr>))"
        unfolding authHeader_def
        by (simp only: join2 Option.bind.simps prod.case ptr.distinct if_False body1 hs1 Let_def
            malloc2 sign simp_thms)
          (rule print_auth_header [OF _ b2 fmt len(2), where x = "str_obj ?names"], simp)
      moreover have "(heap ?w3)(?b0 := None) = heap w"
        using heaps wf by (simp only:) (simp add: fun_upd_idem)
      ultimately have "authHeader L headers username key body w =
          Some (alloc_str ?s (w\<lparr>brk := Suc ?b1, g_hex_digest := hex_of d @ [NUL]\<rparr>))"
        by simp
      with wf show ?thesis
        by (cases "alloc_ok w (Suc ?b1)")
          (auto simp: alloc_str_def fresh_str_def world_wf_def d)
    qed
  qed
qed

section \<open>The contract of the header routines\<close>

text \<open>
  What a caller of \<^verbatim>\<open>authHeader\<close> provides: readable strings, headers with a name, a digest from
  the library, lengths that fit. Freshness, frame and clean-up then come from the contract of the
  routines that build strings.
\<close>

definition auth_pre ::
  "'e lib \<Rightarrow> ptr \<Rightarrow> ptr \<Rightarrow> ptr \<Rightarrow> ptr \<Rightarrow> string list \<Rightarrow> string \<Rightarrow> string \<Rightarrow> string \<Rightarrow> string \<Rightarrow>
   'e world \<Rightarrow> bool" where
  "auth_pre L headers username key body hs u k bd d w \<longleftrightarrow>
     slist_of headers w = Some hs \<and> with_colons hs \<and> c_strings hs \<and>
     cstr username w = Some u \<and> cstr key w = Some k \<and>
     (if body \<noteq> NULL then cstr body w else Some []) = Some bd \<and>
     lib_hmac L k (signed_data hs bd) = Some d \<and> length d = 64 \<and>
     length (signed_data hs bd) < ptrdiff_max \<and> length (auth_text u hs d) < int_max"

lemma auth_text_no_nul:
  "NUL \<notin> set u \<Longrightarrow> c_strings hs \<Longrightarrow> NUL \<notin> set (auth_text u hs d)"
  using lower_no_nul [OF join_names_no_nul] by (simp add: auth_text_def)

interpretation auth: string_builder
  "authHeader L headers username key body"
  "auth_pre L headers username key body hs u k bd d"
  "\<lambda>_. auth_text u hs d"
  for L headers username key body hs u k bd d
proof unfold_locales
  fix w :: "'a world"
  assume pre: "auth_pre L headers username key body hs u k bd d w"
  then show "NUL \<notin> set (auth_text u hs d)"
    by (intro auth_text_no_nul) (auto simp: auth_pre_def dest: cstr_no_nul)
  assume "world_wf w"
  with pre show "\<exists>p w'. authHeader L headers username key body w = Some (p, w') \<and>
      fresh_str (auth_text u hs d) w p w'"
    using authHeader_spec [of w headers hs username u key k body bd L d]
    unfolding auth_pre_def by blast
next
  fix w w' :: "'a world"
  assume "world_wf w" "auth_pre L headers username key body hs u k bd d w"
    "authHeader L headers username key body w = Some (NULL, w')"
  then show "\<exists>n. \<not> alloc_ok w n"
    using authHeader_spec [of w headers hs username u key k body bd L d]
    unfolding auth_pre_def by fastforce
qed

interpretation names: string_builder
  "joinHeaderNames p"
  "\<lambda>w. slist_of p w = Some hs \<and> with_colons hs \<and> c_strings hs \<and> length (join_names hs) < int_max"
  "\<lambda>_. lower (join_names hs)"
  for p hs
  by unfold_locales
    (auto simp add: joinHeaderNames_eq alloc_str_ex join_names_no_nul lower_no_nul
      simp del: set_map list.set_map dest: alloc_str_NULL)

text \<open>Reading a hexadecimal text back.\<close>

fun unhex :: "string \<Rightarrow> string" where
  "unhex (a # b # s) = char_of (digit_val a * 16 + digit_val b) # unhex s"
| "unhex _ = []"

lemma unhex_hex_of [simp]: "unhex (hex_of d) = d"
proof (induction d)
  case (Cons c d)
  have c: "nat (of_char c :: int) = of_char c" by (metis nat_int of_nat_of_char)
  have "(of_char c :: nat) div 16 < 16" by (simp add: less_mult_imp_div_less)
  then show ?case
    using Cons by (simp add: hex_of_def show_hex02_def c nat_div_distrib nat_mod_distrib)
qed (simp add: hex_of_def)

end
