(* ===== verification/Http_Response.thy ===== *)
theory Http_Response
  imports Http_Auth
begin

text \<open>
  The response structure of \<^verbatim>\<open>src/https-client.c\<close>: \<^verbatim>\<open>create_response\<close>, \<^verbatim>\<open>free_response\<close>, the two
  callbacks libcurl calls during a transfer, and \<^verbatim>\<open>get_content_type\<close>. The invariant \<open>resp_inv\<close> says
  which text a response holds and which blocks it owns; the callbacks preserve it and freeing the
  response gives the owned blocks back.
\<close>

section \<open>Operations\<close>

definition create_response :: "'e world \<Rightarrow> (ptr, 'e) res" where
  "create_response w = do {
     (resp, w) \<leftarrow> malloc_struct w;
     if resp = NULL then Some (NULL, w)
     else do {
       w \<leftarrow> assign resp (Response \<lparr>resp_body = NULL, resp_body_len = 0,
                                  resp_headers = NULL, resp_status = 0\<rparr>) w;
       Some (resp, w)
     }
   }"

definition free_response :: "ptr \<Rightarrow> 'e world \<Rightarrow> 'e world option" where
  "free_response response w =
     (if response = NULL then Some w
      else do {
        r \<leftarrow> response_of response w;
        w \<leftarrow> (if resp_body r \<noteq> NULL then free (resp_body r) w else Some w);
        w \<leftarrow> curl_slist_free_all (resp_headers r) w;
        free response w
      })"

text \<open>
  The callbacks get a buffer that is not terminated, and the size of its contents as a product.
  Looking at bytes behind the end of the buffer is undefined.
\<close>

definition header_callback ::
  "'e lib \<Rightarrow> string \<Rightarrow> nat \<Rightarrow> nat \<Rightarrow> ptr \<Rightarrow> 'e world \<Rightarrow> (nat, 'e) res" where
  "header_callback L buffer sz nitems resp w =
     (let len = size_t (sz * nitems) in
      if length buffer < len then None
      else if CHR '':'' \<notin> set (take len buffer) then Some (len, w)
      else do {
        (header, w) \<leftarrow> malloc (size_t (len + 1)) w;
        if header = NULL then Some (0, w)
        else do {
          w \<leftarrow> store header 0 (take len buffer) w;
          w \<leftarrow> store header len [NUL] w;
          r \<leftarrow> response_of resp w;
          (headers, w) \<leftarrow> curl_slist_append L (resp_headers r) header w;
          w \<leftarrow> assign resp (Response (r\<lparr>resp_headers := headers\<rparr>)) w;
          w \<leftarrow> free header w;
          Some (len, w)
        }
      })"

definition write_callback ::
  "string \<Rightarrow> nat \<Rightarrow> nat \<Rightarrow> ptr \<Rightarrow> 'e world \<Rightarrow> (nat, 'e) res" where
  "write_callback data sz nmemb resp w =
     (let len = size_t (sz * nmemb) in
      if length data < len then None
      else do {
        r \<leftarrow> response_of resp w;
        (body, w) \<leftarrow> (if resp_body r = NULL then malloc (size_t (len + 2)) w
                      else realloc (resp_body r) (size_t (resp_body_len r + len + 2)) w);
        w \<leftarrow> assign resp (Response (r\<lparr>resp_body := body\<rparr>)) w;
        if body = NULL then Some (0, w)
        else do {
          w \<leftarrow> store body (resp_body_len r) (take len data) w;
          let body_len = size_t (resp_body_len r + len);
          w \<leftarrow> assign resp (Response (r\<lparr>resp_body := body, resp_body_len := body_len\<rparr>)) w;
          w \<leftarrow> store body body_len [LF] w;
          w \<leftarrow> store body (size_t (body_len + 1)) [NUL] w;
          Some (len, w)
        }
      })"

text \<open>
  \<^verbatim>\<open>get_content_type\<close>: the loop over the headers. \<^verbatim>\<open>strcasestr (data, needle) == data\<close> says that the
  header starts with the needle, letters of either case. The length is a \<^verbatim>\<open>size_t\<close>, and \<^verbatim>\<open>memcpy\<close>
  may read up to the terminator of the header.
\<close>

definition content_type_needle :: string where
  "content_type_needle = ''content-type''"

fun content_type_loop :: "string list \<Rightarrow> 'e world \<Rightarrow> (ptr, 'e) res" where
  "content_type_loop [] w = Some (NULL, w)"
| "content_type_loop (h # hs) w =
     (if lower (take (length content_type_needle) h) = content_type_needle then do {
        let source = dropWhile (\<lambda>c. c = CHR '':'' \<or> c = CHR '' '') (drop (length content_type_needle) h);
        let len = size_t (length source + 18446744073709551614);
        (content_type, w) \<leftarrow> malloc (size_t (len + 1)) w;
        if content_type = NULL then Some (NULL, w)
        else if length source + 1 < len then None
        else do {
          w \<leftarrow> store content_type 0 (take len (source @ [NUL])) w;
          w \<leftarrow> store content_type len [NUL] w;
          w \<leftarrow> strToLower content_type w;
          Some (content_type, w)
        }
      }
      else content_type_loop hs w)"

definition get_content_type :: "ptr \<Rightarrow> 'e world \<Rightarrow> (ptr, 'e) res" where
  "get_content_type response w = do {
     r \<leftarrow> response_of response w;
     hs \<leftarrow> slist_of (resp_headers r) w;
     content_type_loop hs w
   }"

section \<open>A transfer\<close>

text \<open>
  libcurl hands the data to the callbacks one after the other. It stops when a callback returns
  another number than the length it got, and reports \<^verbatim>\<open>CURLE_WRITE_ERROR\<close> (23) then.
\<close>

fun run_callbacks ::
  "'e lib \<Rightarrow> callback_data list \<Rightarrow> ptr \<Rightarrow> 'e world \<Rightarrow> (bool, 'e) res" where
  "run_callbacks L [] resp w = Some (True, w)"
| "run_callbacks L (Header_data s # ds) resp w = do {
     (n, w) \<leftarrow> header_callback L s 1 (length s) resp w;
     if n = length s then run_callbacks L ds resp w else Some (False, w)
   }"
| "run_callbacks L (Body_data s # ds) resp w = do {
     (n, w) \<leftarrow> write_callback s 1 (length s) resp w;
     if n = length s then run_callbacks L ds resp w else Some (False, w)
   }"

text \<open>The status of \<^verbatim>\<open>curl_easy_perform\<close> and the response code of \<^verbatim>\<open>curl_easy_getinfo\<close>.\<close>

definition curl_easy_perform ::
  "'e lib \<Rightarrow> easy \<Rightarrow> ptr \<Rightarrow> 'e world \<Rightarrow> (int \<times> int, 'e) res" where
  "curl_easy_perform L e resp w = do {
     let (t, x) = lib_perform L e (ext w);
     let w = emit (Perform e t) (w\<lparr>ext := x\<rparr>);
     (all, w) \<leftarrow> run_callbacks L (tr_data t) resp w;
     Some ((if all then tr_status t else 23, tr_response_code t), w)
   }"

section \<open>The invariant of a response\<close>

text \<open>
  \<open>body_rep\<close>: what the body pointer and its length say when the chunks received so far make up a
  text (\<open>None\<close>: no chunk yet). The buffer holds the text, a line feed and the terminator.
\<close>

fun body_rep :: "response \<Rightarrow> string option \<Rightarrow> 'e world \<Rightarrow> bool" where
  "body_rep r None w \<longleftrightarrow> resp_body r = NULL \<and> resp_body_len r = 0"
| "body_rep r (Some s) w \<longleftrightarrow>
     (\<exists>b. resp_body r = Ptr b \<and> heap w b = Some (Chars (map Some (s @ [LF, NUL]))) \<and>
          resp_body_len r = length s)"

text \<open>
  \<open>resp_inv h p body hs w\<close>: the response at \<open>p\<close> holds the text \<open>body\<close> and the headers \<open>hs\<close>, and the
  heap is \<open>h\<close> with the blocks of the response added at addresses that are free in \<open>h\<close>.
\<close>

definition resp_inv ::
  "(nat \<Rightarrow> obj option) \<Rightarrow> nat \<Rightarrow> string option \<Rightarrow> string list \<Rightarrow> 'e world \<Rightarrow> bool" where
  "resp_inv h p body hs w \<longleftrightarrow>
     world_wf w \<and>
     (\<exists>r. heap w p = Some (Response r) \<and> body_rep r body w \<and>
          slist_of (resp_headers r) w = Some hs \<and>
          (\<forall>b. if b \<in> {p} \<union> blocks_of (resp_body r) \<union> blocks_of (resp_headers r)
               then h b = None else heap w b = h b))"

section \<open>The callbacks keep the invariant\<close>

lemma size_t_1 [simp]: "n \<le> ptrdiff_max \<Longrightarrow> size_t (1 * n) = n" "n \<le> ptrdiff_max \<Longrightarrow> size_t n = n"
  by (simp_all add: size_t_small)

text \<open>The three writes that put a chunk behind the text so far.\<close>

lemma append_chunk:
  assumes b: "heap w b = Some (Chars (map Some a @ r))" and r: "length r = length s + 2"
    and p: "heap w p = Some x" "p \<noteq> b"
  shows "do {
      w \<leftarrow> store (Ptr b) (length a) s w;
      w \<leftarrow> assign (Ptr p) ob w;
      w \<leftarrow> store (Ptr b) (length a + length s) [LF] w;
      w \<leftarrow> store (Ptr b) (length a + length s + 1) [NUL] w;
      K w
    } = K (w\<lparr>heap := (heap w)(p \<mapsto> ob, b \<mapsto> Chars (map Some (a @ s @ [LF, NUL])))\<rparr>)"
proof -
  let ?w1 = "w\<lparr>heap := (heap w)(b \<mapsto> Chars (map Some (a @ s) @ drop (length s) r))\<rparr>"
  let ?w2 = "?w1\<lparr>heap := (heap ?w1)(p \<mapsto> ob)\<rparr>"
  let ?w3 = "?w2\<lparr>heap := (heap ?w2)(b \<mapsto> Chars (map Some ((a @ s) @ [LF]) @ drop (length [LF]) (drop (length s) r)))\<rparr>"
  let ?w4 = "?w3\<lparr>heap := (heap ?w3)(b \<mapsto> Chars (map Some (((a @ s) @ [LF]) @ [NUL]) @
      drop (length [NUL]) (drop (length [LF]) (drop (length s) r))))\<rparr>"
  have s1: "store (Ptr b) (length a) s w = Some ?w1"
    using b r by (intro store_behind) simp_all
  have s2: "assign (Ptr p) ob ?w1 = Some ?w2" using p by simp
  have "store (Ptr b) (length (a @ s)) [LF] ?w2 = Some ?w3"
    using p r by (intro store_behind) simp_all
  then have s3: "store (Ptr b) (length a + length s) [LF] ?w2 = Some ?w3" by simp
  have "store (Ptr b) (length ((a @ s) @ [LF])) [NUL] ?w3 = Some ?w4"
    using r by (intro store_behind) simp_all
  then have s4: "store (Ptr b) (length a + length s + 1) [NUL] ?w3 = Some ?w4" by simp
  have "?w4 = w\<lparr>heap := (heap w)(p \<mapsto> ob, b \<mapsto> Chars (map Some (a @ s @ [LF, NUL])))\<rparr>"
    using r p(2) by (simp add: fun_upd_twist)
  then show ?thesis by (simp only: s1 s2 s3 s4 Option.bind.simps)
qed

lemma resp_invE:
  assumes "resp_inv h p body hs w"
  obtains r where "world_wf w" "heap w p = Some (Response r)" "body_rep r body w"
    "slist_of (resp_headers r) w = Some hs" "h p = None"
    "\<And>b. b \<in> blocks_of (resp_body r) \<union> blocks_of (resp_headers r) \<Longrightarrow> h b = None"
    "\<And>b. b \<notin> {p} \<union> blocks_of (resp_body r) \<union> blocks_of (resp_headers r) \<Longrightarrow> heap w b = h b"
proof -
  from assms obtain r where wf: "world_wf w" and r: "heap w p = Some (Response r)" "body_rep r body w"
      "slist_of (resp_headers r) w = Some hs"
    and rest: "\<And>b. if b \<in> {p} \<union> blocks_of (resp_body r) \<union> blocks_of (resp_headers r)
       then h b = None else heap w b = h b"
    unfolding resp_inv_def by blast
  show ?thesis
    by (rule that [OF wf r]) (use rest in \<open>force split: if_splits\<close>)+
qed

fun body_text :: "string option \<Rightarrow> string" where
  "body_text None = []"
| "body_text (Some s) = s"

lemma slist_of_blocks:
  "slist_of q w = Some hs \<Longrightarrow> b \<in> blocks_of q \<Longrightarrow> heap w b = Some (Slist hs) \<and> hs \<noteq> []"
  by (erule slist_of_cases) auto

lemma body_rep_blocks:
  "body_rep r body w \<Longrightarrow> b \<in> blocks_of (resp_body r) \<Longrightarrow>
   heap w b = Some (Chars (map Some (body_text body @ [LF, NUL])))"
  by (cases body) auto

text \<open>A new body block at a fresh address takes the place of the old one.\<close>

lemma resp_inv_new_body:
  assumes inv: "resp_inv h p body hs w" and r: "heap w p = Some (Response r)"
    and w': "brk w' = Suc (brk w)" "g_hex_digest w' = g_hex_digest w"
      "heap w' = (\<lambda>x. if x \<in> blocks_of (resp_body r) then None else heap w x)
        (p \<mapsto> Response (r\<lparr>resp_body := Ptr (brk w), resp_body_len := length t\<rparr>),
         brk w \<mapsto> Chars (map Some (t @ [LF, NUL])))"
  shows "resp_inv h p (Some t) hs w'"
proof -
  from inv r have wf: "world_wf w" and body: "body_rep r body w"
    and hs: "slist_of (resp_headers r) w = Some hs" and hp: "h p = None"
    and own: "\<And>b. b \<in> blocks_of (resp_body r) \<union> blocks_of (resp_headers r) \<Longrightarrow> h b = None"
    and rest: "\<And>b. b \<notin> {p} \<union> blocks_of (resp_body r) \<union> blocks_of (resp_headers r) \<Longrightarrow> heap w b = h b"
    by (auto elim!: resp_invE)
  have fresh: "heap w (brk w) = None" using wf by simp
  have p: "p \<noteq> brk w" "p \<notin> blocks_of (resp_headers r)" "p \<notin> blocks_of (resp_body r)"
    using r fresh slist_of_blocks [OF hs] body_rep_blocks [OF body] by auto
  have c: "brk w \<notin> blocks_of (resp_headers r)" "brk w \<notin> blocks_of (resp_body r)"
    using fresh slist_of_blocks [OF hs] body_rep_blocks [OF body] by auto
  have cb: "b \<notin> blocks_of (resp_body r)" if "b \<in> blocks_of (resp_headers r)" for b
    using slist_of_blocks [OF hs that] body_rep_blocks [OF body, of b] by auto
  have "h (brk w) = None" using rest [of "brk w"] fresh p(1) c by simp
  moreover have "slist_of (resp_headers r) w' = Some hs"
    using hs p c cb
    by (cases "resp_headers r") (auto simp: slist_of_def deref_def w'(3))
  ultimately show ?thesis
    using wf hp own rest p c cb world_wf_less [OF wf r]
    by (auto simp: resp_inv_def world_wf_def w')
qed

lemma write_callback_inv:
  assumes inv: "resp_inv h p body hs w" and ok: "alloc_ok w (brk w)"
    and len: "length (body_text body) + length s + 2 \<le> ptrdiff_max"
  shows "\<exists>w'. write_callback s 1 (length s) (Ptr p) w = Some (length s, w') \<and>
    resp_inv h p (Some (body_text body @ s)) hs w' \<and> heap_only w w'"
proof -
  let ?t = "body_text body @ s" and ?b = "brk w"
  from inv obtain r where wf: "world_wf w" and r: "heap w p = Some (Response r)"
    and body: "body_rep r body w" by (auto elim!: resp_invE)
  let ?rest = "\<lambda>x. if x \<in> blocks_of (resp_body r) then None else heap w x"
  let ?r' = "r\<lparr>resp_body := Ptr ?b, resp_body_len := length ?t\<rparr>"
  let ?w' = "w\<lparr>brk := Suc ?b, heap := ?rest(p \<mapsto> Response ?r', ?b \<mapsto> Chars (map Some (?t @ [LF, NUL])))\<rparr>"
  have p: "p \<noteq> ?b" using r wf by auto
  have fresh: "?b \<notin> blocks_of (resp_body r)" and pb: "p \<notin> blocks_of (resp_body r)"
    using wf r body_rep_blocks [OF body, of ?b] body_rep_blocks [OF body, of p] by auto
  have n: "resp_body_len r = length (body_text body)" using body by (cases body) auto
  define cs where "cs = (case body of None \<Rightarrow> replicate (length s + 2) None
    | Some a \<Rightarrow> map Some (a @ [LF, NUL]) @ replicate (length s) None)"
  let ?w1 = "w\<lparr>brk := Suc ?b, heap := ?rest(?b \<mapsto> Chars cs)\<rparr>"
  have alloc: "(if resp_body r = NULL then malloc (size_t (length s + 2)) w
      else realloc (resp_body r) (size_t (resp_body_len r + length s + 2)) w) = Some (Ptr ?b, ?w1)"
  proof (cases body)
    case None
    then show ?thesis
      using body ok len by (simp add: cs_def malloc_small new_block_def del: replicate.simps)
  next
    case (Some a)
    then obtain c where c: "resp_body r = Ptr c" "heap w c = Some (Chars (map Some (a @ [LF, NUL])))"
      using body by auto
    let ?n = "length a + length s + 2"
    have "size_t ?n = ?n" "?n \<le> ptrdiff_max" "c \<noteq> ?b" using len Some c wf by auto
    moreover have "?n - (length a + 2) = length s" by simp
    ultimately have "realloc (Ptr c) (size_t ?n) w =
        Some (Ptr ?b, w\<lparr>brk := Suc ?b, heap := (heap w)(?b \<mapsto> Chars cs, c := None)\<rparr>)"
      using c ok Some
      by (simp add: realloc_def malloc_small new_block_def cs_def del: replicate.simps)
    moreover have "(heap w)(?b \<mapsto> Chars cs, c := None) = ?rest(?b \<mapsto> Chars cs)"
      using c \<open>c \<noteq> ?b\<close> by (auto simp: fun_eq_iff)
    ultimately show ?thesis using c(1) n Some by simp
  qed
  obtain q where cs: "cs = map Some (body_text body) @ q" "length q = length s + 2"
    by (cases body) (auto simp: cs_def)
  let ?w2 = "?w1\<lparr>heap := (heap ?w1)(p \<mapsto> Response (r\<lparr>resp_body := Ptr ?b\<rparr>))\<rparr>"
  have w2: "heap ?w2 ?b = Some (Chars (map Some (body_text body) @ q))"
      "heap ?w2 p = Some (Response (r\<lparr>resp_body := Ptr ?b\<rparr>))"
    using p cs(1) by simp_all
  have chunk: "do {
      w \<leftarrow> store (Ptr ?b) (length (body_text body)) s ?w2;
      w \<leftarrow> assign (Ptr p) (Response ?r') w;
      w \<leftarrow> store (Ptr ?b) (length (body_text body) + length s) [LF] w;
      w \<leftarrow> store (Ptr ?b) (length (body_text body) + length s + 1) [NUL] w;
      Some (length s, w)
    } = Some (length s, ?w')"
    unfolding append_chunk [OF w2(1) cs(2) w2(2) p] using p by (simp add: fun_upd_twist)
  have sizes: "size_t (1 * length s) = length s"
      "size_t (length (body_text body) + length s) = length (body_text body) + length s"
      "size_t (length (body_text body) + length s + 1) = length (body_text body) + length s + 1"
    using len by simp_all
  have resp: "response_of (Ptr p) w = Some r" using r by (simp add: response_of_def deref_def)
  have asg: "assign (Ptr p) (Response (r\<lparr>resp_body := Ptr ?b\<rparr>)) ?w1 = Some ?w2"
    using r p pb by simp
  have "write_callback s 1 (length s) (Ptr p) w = Some (length s, ?w')"
    using chunk
    by (simp only: write_callback_def sizes resp alloc [unfolded n] asg n Let_def Option.bind.simps prod.case
        ptr.distinct if_False take_all order_refl less_irrefl length_append)
  moreover have "resp_inv h p (Some ?t) hs ?w'"
    using inv r by (rule resp_inv_new_body) simp_all
  moreover have "heap_only w ?w'" by (simp add: heap_only_def)
  ultimately show ?thesis by blast
qed

text \<open>
  A header line is kept when it has a colon; the copy ends at a zero byte, if the line has one.
\<close>

definition kept_headers :: "string \<Rightarrow> string list" where
  "kept_headers s = (if CHR '':'' \<in> set s then [takeWhile (\<lambda>c. c \<noteq> NUL) s] else [])"

text \<open>A terminated copy in a buffer of its size.\<close>

lemma fill_string:
  assumes "heap w b = Some (Chars (replicate (length s + 1) None))"
  shows "do { w \<leftarrow> store (Ptr b) 0 s w; w \<leftarrow> store (Ptr b) (length s) [NUL] w; K w } =
    K (w\<lparr>heap := (heap w)(b \<mapsto> str_obj s)\<rparr>)"
proof -
  let ?w1 = "w\<lparr>heap := (heap w)(b \<mapsto> Chars (map Some ([] @ s) @ [None]))\<rparr>"
  have "drop (length s) (replicate (length s + 1) None) = [None :: cell]"
    by (simp only: drop_replicate) simp
  then have "store (Ptr b) (length ([] :: string)) s w = Some ?w1"
    using store_behind [of w b "[]" "replicate (length s + 1) None" s] assms
    by (simp del: replicate.simps)
  then have s1: "store (Ptr b) 0 s w = Some ?w1" by simp
  have s2: "store (Ptr b) (length s) [NUL] ?w1 = Some (w\<lparr>heap := (heap w)(b \<mapsto> str_obj s)\<rparr>)"
    using store_behind [of ?w1 b s "[None]" "[NUL]"] by simp
  show ?thesis by (simp only: s1 s2 Option.bind.simps)
qed

lemma header_callback_inv:
  assumes inv: "resp_inv h p body hs w" and ok: "memory_ok L w" and len: "length s < ptrdiff_max"
  shows "\<exists>w'. header_callback L s 1 (length s) (Ptr p) w = Some (length s, w') \<and>
    resp_inv h p body (hs @ kept_headers s) w' \<and> heap_only w w'"
proof (cases "CHR '':'' \<in> set s")
  case False
  with inv len show ?thesis
    by (intro exI [of _ w]) (simp add: header_callback_def kept_headers_def)
next
  case True
  let ?b = "brk w" and ?cut = "takeWhile (\<lambda>c. c \<noteq> NUL) s"
  from inv obtain r where wf: "world_wf w" and r: "heap w p = Some (Response r)"
    and body: "body_rep r body w" and hs: "slist_of (resp_headers r) w = Some hs"
    by (auto elim!: resp_invE)
  define c where "c = (case resp_headers r of Ptr c \<Rightarrow> c | _ \<Rightarrow> Suc ?b)"
  let ?w1 = "w\<lparr>brk := Suc ?b, heap := (heap w)(?b \<mapsto> str_obj s)\<rparr>"
  let ?r' = "r\<lparr>resp_headers := Ptr c\<rparr>"
  let ?w' = "w\<lparr>brk := Suc (Suc ?b), heap := (heap w)(p \<mapsto> Response ?r', c \<mapsto> Slist (hs @ [?cut]))\<rparr>"
  have fresh: "heap w ?b = None" "heap w (Suc ?b) = None" using wf by (simp_all add: world_wf_def)
  have hp: "h p = None" and own: "\<And>b. b \<in> blocks_of (resp_body r) \<union> blocks_of (resp_headers r) \<Longrightarrow> h b = None"
    and rest: "\<And>b. b \<notin> {p} \<union> blocks_of (resp_body r) \<union> blocks_of (resp_headers r) \<Longrightarrow> heap w b = h b"
    using inv r by (auto elim!: resp_invE)
  have cc: "c \<noteq> p \<and> c \<noteq> ?b \<and> c \<notin> blocks_of (resp_body r) \<and> c \<le> Suc ?b \<and>
      blocks_of (resp_headers r) \<subseteq> {c} \<and> h c = None"
    using hs
  proof (cases rule: slist_of_cases)
    case 1
    moreover have "Suc ?b \<notin> blocks_of (resp_body r)" and "Suc ?b \<noteq> p"
      using body_rep_blocks [OF body, of "Suc ?b"] fresh r by auto
    ultimately show ?thesis
      using rest [of "Suc ?b"] fresh by (simp add: c_def)
  next
    case (2 d)
    moreover have "d \<notin> blocks_of (resp_body r)" and "d \<noteq> p" and "d < ?b"
      using body_rep_blocks [OF body, of d] 2 r world_wf_less [OF wf 2(2)] by auto
    ultimately show ?thesis
      using own [of d] by (simp add: c_def)
  qed
  then have cs: "c \<noteq> p" "c \<noteq> ?b" "c \<notin> blocks_of (resp_body r)" "c \<le> Suc ?b"
    "blocks_of (resp_headers r) \<subseteq> {c}" "h c = None" by blast+
  have pb: "p \<noteq> ?b" "p < ?b" using fresh r world_wf_less [OF wf r] by auto
  have sizes: "size_t (1 * length s) = length s" "size_t (length s + 1) = length s + 1"
      "length s + 1 \<le> ptrdiff_max" using len by simp_all
  let ?w0 = "w\<lparr>brk := Suc ?b, heap := (heap w)(?b \<mapsto> Chars (replicate (length s + 1) None))\<rparr>"
  have alloc: "malloc (length s + 1) w = Some (Ptr ?b, ?w0)"
    using ok sizes(3) by (simp add: malloc_small new_block_def memory_ok_def del: replicate.simps)
  have fill: "do { w \<leftarrow> store (Ptr ?b) 0 s ?w0; w \<leftarrow> store (Ptr ?b) (length s) [NUL] w; K w } = K ?w1"
    for K :: "'a world \<Rightarrow> (nat, 'a) res"
    by (subst fill_string) simp_all
  have resp: "response_of (Ptr p) ?w1 = Some r"
    using r pb by (simp add: response_of_def deref_def)
  have le: "heap w \<subseteq>\<^sub>m heap ?w1" using fresh by (simp add: map_le_fresh)
  let ?w2 = "?w1\<lparr>brk := Suc (brk ?w1), heap := (heap ?w1)(c \<mapsto> Slist (hs @ [?cut]))\<rparr>"
  have app: "curl_slist_append L (resp_headers r) (Ptr ?b) ?w1 = Some (Ptr c, ?w2)"
    by (rule curl_slist_append_ok)
      (use ok slist_of_mono [OF le hs] in
        \<open>simp_all add: memory_ok_def cstr_Ptr scan_cut c_def split: ptr.split\<close>)
  have fin: "do { w \<leftarrow> assign (Ptr p) (Response ?r') ?w2; w \<leftarrow> free (Ptr ?b) w; Some (length s, w) } =
      Some (length s, ?w')"
    using r pb cs(1,2) fresh by (auto simp: fun_eq_iff)
  have step: "header_callback L s 1 (length s) (Ptr p) w = Some (length s, ?w')"
    by (simp only: header_callback_def sizes(1,2) Let_def take_all order_refl less_irrefl if_False
          True simp_thms,
        simp only: alloc Option.bind.simps prod.case ptr.distinct if_False,
        simp only: fill, simp only: resp app Option.bind.simps prod.case, rule fin)
  have "slist_of (Ptr c) ?w' = Some (hs @ [?cut])" by simp
  moreover have "body_rep ?r' body ?w'"
  proof (cases body)
    case None
    with body show ?thesis by simp
  next
    case (Some t)
    then obtain d where d: "resp_body r = Ptr d" "heap w d = Some (Chars (map Some (t @ [LF, NUL])))"
        "resp_body_len r = length t"
      using body by auto
    moreover have "d \<noteq> p" "d \<noteq> c" using d r cs(3) by auto
    ultimately show ?thesis using Some by simp
  qed
  moreover have "world_wf ?w'" using wf cs(4) pb(2) by (auto simp: world_wf_def)
  ultimately have "resp_inv h p body (hs @ [?cut]) ?w'"
    using hp own rest cs by (auto simp: resp_inv_def)
  with step True show ?thesis
    by (intro exI [of _ ?w']) (simp add: kept_headers_def heap_only_def)
qed

section \<open>A whole transfer\<close>

text \<open>What the callbacks make of the data of a transfer.\<close>

fun received_body :: "callback_data list \<Rightarrow> string option \<Rightarrow> string option" where
  "received_body [] body = body"
| "received_body (Header_data s # ds) body = received_body ds body"
| "received_body (Body_data s # ds) body = received_body ds (Some (body_text body @ s))"

fun received_headers :: "callback_data list \<Rightarrow> string list" where
  "received_headers [] = []"
| "received_headers (Header_data s # ds) = kept_headers s @ received_headers ds"
| "received_headers (Body_data s # ds) = received_headers ds"

fun header_fits :: "callback_data \<Rightarrow> bool" where
  "header_fits (Header_data s) \<longleftrightarrow> length s < int_max"
| "header_fits (Body_data s) \<longleftrightarrow> True"

lemma received_body_grows: "length (body_text body) \<le> length (body_text (received_body ds body))"
  by (induction ds body rule: received_body.induct) auto

lemma run_callbacks_inv:
  "resp_inv h p body hs w \<Longrightarrow> memory_ok L w \<Longrightarrow> list_all header_fits ds \<Longrightarrow>
   length (body_text (received_body ds body)) + 2 \<le> ptrdiff_max \<Longrightarrow>
   \<exists>w'. run_callbacks L ds (Ptr p) w = Some (True, w') \<and>
     resp_inv h p (received_body ds body) (hs @ received_headers ds) w' \<and> heap_only w w'"
proof (induction ds arbitrary: body hs w)
  case Nil
  then show ?case by simp
next
  case (Cons d ds)
  show ?case
  proof (cases d)
    case (Header_data s)
    have "length s < ptrdiff_max" using Cons.prems(3) Header_data by (simp add: int_max_def ptrdiff_max_def)
    with Cons.prems obtain w1 where
      w1: "header_callback L s 1 (length s) (Ptr p) w = Some (length s, w1)"
        "resp_inv h p body (hs @ kept_headers s) w1" "heap_only w w1"
      using header_callback_inv by blast
    then have "memory_ok L w1" using Cons.prems(2) frame by (simp add: memory_ok_def frame)
    then show ?thesis
      using Cons.IH [OF w1(2)] Cons.prems w1 Header_data heap_only_trans by fastforce
  next
    case (Body_data s)
    let ?body = "Some (body_text body @ s)"
    have "length (body_text body) + length s + 2 \<le> ptrdiff_max"
      using Cons.prems(4) Body_data received_body_grows [of ?body ds] by simp
    with Cons.prems obtain w1 where
      w1: "write_callback s 1 (length s) (Ptr p) w = Some (length s, w1)"
        "resp_inv h p ?body hs w1" "heap_only w w1"
      using write_callback_inv unfolding memory_ok_def by blast
    then have "memory_ok L w1" using Cons.prems(2) by (simp add: memory_ok_def frame)
    then show ?thesis
      using Cons.IH [OF w1(2)] Cons.prems w1 Body_data heap_only_trans by fastforce
  qed
qed

lemma create_response_inv:
  assumes wf: "world_wf w" and ok: "alloc_ok w (brk w)"
  shows "\<exists>w'. create_response w = Some (Ptr (brk w), w') \<and>
    resp_inv (heap w) (brk w) None [] w' \<and> heap_only w w'"
  using assms
  by (simp add: create_response_def malloc_struct_def new_block_def resp_inv_def world_wf_def
      heap_only_def)

lemma free_response_inv:
  assumes inv: "resp_inv h p body hs w"
  shows "\<exists>w'. free_response (Ptr p) w = Some w' \<and> heap w' = h \<and> world_wf w' \<and> heap_only w w'"
proof -
  from inv obtain r where wf: "world_wf w" and r: "heap w p = Some (Response r)"
    and body: "body_rep r body w" and hs: "slist_of (resp_headers r) w = Some hs" and hp: "h p = None"
    and own: "\<And>b. b \<in> blocks_of (resp_body r) \<union> blocks_of (resp_headers r) \<Longrightarrow> h b = None"
    and rest: "\<And>b. b \<notin> {p} \<union> blocks_of (resp_body r) \<union> blocks_of (resp_headers r) \<Longrightarrow> heap w b = h b"
    by (auto elim!: resp_invE)
  let ?h1 = "\<lambda>x. if x \<in> blocks_of (resp_body r) then None else heap w x"
  let ?h2 = "\<lambda>x. if x \<in> blocks_of (resp_headers r) then None else ?h1 x"
  have disj: "p \<notin> blocks_of (resp_body r)" "p \<notin> blocks_of (resp_headers r)"
    "\<And>b. b \<in> blocks_of (resp_headers r) \<Longrightarrow> b \<notin> blocks_of (resp_body r)"
    using r body_rep_blocks [OF body] slist_of_blocks [OF hs] by fastforce+
  have f1: "(if resp_body r \<noteq> NULL then free (resp_body r) w else Some w) = Some (w\<lparr>heap := ?h1\<rparr>)"
    using body by (cases body) (auto simp: fun_upd_def)
  have f2: "curl_slist_free_all (resp_headers r) (w\<lparr>heap := ?h1\<rparr>) = Some (w\<lparr>heap := ?h2\<rparr>)"
    using hs disj(3) by (cases rule: slist_of_cases) (auto simp: fun_upd_def)
  have f3: "free (Ptr p) (w\<lparr>heap := ?h2\<rparr>) = Some (w\<lparr>heap := h\<rparr>)"
    using r hp own rest disj by (auto simp: free_def fun_eq_iff)
  have "free_response (Ptr p) w = Some (w\<lparr>heap := h\<rparr>)"
    using r f1 f2 f3 by (simp add: free_response_def response_of_def deref_def)
  moreover have "world_wf (w\<lparr>heap := h\<rparr>)"
    using wf hp own rest by (auto simp: world_wf_def) (metis UnE singletonD)
  ultimately show ?thesis by (simp add: heap_only_def)
qed

section \<open>The content type\<close>

definition is_content_type :: "string \<Rightarrow> bool" where
  "is_content_type h \<longleftrightarrow> lower (take 12 h) = ''content-type''"

definition content_type_value :: "string \<Rightarrow> string" where
  "content_type_value h = dropWhile (\<lambda>c. c = CHR '':'' \<or> c = CHR '' '') (drop 12 h)"

text \<open>
  What the loop does with the first matching header, by the length of its value. With two or more
  characters the last two are dropped. With none, the length underflows and so large a block cannot
  be allocated. With one, the length underflows to the largest \<^verbatim>\<open>size_t\<close>, adding one gives zero, and
  \<^verbatim>\<open>memcpy\<close> leaves both buffers.
\<close>

definition content_type_result :: "string \<Rightarrow> 'e world \<Rightarrow> (ptr, 'e) res" where
  "content_type_result v w =
     (if length v = 0 then Some (NULL, w\<lparr>brk := Suc (brk w)\<rparr>)
      else if length v = 1 then
        (if alloc_ok w (brk w) then None else Some (NULL, w\<lparr>brk := Suc (brk w)\<rparr>))
      else Some (alloc_str (lower (take (length v - 2) v)) w))"

lemma content_type_value_le: "length (content_type_value h) \<le> length h"
proof -
  have "length (content_type_value h) \<le> length (drop 12 h)"
    unfolding content_type_value_def by (rule length_dropWhile_le)
  then show ?thesis by simp
qed

lemma length_needle: "length content_type_needle = 12"
  by (simp add: content_type_needle_def)

lemma content_type_loop_step:
  "content_type_loop (h # hs) w =
     (if is_content_type h then do {
        let len = size_t (length (content_type_value h) + 18446744073709551614);
        (ct, w) \<leftarrow> malloc (size_t (len + 1)) w;
        if ct = NULL then Some (NULL, w)
        else if length (content_type_value h) + 1 < len then None
        else do {
          w \<leftarrow> store ct 0 (take len (content_type_value h @ [NUL])) w;
          w \<leftarrow> store ct len [NUL] w;
          w \<leftarrow> strToLower ct w;
          Some (ct, w)
        }
      }
      else content_type_loop hs w)"
  unfolding content_type_loop.simps length_needle is_content_type_def content_type_value_def Let_def
  by (simp only: content_type_needle_def)

declare content_type_loop.simps(2) [simp del]

lemma content_type_loop_miss:
  "\<not> is_content_type h \<Longrightarrow> content_type_loop (h # hs) w = content_type_loop hs w"
  by (simp add: content_type_loop_step)

lemma content_type_loop_hit:
  assumes h: "is_content_type h" and small: "length h \<le> int_max" and nul: "NUL \<notin> set h"
  shows "content_type_loop (h # hs) w = content_type_result (content_type_value h) w"
proof -
  let ?v = "content_type_value h" and ?b = "brk w"
  define n where "n = length ?v"
  have nul_v: "NUL \<notin> set ?v"
    using nul by (auto simp: content_type_value_def dest: set_dropWhileD in_set_dropD)
  have ni: "n \<le> int_max" using content_type_value_le [of h] small by (simp add: n_def)
  then have n: "n \<le> ptrdiff_max" by (simp add: int_max_def ptrdiff_max_def)
  consider "n = 0" | "n = 1" | m where "n = m + 2"
    by (metis One_nat_def add_2_eq_Suc' less_2_cases_iff nat_le_iff_add not_less add.commute)
  then show ?thesis
  proof cases
    case 1
    then have v: "?v = []" by (simp add: n_def)
    show ?thesis
      using h v
      by (simp add: content_type_loop_step content_type_result_def size_t_def malloc_def
          ptrdiff_max_def)
  next
    case 2
    then have "length ?v = 1" by (simp add: n_def)
    then show ?thesis
      using h
      by (simp add: content_type_loop_step content_type_result_def size_t_def malloc_def
          new_block_def ptrdiff_max_def)
  next
    case (3 m)
    let ?s = "take m ?v"
    have len: "length ?s = m" using 3 by (simp add: n_def)
    have sz: "size_t (length ?v + 18446744073709551614) = m" "size_t (m + 1) = m + 1" "m + 1 \<le> ptrdiff_max"
      using 3 n by (simp_all add: n_def [symmetric] size_t_def ptrdiff_max_def)
    let ?w0 = "w\<lparr>brk := Suc ?b, heap := (heap w)(?b \<mapsto> Chars (replicate (length ?s + 1) None))\<rparr>"
    have fill: "do { w \<leftarrow> store (Ptr ?b) 0 ?s ?w0; w \<leftarrow> store (Ptr ?b) (length ?s) [NUL] w; K w } =
        K (w\<lparr>brk := Suc ?b, heap := (heap w)(?b \<mapsto> str_obj ?s)\<rparr>)" for K :: "'a world \<Rightarrow> (ptr, 'a) res"
      by (subst fill_string) simp_all
    have low: "strToLower (Ptr ?b) (w\<lparr>brk := Suc ?b, heap := (heap w)(?b \<mapsto> str_obj ?s)\<rparr>) =
        Some (w\<lparr>brk := Suc ?b, heap := (heap w)(?b \<mapsto> str_obj (lower ?s))\<rparr>)"
      using nul_v ni 3 len by (subst strToLower_spec [of _ _ ?s "[]"]) (auto dest: in_set_takeD)
    have tk: "take m (?v @ [NUL]) = ?s" using 3 by (simp add: n_def [symmetric])
    have lv: "length ?v = m + 2" using 3 by (simp add: n_def)
    have "content_type_loop (h # hs) w = do {
        (ct, w) \<leftarrow> malloc (m + 1) w;
        if ct = NULL then Some (NULL, w)
        else do {
          w \<leftarrow> store ct 0 ?s w; w \<leftarrow> store ct (length ?s) [NUL] w;
          w \<leftarrow> strToLower ct w; Some (ct, w)
        }
      }"
      using h sz(1,2) tk
      by (simp add: content_type_loop_step lv sz(1) [unfolded lv] cong: if_cong)
    also have "\<dots> = Some (alloc_str (lower ?s) w)"
      using sz(3) fill low len
      by (simp add: malloc_small new_block_def alloc_str_def del: replicate.simps)
    finally show ?thesis
      using 3 by (simp add: content_type_result_def n_def)
  qed
qed

lemma content_type_loop_eq:
  "c_strings hs \<Longrightarrow> list_all (\<lambda>h. length h \<le> int_max) hs \<Longrightarrow>
   content_type_loop hs w =
     (case find is_content_type hs of
        None \<Rightarrow> Some (NULL, w)
      | Some h \<Rightarrow> content_type_result (content_type_value h) w)"
proof (induction hs)
  case (Cons h hs)
  then show ?case
    by (cases "is_content_type h") (simp_all add: content_type_loop_hit content_type_loop_miss)
qed simp

end
