(* ===== verification/Https_Client.thy ===== *)
theory Https_Client
  imports Http_Date Http_Response
begin

text \<open>
  The requests of \<^verbatim>\<open>src/https-client.c\<close>: the set-up and clean-up of libcurl and the functions
  \<^verbatim>\<open>https_hmac_GET\<close>, \<^verbatim>\<open>https_hmac_PATCH\<close> and \<^verbatim>\<open>https_hmac_POST\<close>. The main lemma says which transfer
  each of them performs, what the response holds afterwards, and that every block they allocate is
  freed.
\<close>

section \<open>Operations\<close>

definition cleanup_https_client :: "'e world \<Rightarrow> 'e world" where
  "cleanup_https_client w = emit Curl_global_cleanup w"

definition libcurl_error :: "'e lib \<Rightarrow> int \<Rightarrow> 'e world \<Rightarrow> 'e world" where
  "libcurl_error L status w =
     emit (Print Stderr (''libcurl error: '' @ lib_strerror L status @ '' '' @ [LF])) w"

definition init_https_client :: "'e lib \<Rightarrow> 'e world \<Rightarrow> unlocked_err \<times> 'e world" where
  "init_https_client L w =
     (let (status, x) = lib_global_init L (ext w);
          w = emit Curl_global_init (w\<lparr>ext := x\<rparr>)
      in if status \<noteq> 0 then (UL_CURL, libcurl_error L status w) else (UL_OK, w))"

text \<open>An option whose value is a string: a null pointer leaves it unset.\<close>

definition setopt_string :: "ptr \<Rightarrow> 'e world \<Rightarrow> string option option" where
  "setopt_string p w = (if p = NULL then Some None else map_option Some (cstr p w))"

text \<open>
  The part the three functions have in common once the headers are there. The response code is
  written to the response whatever the status of the transfer, and the headers are freed.
\<close>

definition perform_request ::
  "'e lib \<Rightarrow> string \<Rightarrow> ptr \<Rightarrow> string option \<Rightarrow> ptr \<Rightarrow> request \<Rightarrow> ptr \<Rightarrow> 'e world \<Rightarrow>
   (unlocked_err, 'e) res" where
  "perform_request L verb postfields customrequest headers request response w = do {
     let (curl, x) = lib_easy_init L (ext w);
     let w = w\<lparr>ext := x\<rparr>;
     if \<not> curl then do { w \<leftarrow> curl_slist_free_all headers w; Some (UL_CURL, w) }
     else do {
       url \<leftarrow> setopt_string (req_url request) w;
       hs \<leftarrow> slist_of headers w;
       body \<leftarrow> setopt_string postfields w;
       let e = \<lparr>opt_url = url, opt_ssl_verifypeer = 0, opt_ssl_verifyhost = 0,
                opt_port = req_port request, opt_httpheader = hs, opt_postfields = body,
                opt_customrequest = customrequest\<rparr>;
       ((status, code), w) \<leftarrow> curl_easy_perform L e response w;
       r \<leftarrow> response_of response w;
       w \<leftarrow> assign response (Response (r\<lparr>resp_status := code\<rparr>)) w;
       w \<leftarrow> curl_slist_free_all headers w;
       if status \<noteq> 0 then Some (UL_CURL, libcurl_error L status w)
       else do {
         r \<leftarrow> response_of response w;
         w \<leftarrow> logger LOG_DEBUG (''Finished '' @ verb @ '' request with status %ld : %s'')
               [AInt (resp_status r), AStr (resp_body r)] w;
         Some (UL_OK, w)
       }
     }
   }"

text \<open>
  Appending the constant headers one after the other. When appending fails the list so far is
  lost: \<^verbatim>\<open>headers\<close> is overwritten with null before anything could free it.
\<close>

fun append_headers :: "'e lib \<Rightarrow> string list \<Rightarrow> ptr \<Rightarrow> 'e world \<Rightarrow> (ptr, 'e) res" where
  "append_headers L [] headers w = Some (headers, w)"
| "append_headers L (s # ss) headers w = do {
     (headers, w) \<leftarrow> curl_slist_append L headers (Lit s) w;
     if headers = NULL then Some (NULL, w) else append_headers L ss headers w
   }"

definition accept_json :: string where "accept_json = ''Accept: application/json''"
definition accept_text :: string where "accept_text = ''Accept: text/plain''"
definition content_json :: string where
  "content_json = ''Content-Type: application/json; charsets: utf-8''"

definition https_hmac_GET :: "'e lib \<Rightarrow> request \<Rightarrow> ptr \<Rightarrow> 'e world \<Rightarrow> (unlocked_err, 'e) res" where
  "https_hmac_GET L request response w = do {
     w \<leftarrow> logger LOG_DEBUG (''Starting GET %s on port %d'' @ [LF])
           [AStr (req_url request), AInt (req_port request)] w;
     (headers, w) \<leftarrow> add_date_header L NULL w;
     if headers = NULL then Some (UL_MALLOC, w)
     else do {
       (headers, w) \<leftarrow> add_auth_header L headers request w;
       if headers = NULL then Some (UL_MALLOC, w)
       else do {
         (headers, w) \<leftarrow> append_headers L [accept_json] headers w;
         if headers = NULL then Some (UL_MALLOC, w)
         else perform_request L ''GET'' NULL None headers request response w
       }
     }
   }"

definition https_hmac_PATCH :: "'e lib \<Rightarrow> request \<Rightarrow> ptr \<Rightarrow> 'e world \<Rightarrow> (unlocked_err, 'e) res" where
  "https_hmac_PATCH L request response w = do {
     w \<leftarrow> logger LOG_DEBUG (''Starting PATCH %s on port %d with the body %s'' @ [LF])
           [AStr (req_url request), AInt (req_port request), AStr (req_body request)] w;
     (headers, w) \<leftarrow> add_date_header L NULL w;
     if headers = NULL then Some (UL_MALLOC, w)
     else do {
       (headers, w) \<leftarrow> add_auth_header L headers request w;
       if headers = NULL then Some (UL_MALLOC, w)
       else do {
         (headers, w) \<leftarrow> append_headers L [accept_text, content_json] headers w;
         if headers = NULL then Some (UL_MALLOC, w)
         else perform_request L ''PATCH'' (req_body request) (Some ''PATCH'') headers request
                response w
       }
     }
   }"

definition https_hmac_POST :: "'e lib \<Rightarrow> request \<Rightarrow> ptr \<Rightarrow> 'e world \<Rightarrow> (unlocked_err, 'e) res" where
  "https_hmac_POST L request response w = do {
     w \<leftarrow> logger LOG_DEBUG (''Starting POST %s on port %d with the body %s'' @ [LF])
           [AStr (req_url request), AInt (req_port request), AStr (req_body request)] w;
     (headers, w) \<leftarrow> add_date_header L NULL w;
     if headers = NULL then Some (UL_MALLOC, w)
     else do {
       (headers, w) \<leftarrow> add_auth_header L headers request w;
       if headers = NULL then Some (UL_MALLOC, w)
       else do {
         (headers, w) \<leftarrow> append_headers L [accept_json, content_json] headers w;
         if headers = NULL then Some (UL_MALLOC, w)
         else perform_request L ''POST'' (req_body request) None headers request response w
       }
     }
   }"

section \<open>The list of headers under construction\<close>

text \<open>\<open>list_inv g l xs w\<close>: the heap is \<open>g\<close> and the block of the list \<open>l\<close> with the strings \<open>xs\<close>.\<close>

definition list_inv :: "(nat \<Rightarrow> obj option) \<Rightarrow> ptr \<Rightarrow> string list \<Rightarrow> 'e world \<Rightarrow> bool" where
  "list_inv g l xs w \<longleftrightarrow>
     world_wf w \<and> slist_of l w = Some xs \<and>
     (\<forall>b. if b \<in> blocks_of l then g b = None else heap w b = g b)"

lemma list_inv_Nil: "world_wf w \<Longrightarrow> list_inv (heap w) NULL [] w"
  by (simp add: list_inv_def)

lemma list_inv_le: "list_inv g l xs w \<Longrightarrow> g \<subseteq>\<^sub>m heap w"
  unfolding list_inv_def map_le_def dom_def by (metis (mono_tags) mem_Collect_eq)

lemma list_inv_fresh:
  assumes "list_inv g l xs w" "brk w \<le> b"
  shows "g b = None" "b \<notin> blocks_of l"
proof -
  have b: "heap w b = None" using assms by (auto simp: list_inv_def dest: world_wfD)
  then show "b \<notin> blocks_of l"
    using assms slist_of_blocks by (fastforce simp: list_inv_def)
  then show "g b = None" using assms b by (metis list_inv_def)
qed

lemma append_step:
  assumes inv: "list_inv g l xs w" and mem: "memory_ok L w" and s: "cstr q w = Some s"
  shows "\<exists>c w'. curl_slist_append L l q w = Some (Ptr c, w') \<and>
    list_inv g (Ptr c) (xs @ [s]) w' \<and> heap_only w w'"
proof -
  define c where "c = (case l of Ptr c \<Rightarrow> c | _ \<Rightarrow> brk w)"
  let ?w' = "w\<lparr>brk := Suc (brk w), heap := (heap w)(c \<mapsto> Slist (xs @ [s]))\<rparr>"
  have xs: "slist_of l w = Some xs" using inv by (simp add: list_inv_def)
  have app: "curl_slist_append L l q w = Some (Ptr c, ?w')"
    using mem s xs c_def by (rule curl_slist_append_ok)
  have c: "c \<le> brk w \<and> g c = None \<and> blocks_of l \<subseteq> {c}"
    using xs
  proof (cases rule: slist_of_cases)
    case 1
    then show ?thesis using list_inv_fresh [OF inv] by (simp add: c_def)
  next
    case (2 b)
    then show ?thesis
      using inv world_wf_less [of w b] by (force simp: c_def list_inv_def dest: less_imp_le)
  qed
  have "list_inv g (Ptr c) (xs @ [s]) ?w'"
    using inv c by (auto simp: list_inv_def world_wf_def) (metis singletonD subsetD)
  with app show ?thesis by (intro exI [of _ c] exI [of _ ?w']) (simp add: heap_only_def)
qed

text \<open>A fresh string is appended and freed: only the list remains of it.\<close>

lemma build_step:
  assumes inv: "list_inv g l xs w" and fresh: "fresh_str s w (Ptr b) w1" and nul: "NUL \<notin> set s"
    and mem: "memory_ok L w1"
  shows "\<exists>c w2 w'. curl_slist_append L l (Ptr b) w1 = Some (Ptr c, w2) \<and>
    free (Ptr b) w2 = Some w' \<and> list_inv g (Ptr c) (xs @ [s]) w' \<and> heap_only w1 w'"
proof -
  have b: "brk w \<le> b" and h1: "heap w1 = (heap w)(b \<mapsto> str_obj s)" and wf: "world_wf w1"
    using fresh by (simp_all add: fresh_str_def)
  note gb = list_inv_fresh [OF inv b]
  have "heap w \<subseteq>\<^sub>m heap w1"
    using inv b unfolding h1 by (auto simp: list_inv_def intro: map_le_fresh dest: world_wfD)
  then have "slist_of l w1 = Some xs" using inv by (auto simp: list_inv_def intro: slist_of_mono)
  then have "list_inv (g(b \<mapsto> str_obj s)) l xs w1"
    using inv gb wf h1 by (simp add: list_inv_def)
  moreover have "cstr (Ptr b) w1 = Some s" using nul h1 by simp
  ultimately obtain c w2 where app: "curl_slist_append L l (Ptr b) w1 = Some (Ptr c, w2)"
    and inv2: "list_inv (g(b \<mapsto> str_obj s)) (Ptr c) (xs @ [s]) w2" and only: "heap_only w1 w2"
    using append_step mem by blast
  have cb: "c \<noteq> b" using inv2 by (auto simp: list_inv_def split: if_splits)
  then have h2: "heap w2 b = Some (str_obj s)" using inv2 by (simp add: list_inv_def)
  let ?w' = "w2\<lparr>heap := (heap w2)(b := None)\<rparr>"
  have "heap w2 c = Some (Slist (xs @ [s]))"
    using inv2 by (auto simp: list_inv_def elim!: slist_of_cases)
  moreover have "\<forall>x. if x = c then g x = None else ((heap w2)(b := None)) x = g x"
    using inv2 gb(1) cb unfolding list_inv_def
    by (auto simp: fun_upd_apply split: if_splits)
  ultimately have "list_inv g (Ptr c) (xs @ [s]) ?w'"
    using inv2 cb gb(1) by (simp add: list_inv_def world_wf_def)
  moreover have "heap_only w1 ?w'" using only by (rule heap_only_upd)
  ultimately show ?thesis using app h2 by auto
qed

lemma memory_ok_did: "did es w w' \<Longrightarrow> memory_ok L w \<Longrightarrow> memory_ok L w'"
  by (simp add: memory_ok_def did_frame)

lemma append_headers_ok:
  "list_inv g l xs w \<Longrightarrow> l \<noteq> NULL \<Longrightarrow> memory_ok L w \<Longrightarrow> c_strings ss \<Longrightarrow>
   \<exists>c w'. append_headers L ss l w = Some (Ptr c, w') \<and>
     list_inv g (Ptr c) (xs @ ss) w' \<and> heap_only w w'"
proof (induction ss arbitrary: l xs w)
  case Nil
  then show ?case by (cases l) (auto simp: list_inv_def slist_of_def deref_def)
next
  case (Cons s ss)
  from append_step [OF Cons.prems(1,3), of "Lit s" s] Cons.prems(4) obtain c w1 where
    w1: "curl_slist_append L l (Lit s) w = Some (Ptr c, w1)" "list_inv g (Ptr c) (xs @ [s]) w1"
      "heap_only w w1" by auto
  have "memory_ok L w1" using memory_ok_did [OF did_heap_only [OF w1(3)] Cons.prems(3)] .
  with Cons.IH [OF w1(2)] Cons.prems(4) obtain c' w' where
    "append_headers L ss (Ptr c) w1 = Some (Ptr c', w')" "list_inv g (Ptr c') ((xs @ [s]) @ ss) w'"
    "heap_only w1 w'" by auto
  with w1 show ?case using heap_only_trans by fastforce
qed

section \<open>A response and other blocks\<close>

lemma resp_inv_heap:
  assumes "resp_inv h p body hs w" "heap w' = heap w" "world_wf w'"
  shows "resp_inv h p body hs w'"
proof -
  have "slist_of q w' = slist_of q w" for q
    using assms(2) by (simp add: slist_of_def deref_heap_cong [of w' w])
  moreover have "body_rep r body w' = body_rep r body w" for r
    using assms(2) by (cases body) simp_all
  ultimately show ?thesis using assms(1,3) unfolding resp_inv_def assms(2) by (simp only:)
qed

lemma resp_inv_cong:
  assumes "resp_inv h p body hs w" "heap w' = heap w" "brk w' = brk w" "g_hex_digest w' = g_hex_digest w"
  shows "resp_inv h p body hs w'"
proof (rule resp_inv_heap [OF assms(1,2)])
  have "world_wf w" using assms(1) by (simp add: resp_inv_def)
  then show "world_wf w'" using assms by (simp add: world_wf_def)
qed

lemma resp_invD:
  assumes "resp_inv h p body hs w"
  shows "\<exists>r. world_wf w \<and> heap w p = Some (Response r) \<and> body_rep r body w \<and>
    slist_of (resp_headers r) w = Some hs \<and> h p = None \<and>
    (\<forall>b. b \<in> blocks_of (resp_body r) \<union> blocks_of (resp_headers r) \<longrightarrow> h b = None) \<and>
    (\<forall>b. b \<notin> {p} \<union> blocks_of (resp_body r) \<union> blocks_of (resp_headers r) \<longrightarrow> heap w b = h b)"
  using assms by (rule resp_invE) blast

text \<open>A block that is not the response's can be there or not.\<close>

lemma resp_inv_add:
  assumes inv: "resp_inv h p body hs w0" and c: "heap w0 c = None"
    and w: "heap w = (heap w0)(c \<mapsto> x)" "world_wf w"
  shows "resp_inv (h(c \<mapsto> x)) p body hs w" "h c = None"
proof -
  from inv obtain r where r: "heap w0 p = Some (Response r)" "body_rep r body w0"
    "slist_of (resp_headers r) w0 = Some hs" "h p = None"
    and own: "\<And>b. b \<in> blocks_of (resp_body r) \<union> blocks_of (resp_headers r) \<Longrightarrow> h b = None"
    and rest: "\<And>b. b \<notin> {p} \<union> blocks_of (resp_body r) \<union> blocks_of (resp_headers r) \<Longrightarrow> heap w0 b = h b"
    using resp_invD by blast
  have le: "heap w0 \<subseteq>\<^sub>m heap w" using c w(1) by (simp add: map_le_fresh)
  have nc: "c \<noteq> p" "c \<notin> blocks_of (resp_body r)" "c \<notin> blocks_of (resp_headers r)"
    using c r body_rep_blocks [OF r(2)] slist_of_blocks [OF r(3)] by auto
  show "h c = None" using rest [of c] nc c by simp
  have "body_rep r body w"
    using r(2) nc w(1) by (cases body) auto
  then show "resp_inv (h(c \<mapsto> x)) p body hs w"
    using r nc w own rest slist_of_mono [OF le r(3)]
    by (auto simp: resp_inv_def)
qed

lemma resp_inv_with_list:
  assumes inv: "resp_inv h p body hs w0" and l: "list_inv (heap w0) (Ptr c) xs w"
  shows "resp_inv (h(c \<mapsto> Slist xs)) p body hs w" "h c = None"
proof -
  have c: "heap w0 c = None" "heap w = (heap w0)(c \<mapsto> Slist xs)" "world_wf w"
    using l by (auto simp: list_inv_def fun_eq_iff elim!: slist_of_cases)
  show "resp_inv (h(c \<mapsto> Slist xs)) p body hs w" "h c = None" using resp_inv_add [OF inv c] by simp_all
qed

lemma resp_inv_fresh:
  assumes inv: "resp_inv h p body hs w0" and s: "fresh_str s w0 (Ptr b) w"
  shows "resp_inv (h(b \<mapsto> str_obj s)) p body hs w" "h b = None"
proof -
  have "world_wf w0" using resp_invD [OF inv] by blast
  then have b: "heap w0 b = None" "heap w = (heap w0)(b \<mapsto> str_obj s)" "world_wf w"
    using s by (auto simp: fresh_str_def dest: world_wfD)
  show "resp_inv (h(b \<mapsto> str_obj s)) p body hs w" "h b = None" using resp_inv_add [OF inv b] by simp_all
qed

lemma resp_inv_drop:
  assumes inv: "resp_inv (h(c \<mapsto> x)) p body hs w" and hc: "h c = None"
  shows "heap w c = Some x" "resp_inv h p body hs (w\<lparr>heap := (heap w)(c := None)\<rparr>)" "c \<noteq> p"
proof -
  from inv obtain r where wf: "world_wf w" and r: "heap w p = Some (Response r)"
    "body_rep r body w" "slist_of (resp_headers r) w = Some hs" "(h(c \<mapsto> x)) p = None"
    and own: "\<And>b. b \<in> blocks_of (resp_body r) \<union> blocks_of (resp_headers r) \<Longrightarrow> (h(c \<mapsto> x)) b = None"
    and rest: "\<And>b. b \<notin> {p} \<union> blocks_of (resp_body r) \<union> blocks_of (resp_headers r) \<Longrightarrow>
      heap w b = (h(c \<mapsto> x)) b"
    using resp_invD [OF inv] by blast
  have nc: "c \<noteq> p" "c \<notin> blocks_of (resp_body r)" "c \<notin> blocks_of (resp_headers r)"
    using r(4) own [of c] by (auto split: if_splits)
  show "heap w c = Some x" using rest [of c] nc by simp
  show "c \<noteq> p" using nc by simp
  let ?w = "w\<lparr>heap := (heap w)(c := None)\<rparr>"
  have "body_rep r body ?w" using r(2) nc by (cases body) auto
  moreover have "slist_of (resp_headers r) ?w = Some hs"
    using r(3) nc by (cases rule: slist_of_cases) auto
  moreover have "\<forall>b. if b \<in> {p} \<union> blocks_of (resp_body r) \<union> blocks_of (resp_headers r)
      then h b = None else heap ?w b = h b"
    using own rest r(4) nc hc by (auto split: if_splits) (metis fun_upd_other)+
  moreover have "world_wf ?w" using wf by (simp add: world_wf_def)
  ultimately show "resp_inv h p body hs ?w"
    using r nc by (auto simp: resp_inv_def)
qed

lemma resp_inv_status:
  assumes "resp_inv h p body hs w" "heap w p = Some (Response r)"
  shows "resp_inv h p body hs (w\<lparr>heap := (heap w)(p \<mapsto> Response (r\<lparr>resp_status := s\<rparr>))\<rparr>)"
proof -
  let ?r = "r\<lparr>resp_status := s\<rparr>" and ?w = "w\<lparr>heap := (heap w)(p \<mapsto> Response (r\<lparr>resp_status := s\<rparr>))\<rparr>"
  from assms(1) obtain r' where wf: "world_wf w" and r': "heap w p = Some (Response r')"
    "body_rep r' body w" "slist_of (resp_headers r') w = Some hs" "h p = None"
    and own: "\<And>b. b \<in> blocks_of (resp_body r') \<union> blocks_of (resp_headers r') \<Longrightarrow> h b = None"
    and rest: "\<And>b. b \<notin> {p} \<union> blocks_of (resp_body r') \<union> blocks_of (resp_headers r') \<Longrightarrow> heap w b = h b"
    using resp_invD by blast
  have r [simp]: "r' = r" using r'(1) assms(2) by simp
  have "\<exists>b. b \<noteq> p \<and> resp_body r = Ptr b \<and> heap w b = Some (Chars (map Some (t @ [LF, NUL]))) \<and>
      resp_body_len r = length t" if "body = Some t" for t
    using r'(2) that assms(2) by fastforce
  then have "body_rep ?r body ?w" using r'(2) by (cases body) auto
  moreover have "slist_of (resp_headers r) ?w = Some hs"
    using r'(3) assms(2) by (cases rule: slist_of_cases) (auto simp: slist_of_def deref_def)
  moreover have "world_wf ?w" using wf world_wf_less [OF wf assms(2)] by (simp add: world_wf_def)
  ultimately show ?thesis using own rest r'(4) by (auto simp: resp_inv_def)
qed

text \<open>What the last log message prints.\<close>

lemma resp_inv_body_printable:
  assumes "resp_inv h p body hs w" "heap w p = Some (Response r)"
  shows "\<exists>s. (if resp_body r = NULL then Some ''(null)'' else cstr (resp_body r) w) = Some s"
proof -
  have body: "body_rep r body w" using assms by (auto elim!: resp_invE)
  show ?thesis
  proof (cases body)
    case None
    with body show ?thesis by simp
  next
    case (Some t)
    have "scan (map Some (t @ [LF, NUL])) = Some (takeWhile (\<lambda>c. c \<noteq> NUL) (t @ [LF]))"
      using scan_cut [of "t @ [LF]" "[]"] by simp
    with body Some show ?thesis by (auto simp: cstr_Ptr)
  qed
qed

section \<open>One transfer\<close>

lemma setopt_string_mono:
  "heap w \<subseteq>\<^sub>m heap w' \<Longrightarrow> setopt_string p w = Some s \<Longrightarrow> setopt_string p w' = Some s"
  by (auto simp: setopt_string_def split: if_splits dest: cstr_mono)

lemma setopt_string_heap_cong: "heap w = heap w' \<Longrightarrow> setopt_string p w = setopt_string p w'"
  by (simp add: setopt_string_def cstr_heap_cong [of w w'])

lemma slist_of_heap_cong: "heap w = heap w' \<Longrightarrow> slist_of p w = slist_of p w'"
  by (simp add: slist_of_def deref_heap_cong [of w w'])

lemma curl_easy_perform_inv:
  assumes inv: "resp_inv h p body rh w" and mem: "memory_ok L w"
    and t: "lib_perform L e (ext w) = (t, x)" and fits: "list_all header_fits (tr_data t)"
    and len: "length (body_text (received_body (tr_data t) body)) + 2 \<le> ptrdiff_max"
  shows "\<exists>w'. curl_easy_perform L e (Ptr p) w = Some ((tr_status t, tr_response_code t), w') \<and>
    resp_inv h p (received_body (tr_data t) body) (rh @ received_headers (tr_data t)) w' \<and>
    did [Perform e t] w w' \<and> ext w' = x"
proof -
  let ?w = "emit (Perform e t) (w\<lparr>ext := x\<rparr>)"
  have "resp_inv h p body rh ?w" by (rule resp_inv_cong [OF inv]) (simp_all add: emit_def)
  moreover have "memory_ok L ?w" using mem by (simp add: memory_ok_def emit_def)
  ultimately obtain w' where w': "run_callbacks L (tr_data t) (Ptr p) ?w = Some (True, w')"
    "resp_inv h p (received_body (tr_data t) body) (rh @ received_headers (tr_data t)) w'"
    "heap_only ?w w'"
    using run_callbacks_inv fits len by blast
  have "did [Perform e t] w ?w" using did_emit [of "Perform e t" "w\<lparr>ext := x\<rparr>"] by (simp add: did_def)
  also have "did [] ?w w'" using w'(3) by (rule did_heap_only)
  finally have "did [Perform e t] w w'" by simp
  moreover have "ext w' = x" using w'(3) by (simp add: heap_only_frame) (simp add: emit_def)
  ultimately show ?thesis using w' by (simp add: curl_easy_perform_def t)
qed

text \<open>The result of a request whose transfer is \<open>t\<close>, and the status of a response.\<close>

definition transfer_err :: "transfer \<Rightarrow> unlocked_err" where
  "transfer_err t = (if tr_status t = 0 then UL_OK else UL_CURL)"

definition status_of :: "ptr \<Rightarrow> 'e world \<Rightarrow> int option" where
  "status_of p w = map_option resp_status (response_of p w)"

lemma status_of_Ptr [simp]: "heap w p = Some (Response r) \<Longrightarrow> status_of (Ptr p) w = Some (resp_status r)"
  by (simp add: status_of_def response_of_def deref_def)

lemma perform_request_spec:
  fixes body' rh'
  assumes inv: "resp_inv (h(c \<mapsto> Slist xs)) p body rh w" and hc: "h c = None" and xs: "xs \<noteq> []"
    and mem: "memory_ok L w"
    and url: "setopt_string (req_url rq) w = Some url" and pf: "setopt_string postfields w = Some pb"
    and init: "lib_easy_init L (ext w) = (True, x1)"
    and e: "e = \<lparr>opt_url = url, opt_ssl_verifypeer = 0, opt_ssl_verifyhost = 0,
       opt_port = req_port rq, opt_httpheader = xs, opt_postfields = pb, opt_customrequest = cr\<rparr>"
    and t: "lib_perform L e x1 = (t, x2)" and fits: "list_all header_fits (tr_data t)"
    and len: "length (body_text (received_body (tr_data t) body)) + 2 \<le> ptrdiff_max"
    and verb: "verb \<in> {''GET'', ''PATCH'', ''POST''}"
  defines "body' \<equiv> received_body (tr_data t) body" and "rh' \<equiv> rh @ received_headers (tr_data t)"
  shows "\<exists>w'. perform_request L verb postfields cr (Ptr c) rq (Ptr p) w = Some (transfer_err t, w') \<and>
    resp_inv h p body' rh' w' \<and> status_of (Ptr p) w' = Some (tr_response_code t) \<and>
    did [Perform e t] w w' \<and> ext w' = x2"
proof -
  let ?w1 = "w\<lparr>ext := x1\<rparr>"
  have inv1: "resp_inv (h(c \<mapsto> Slist xs)) p body rh ?w1" by (rule resp_inv_cong [OF inv]) simp_all
  have mem1: "memory_ok L ?w1" using mem by (simp add: memory_ok_def)
  have opts: "setopt_string (req_url rq) ?w1 = Some url" "setopt_string postfields ?w1 = Some pb"
    using url pf setopt_string_heap_cong [of ?w1 w] by simp_all
  have hs: "slist_of (Ptr c) ?w1 = Some xs"
    using resp_inv_drop(1) [OF inv hc] xs by simp
  obtain w2 where w2: "curl_easy_perform L e (Ptr p) ?w1 = Some ((tr_status t, tr_response_code t), w2)"
    "resp_inv (h(c \<mapsto> Slist xs)) p body' rh' w2" "did [Perform e t] ?w1 w2" "ext w2 = x2"
    unfolding body'_def rh'_def
    using curl_easy_perform_inv [OF inv1 mem1 _ fits len, of e x2] t by auto
  obtain r where r: "heap w2 p = Some (Response r)" using w2(2) resp_invD by blast
  let ?r = "r\<lparr>resp_status := tr_response_code t\<rparr>"
  let ?w3 = "w2\<lparr>heap := (heap w2)(p \<mapsto> Response ?r)\<rparr>"
  have inv3: "resp_inv (h(c \<mapsto> Slist xs)) p body' rh' ?w3" using w2(2) r by (rule resp_inv_status)
  let ?w4 = "?w3\<lparr>heap := (heap ?w3)(c := None)\<rparr>"
  note drop = resp_inv_drop [OF inv3 hc]
  have steps: "response_of (Ptr p) w2 = Some r" "assign (Ptr p) (Response ?r) w2 = Some ?w3"
    "curl_slist_free_all (Ptr c) ?w3 = Some ?w4"
    using r drop(1) xs by (simp_all add: response_of_def deref_def)
  have r4: "heap ?w4 p = Some (Response ?r)" using drop(3) by simp
  have d4: "did [Perform e t] w ?w4" using w2(3) by (simp add: did_def)
  define fmt where "fmt = ''Finished '' @ verb @ '' request with status %ld : %s''"
  have run: "perform_request L verb postfields cr (Ptr c) rq (Ptr p) w =
      (if tr_status t \<noteq> 0 then Some (UL_CURL, libcurl_error L (tr_status t) ?w4)
       else do {
         r \<leftarrow> response_of (Ptr p) ?w4;
         w \<leftarrow> logger LOG_DEBUG fmt [AInt (resp_status r), AStr (resp_body r)] ?w4;
         Some (UL_OK, w)
       })"
    by (simp only: perform_request_def init Let_def prod.case not_True_eq_False if_False opts hs
        Option.bind.simps e [symmetric] w2(1) steps fmt_def)
  show ?thesis
  proof (cases "tr_status t = 0")
    case False
    let ?w' = "libcurl_error L (tr_status t) ?w4"
    have "resp_inv h p body' rh' ?w'"
      by (rule resp_inv_cong [OF drop(2)]) (simp_all add: libcurl_error_def emit_def)
    moreover have "did [Perform e t] w ?w'"
      using d4 by (simp add: did_def libcurl_error_def) (simp add: emit_def)
    moreover have "heap ?w' p = Some (Response ?r)" "ext ?w' = x2"
      using r4 w2(4) by (simp_all add: libcurl_error_def emit_def)
    ultimately show ?thesis using False run by (simp add: transfer_err_def)
  next
    case True
    obtain s where s: "(if resp_body ?r = NULL then Some ''(null)'' else cstr (resp_body ?r) ?w4) = Some s"
      using resp_inv_body_printable [OF drop(2) r4] by blast
    have "format fmt [AInt (resp_status ?r), AStr (resp_body ?r)] ?w4 \<noteq> None"
      using verb s by (auto simp: fmt_def)
    then obtain w' where w': "logger LOG_DEBUG fmt [AInt (resp_status ?r), AStr (resp_body ?r)] ?w4 = Some w'"
      using logger_defined by blast
    have "resp_inv h p body' rh' w'"
      by (rule resp_inv_cong [OF drop(2)]) (use loggerD [OF w'] in auto)
    moreover have "did [Perform e t] w w'"
      using did_trans [OF d4 did_logger [OF w']] by simp
    moreover have "heap w' p = Some (Response ?r)" "ext w' = x2"
      using r4 w2(4) logger_frame [OF w'] by simp_all
    moreover have "response_of (Ptr p) ?w4 = Some ?r" using r4 by (simp add: response_of_def deref_def)
    ultimately show ?thesis using True run w' by (simp add: transfer_err_def)
  qed
qed

section \<open>The signed requests\<close>

text \<open>
  What the three functions share: a first log message, the date, the authorization over the date
  and the body, further headers, the transfer.
\<close>

definition signed_request ::
  "'e lib \<Rightarrow> string \<Rightarrow> farg list \<Rightarrow> string list \<Rightarrow> string \<Rightarrow> ptr \<Rightarrow> string option \<Rightarrow> request \<Rightarrow> ptr \<Rightarrow>
   'e world \<Rightarrow> (unlocked_err, 'e) res" where
  "signed_request L fmt as extra verb postfields customrequest request response w = do {
     w \<leftarrow> logger LOG_DEBUG fmt as w;
     (headers, w) \<leftarrow> add_date_header L NULL w;
     if headers = NULL then Some (UL_MALLOC, w)
     else do {
       (headers, w) \<leftarrow> add_auth_header L headers request w;
       if headers = NULL then Some (UL_MALLOC, w)
       else do {
         (headers, w) \<leftarrow> append_headers L extra headers w;
         if headers = NULL then Some (UL_MALLOC, w)
         else perform_request L verb postfields customrequest headers request response w
       }
     }
   }"

lemma https_hmac_signed:
  "https_hmac_GET L rq p w = signed_request L (''Starting GET %s on port %d'' @ [LF])
     [AStr (req_url rq), AInt (req_port rq)] [accept_json] ''GET'' NULL None rq p w"
  "https_hmac_PATCH L rq p w = signed_request L (''Starting PATCH %s on port %d with the body %s'' @ [LF])
     [AStr (req_url rq), AInt (req_port rq), AStr (req_body rq)] [accept_text, content_json]
     ''PATCH'' (req_body rq) (Some ''PATCH'') rq p w"
  "https_hmac_POST L rq p w = signed_request L (''Starting POST %s on port %d with the body %s'' @ [LF])
     [AStr (req_url rq), AInt (req_port rq), AStr (req_body rq)] [accept_json, content_json]
     ''POST'' (req_body rq) None rq p w"
  by (simp_all only: https_hmac_GET_def https_hmac_PATCH_def https_hmac_POST_def signed_request_def)

text \<open>A clock whose time is in the years with four digits.\<close>

definition clock_at :: "'e lib \<Rightarrow> 'e \<Rightarrow> tm \<Rightarrow> 'e \<Rightarrow> bool" where
  "clock_at L x tm x' \<longleftrightarrow>
     (case lib_time L x of (t, y) \<Rightarrow> y = x' \<and> gmtime t = Some tm) \<and>
     1000 \<le> tm_year tm + 1900 \<and> tm_year tm + 1900 \<le> 9999"

lemma date_text_chars:
  assumes "tm_ok tm"
  shows "CHR '':'' \<in> set (date_text tm)" "NUL \<notin> set (date_text tm)"
proof -
  have "length days = 7" "length months = 12" by (simp_all add: days_def months_def)
  then have "days ! nat (tm_wday tm) \<in> set days" "months ! nat (tm_mon tm) \<in> set months"
    using assms by (auto simp: tm_ok_def)
  then show "CHR '':'' \<in> set (date_text tm)" "NUL \<notin> set (date_text tm)"
    using names_no_nul by (auto simp: list_all_iff date_text_def)
qed

lemma add_date_header_ok:
  assumes inv: "list_inv g l xs w" and mem: "memory_ok L w" and clock: "clock_at L (ext w) tm x"
  shows "\<exists>c w'. add_date_header L l w = Some (Ptr c, w') \<and>
    list_inv g (Ptr c) (xs @ [date_text tm]) w' \<and> did [] w w' \<and> ext w' = x"
proof -
  obtain t where t: "lib_time L (ext w) = (t, x)" and tm: "gmtime t = Some tm"
    and yr: "1000 \<le> tm_year tm + 1900" "tm_year tm + 1900 \<le> 9999"
    using clock by (auto simp: clock_at_def split: prod.splits)
  let ?s = "date_text tm" and ?w = "w\<lparr>ext := x\<rparr>"
  have wf: "world_wf ?w" using inv by (simp add: list_inv_def world_wf_def)
  note ok = gmtime_ok(1) [OF tm]
  have len: "length ?s \<le> int_max" "tm_year tm + 1900 \<le> int int_max"
    using date_text_ok(1) [OF ok yr] yr by (simp_all add: int_max_def)
  have "date_header L None w = date_header L (Some t) ?w"
    by (simp add: date_header_def t)
  also have "\<dots> = Some (alloc_str ?s ?w)" using date_header_eq [OF tm len(2) wf len(1)] .
  finally have date: "date_header L None w = Some (alloc_str ?s ?w)" .
  let ?w1 = "?w\<lparr>brk := Suc (brk w), heap := (heap w)(brk w \<mapsto> str_obj ?s)\<rparr>"
  have a: "alloc_str ?s ?w = (Ptr (brk w), ?w1)" using mem by (simp add: alloc_str_def memory_ok_def)
  have "list_inv g l xs ?w"
    using inv slist_of_heap_cong [of ?w w] by (simp add: list_inv_def world_wf_def)
  then obtain c w2 w' where w': "curl_slist_append L l (Ptr (brk w)) ?w1 = Some (Ptr c, w2)"
    "free (Ptr (brk w)) w2 = Some w'" "list_inv g (Ptr c) (xs @ [?s]) w'" "heap_only ?w1 w'"
    using build_step [OF _ alloc_str_fresh [OF wf a] date_text_chars(2) [OF ok], of g l xs L] mem
    by (auto simp: memory_ok_def)
  have "did [] w w'" using did_heap_only [OF w'(4)] by (simp add: did_def)
  moreover have "ext w' = x" using w'(4) by (simp add: heap_only_frame)
  ultimately show ?thesis using w' by (simp add: add_date_header_def date a)
qed

lemma add_auth_header_ok:
  assumes inv: "list_inv g l xs w" and mem: "memory_ok L w"
    and pre: "auth_pre L l (req_username rq) (req_secret rq) (req_body rq) xs u k bd d w"
  shows "\<exists>c w'. add_auth_header L l rq w = Some (Ptr c, w') \<and>
    list_inv g (Ptr c) (xs @ [auth_text u xs d]) w' \<and> did [] w w' \<and> ext w' = ext w"
proof -
  let ?s = "auth_text u xs d"
  have wf: "world_wf w" using inv by (simp add: list_inv_def)
  obtain q w1 where w1: "authHeader L l (req_username rq) (req_secret rq) (req_body rq) w = Some (q, w1)"
    "fresh_str ?s w q w1" "q = NULL \<longrightarrow> (\<exists>n. \<not> alloc_ok w n)"
    "w1 = w\<lparr>heap := heap w1, brk := brk w1, g_hex_digest := g_hex_digest w1\<rparr>"
    using authHeader_spec [OF wf, of l xs "req_username rq" u "req_secret rq" k "req_body rq" bd L d] pre
    unfolding auth_pre_def by blast
  then obtain b where b: "q = Ptr b" using mem by (auto simp: memory_ok_def elim: fresh_str_cases)
  have d1: "did [] w w1" using w1(4) by (metis did_refl did_upd(1,2,4))
  have nul: "NUL \<notin> set ?s"
    using pre by (intro auth_text_no_nul) (auto simp: auth_pre_def dest: cstr_no_nul)
  obtain c w2 w' where w': "curl_slist_append L l (Ptr b) w1 = Some (Ptr c, w2)"
    "free (Ptr b) w2 = Some w'" "list_inv g (Ptr c) (xs @ [?s]) w'" "heap_only w1 w'"
    using build_step [OF inv w1(2) [unfolded b] nul memory_ok_did [OF d1 mem]] by blast
  have "did [] w w'" using did_trans [OF d1 did_heap_only [OF w'(4)]] by simp
  moreover have "ext w1 = ext w" by (subst w1(4)) simp
  then have "ext w' = ext w" using w'(4) by (simp add: heap_only_frame)
  ultimately show ?thesis using w' w1(1) b by (simp add: add_auth_header_def)
qed

text \<open>
  What a caller of a request provides: memory, a clock, readable strings, a working HMAC, a handle,
  a server whose data fits in memory. \<open>t\<close> is the transfer that then takes place, \<open>e\<close> what is asked
  of libcurl.
\<close>

definition request_pre ::
  "'e lib \<Rightarrow> request \<Rightarrow> string list \<Rightarrow> ptr \<Rightarrow> string option \<Rightarrow> string option \<Rightarrow> easy \<Rightarrow> transfer \<Rightarrow> 'e \<Rightarrow>
   'e world \<Rightarrow> bool" where
  "request_pre L rq extra postfields cr body e t x w \<longleftrightarrow>
     memory_ok L w \<and> lib_ok L \<and>
     (\<exists>tm x0 u k bd d pb url x1. clock_at L (ext w) tm x0 \<and>
        cstr (req_username rq) w = Some u \<and> cstr (req_secret rq) w = Some k \<and>
        (if req_body rq \<noteq> NULL then cstr (req_body rq) w else Some []) = Some bd \<and>
        lib_hmac L k (signed_data [date_text tm] bd) = Some d \<and>
        length bd + 36 < ptrdiff_max \<and> length (auth_text u [date_text tm] d) < int_max \<and>
        setopt_string postfields w = Some pb \<and> cstr (req_url rq) w = Some url \<and>
        lib_easy_init L x0 = (True, x1) \<and>
        e = \<lparr>opt_url = Some url, opt_ssl_verifypeer = 0, opt_ssl_verifyhost = 0,
             opt_port = req_port rq,
             opt_httpheader = [date_text tm, auth_text u [date_text tm] d] @ extra,
             opt_postfields = pb, opt_customrequest = cr\<rparr> \<and>
        lib_perform L e x1 = (t, x)) \<and>
     list_all header_fits (tr_data t) \<and>
     length (body_text (received_body (tr_data t) body)) + 2 \<le> ptrdiff_max"

lemma signed_request_spec:
  assumes inv: "resp_inv h p body rh w"
    and pre: "request_pre L rq extra postfields cr body e t x w"
    and extra: "c_strings extra" and log: "format fmt as w \<noteq> None"
    and verb: "verb \<in> {''GET'', ''PATCH'', ''POST''}"
  shows "\<exists>w'. signed_request L fmt as extra verb postfields cr rq (Ptr p) w = Some (transfer_err t, w') \<and>
    resp_inv h p (received_body (tr_data t) body) (rh @ received_headers (tr_data t)) w' \<and>
    status_of (Ptr p) w' = Some (tr_response_code t) \<and> did [Perform e t] w w' \<and> ext w' = x"
proof -
  from pre obtain tm x0 u k bd d pb url x1 where mem: "memory_ok L w" and lib: "lib_ok L"
    and clock: "clock_at L (ext w) tm x0"
    and str: "cstr (req_username rq) w = Some u" "cstr (req_secret rq) w = Some k"
      "(if req_body rq \<noteq> NULL then cstr (req_body rq) w else Some []) = Some bd"
    and d: "lib_hmac L k (signed_data [date_text tm] bd) = Some d"
    and len: "length bd + 36 < ptrdiff_max" "length (auth_text u [date_text tm] d) < int_max"
    and opts: "setopt_string postfields w = Some pb" "cstr (req_url rq) w = Some url"
    and init: "lib_easy_init L x0 = (True, x1)"
    and e: "e = \<lparr>opt_url = Some url, opt_ssl_verifypeer = 0, opt_ssl_verifyhost = 0,
             opt_port = req_port rq,
             opt_httpheader = [date_text tm, auth_text u [date_text tm] d] @ extra,
             opt_postfields = pb, opt_customrequest = cr\<rparr>"
    and t: "lib_perform L e x1 = (t, x)" and fits: "list_all header_fits (tr_data t)"
    and tlen: "length (body_text (received_body (tr_data t) body)) + 2 \<le> ptrdiff_max"
    unfolding request_pre_def by blast
  have tm: "tm_ok tm" "length (date_text tm) = 35"
    using clock by (auto simp: clock_at_def dest: gmtime_ok(1) intro: date_text_ok(1) split: prod.splits)
  obtain w1 where w1: "logger LOG_DEBUG fmt as w = Some w1" using logger_defined log by blast
  have d1: "did [] w w1" using w1 by (rule did_logger)
  note fr1 = logger_frame [OF w1]
  have "resp_inv h p body rh w1"
    by (rule resp_inv_cong [OF inv]) (use loggerD [OF w1] in auto)
  then have "world_wf w1" and inv1: "resp_inv h p body rh w1" using resp_invD by blast+
  then have l1: "list_inv (heap w1) NULL [] w1" by (intro list_inv_Nil)
  have "memory_ok L w1" using memory_ok_did [OF d1 mem] .
  with add_date_header_ok [OF l1, of L tm x0] clock fr1(4) obtain c2 w2 where
    w2: "add_date_header L NULL w1 = Some (Ptr c2, w2)" "list_inv (heap w1) (Ptr c2) [date_text tm] w2"
      "did [] w1 w2" "ext w2 = x0" by auto
  have d2: "did [] w w2" using did_trans [OF d1 w2(3)] by simp
  have le2: "heap w \<subseteq>\<^sub>m heap w2" using list_inv_le [OF w2(2)] fr1(1) by simp
  have body2: "(if req_body rq \<noteq> NULL then cstr (req_body rq) w2 else Some []) = Some bd"
    using str(3) cstr_mono [OF le2] by (auto split: if_splits)
  have sl2: "slist_of (Ptr c2) w2 = Some [date_text tm]" using w2(2) by (simp add: list_inv_def)
  have pre2: "auth_pre L (Ptr c2) (req_username rq) (req_secret rq) (req_body rq) [date_text tm] u k bd d w2"
    unfolding auth_pre_def
    using str cstr_mono [OF le2] body2 sl2 d lib_ok_hmac [OF lib d] len tm date_text_chars [OF tm(1)]
    by (simp add: length_signed_data)
  obtain c3 w3 where w3: "add_auth_header L (Ptr c2) rq w2 = Some (Ptr c3, w3)"
    "list_inv (heap w1) (Ptr c3) ([date_text tm] @ [auth_text u [date_text tm] d]) w3"
    "did [] w2 w3" "ext w3 = ext w2"
    using add_auth_header_ok [OF w2(2) memory_ok_did [OF d2 mem] pre2] by blast
  have d3: "did [] w w3" using did_trans [OF d2 w3(3)] by simp
  obtain c4 w4 where w4: "append_headers L extra (Ptr c3) w3 = Some (Ptr c4, w4)"
    "list_inv (heap w1) (Ptr c4) (opt_httpheader e) w4" "heap_only w3 w4"
    using append_headers_ok [OF w3(2) _ memory_ok_did [OF d3 mem] extra] by (auto simp: e)
  have d4: "did [] w w4" using did_trans [OF d3 did_heap_only [OF w4(3)]] by simp
  have le4: "heap w \<subseteq>\<^sub>m heap w4" using list_inv_le [OF w4(2)] fr1(1) by simp
  note inv4 = resp_inv_with_list [OF inv1 w4(2)]
  have ext4: "ext w4 = x0" using w4(3) w3(4) w2(4) by (simp add: heap_only_frame)
  have url4: "setopt_string (req_url rq) w4 = Some (Some url)"
    using cstr_mono [OF le4 opts(2)] by (auto simp: setopt_string_def)
  obtain w' where w': "perform_request L verb postfields cr (Ptr c4) rq (Ptr p) w4 = Some (transfer_err t, w')"
    "resp_inv h p (received_body (tr_data t) body) (rh @ received_headers (tr_data t)) w'"
    "status_of (Ptr p) w' = Some (tr_response_code t)" "did [Perform e t] w4 w'" "ext w' = x"
    using perform_request_spec [OF inv4 _ memory_ok_did [OF d4 mem] url4 setopt_string_mono [OF le4 opts(1)],
        of x1 e cr t x verb] init ext4 e t fits tlen verb
    by auto
  have "signed_request L fmt as extra verb postfields cr rq (Ptr p) w = Some (transfer_err t, w')"
    by (simp only: signed_request_def w1 w2(1) w3(1) w4(1) w'(1) Option.bind.simps prod.case
        ptr.distinct if_False)
  moreover have "did [Perform e t] w w'" using did_trans [OF d4 w'(4)] by simp
  ultimately show ?thesis using w' by blast
qed

end
