(* ===== verification/Client.thy ===== *)
theory Client
  imports Https_Client Module_Table
begin

text \<open>
  \<^verbatim>\<open>src/client.c\<close>: the exchange with the server that ends with the delivery of the key. The
  functions of cJSON the code calls are a parameter.
\<close>

section \<open>cJSON\<close>

text \<open>
  An item is what the code asks of it: is it a number or a string, its double (\<open>None\<close>: not finite),
  its string (\<open>None\<close>: null). \<open>json_parse\<close> gets \<open>None\<close> for a null pointer and returns, when the text is
  JSON, the items by their keys (\<^verbatim>\<open>cJSON_GetObjectItemCaseSensitive\<close>). \<open>json_error\<close> is the text at
  \<^verbatim>\<open>cJSON_GetErrorPtr\<close> after the parser failed.
\<close>

record json_item =
  item_is_number :: bool
  item_is_string :: bool
  item_double :: "rat option"
  item_string :: "string option"

record cjson =
  json_parse :: "string option \<Rightarrow> (string \<Rightarrow> json_item option) option"
  json_error :: "string option \<Rightarrow> string option"

text \<open>The conversion of a double to an \<^verbatim>\<open>int\<close>: towards zero, undefined outside the range.\<close>

definition int_of_double :: "rat option \<Rightarrow> int option" where
  "int_of_double d =
     (case d of
        None \<Rightarrow> None
      | Some r \<Rightarrow>
          let i = (if 0 \<le> r then \<lfloor>r\<rfloor> else \<lceil>r\<rceil>)
          in if - 2147483648 \<le> i \<and> i \<le> 2147483647 then Some i else None)"

text \<open>The text of a response body, or \<open>None\<close> for a null body.\<close>

definition body_of :: "ptr \<Rightarrow> 'e world \<Rightarrow> string option option" where
  "body_of response w = do { r \<leftarrow> response_of response w; setopt_string (resp_body r) w }"

definition log_parse_error :: "cjson \<Rightarrow> string option \<Rightarrow> 'e world \<Rightarrow> 'e world option" where
  "log_parse_error J body w =
     (case json_error J body of
        Some error_ptr \<Rightarrow> logger LOG_ERROR (''Error before: %s'' @ [LF]) [AStr (Lit error_ptr)] w
      | None \<Rightarrow> logger LOG_ERROR (''Error parsing response json'' @ [LF]) [] w)"

section \<open>Texts\<close>

text \<open>
  The three functions that format a request: measure, allocate, print. A negative length makes the
  size zero.
\<close>

definition print_alloc :: "string \<Rightarrow> farg list \<Rightarrow> 'e world \<Rightarrow> (ptr, 'e) res" where
  "print_alloc fmt as w = do {
     len \<leftarrow> snprintf_len fmt as w;
     (buf, w) \<leftarrow> malloc (size_t (nat (len + 1))) w;
     if buf = NULL then Some (NULL, w)
     else do {
       (n, w) \<leftarrow> snprintf buf (size_t (nat (len + 1))) fmt as w;
       if n < 0 then do { w \<leftarrow> free buf w; Some (NULL, w) } else Some (buf, w)
     }
   }"

definition get_key_request_body :: "ptr \<Rightarrow> 'e world \<Rightarrow> (ptr, 'e) res" where
  "get_key_request_body handle w = print_alloc ''{\"key\": \"%s\"}'' [AStr handle] w"

definition get_key_request_url :: "ptr \<Rightarrow> 'e world \<Rightarrow> (ptr, 'e) res" where
  "get_key_request_url host w = print_alloc ''https://%s/api/requests'' [AStr host] w"

definition get_show_request_url :: "ptr \<Rightarrow> int \<Rightarrow> 'e world \<Rightarrow> (ptr, 'e) res" where
  "get_show_request_url host i w =
     print_alloc ''https://%s/api/requests/%d'' [AStr host, AInt i] w"

section \<open>Reading the responses\<close>

definition get_request_id :: "cjson \<Rightarrow> ptr \<Rightarrow> 'e world \<Rightarrow> (int, 'e) res" where
  "get_request_id J response w =
     (if response = NULL then Some (0, w)
      else do {
        body \<leftarrow> body_of response w;
        case json_parse J body of
          None \<Rightarrow> do { w \<leftarrow> log_parse_error J body w; Some (0, w) }
        | Some json \<Rightarrow>
            case json ''id'' of
              None \<Rightarrow> do { w \<leftarrow> logger LOG_ERROR (''Key \"id\" not found'' @ [LF]) [] w; Some (0, w) }
            | Some elem \<Rightarrow>
                if \<not> item_is_number elem then do {
                  w \<leftarrow> logger LOG_ERROR (''Value of key \"id\" is not numeric'' @ [LF]) [] w;
                  Some (0, w)
                }
                else do { i \<leftarrow> int_of_double (item_double elem); Some (i, w) }
      })"

definition get_request_state :: "cjson \<Rightarrow> ptr \<Rightarrow> 'e world \<Rightarrow> (ptr, 'e) res" where
  "get_request_state J response w =
     (if response = NULL then Some (NULL, w)
      else do {
        body \<leftarrow> body_of response w;
        case json_parse J body of
          None \<Rightarrow> do { w \<leftarrow> log_parse_error J body w; Some (NULL, w) }
        | Some json \<Rightarrow>
            case json ''state'' of
              None \<Rightarrow> do { w \<leftarrow> logger LOG_ERROR (''Key \"state\" not found'' @ [LF]) [] w; Some (NULL, w) }
            | Some elem \<Rightarrow>
                case (if item_is_string elem then item_string elem else None) of
                  None \<Rightarrow> do {
                    w \<leftarrow> logger LOG_ERROR (''Value of key \"state\" is not a string'' @ [LF]) [] w;
                    Some (NULL, w)
                  }
                | Some valuestring \<Rightarrow> do {
                    let state_len = length valuestring;
                    (state, w) \<leftarrow> malloc (size_t (state_len + 1)) w;
                    if state = NULL then Some (NULL, w)
                    else do {
                      w \<leftarrow> store state 0 valuestring w;
                      w \<leftarrow> store state state_len [NUL] w;
                      Some (state, w)
                    }
                  }
      })"

definition validate_content_type :: "ptr \<Rightarrow> 'e world \<Rightarrow> 'e world option" where
  "validate_content_type response w =
     (if response = NULL then Some w
      else do {
        (content_type, w) \<leftarrow> get_content_type response w;
        w \<leftarrow> (if content_type = NULL then
                logger LOG_WARNING
                  (''No content-type given. Guessing \"application/json\"'' @ [LF]) [] w
              else do {
                ct \<leftarrow> cstr content_type w;
                if ct \<noteq> ''application/json'' then
                  logger LOG_WARNING
                    (''Expected content-type is \"application/json\", got \"%s\"'' @ [LF])
                    [AStr content_type] w
                else Some w
              });
        free content_type w
      })"

section \<open>request_key\<close>

definition sleep :: "'e lib \<Rightarrow> nat \<Rightarrow> 'e world \<Rightarrow> 'e world" where
  "sleep L n w = emit (Sleep n) (w\<lparr>ext := lib_sleep L n (ext w)\<rparr>)"

text \<open>
  The do-while loop. It goes on as long as the server answers with \<^verbatim>\<open>PENDING\<close>, so it takes fuel: the
  number of requests it may make. The result \<open>None\<close> says that they were used up.
\<close>

fun poll :: "'e lib \<Rightarrow> cjson \<Rightarrow> nat \<Rightarrow> request \<Rightarrow> ptr \<Rightarrow> 'e world \<Rightarrow> (ptr option, 'e) res" where
  "poll L J 0 request request_state w = Some (None, w)"
| "poll L J (Suc fuel) request request_state w = do {
     w \<leftarrow> (if request_state \<noteq> NULL then do { w \<leftarrow> free request_state w; Some (sleep L 1 w) }
           else Some w);
     (response, w) \<leftarrow> create_response w;
     (_, w) \<leftarrow> https_hmac_GET L request response w;
     (request_state, w) \<leftarrow> get_request_state J response w;
     w \<leftarrow> free_response response w;
     if request_state = NULL then Some (Some NULL, w)
     else do {
       s \<leftarrow> cstr request_state w;
       if s = ''PENDING'' then poll L J fuel request request_state w
       else Some (Some request_state, w)
     }
   }"

definition fulfilled_body :: string where
  "fulfilled_body = ''{\"state\": \"FULFILLED\"}''"

text \<open>The end of the function: the request was accepted.\<close>

definition fetch_key ::
  "'e lib \<Rightarrow> 'e dispatch \<Rightarrow> arguments \<Rightarrow> request \<Rightarrow> int \<Rightarrow> 'e world \<Rightarrow> (unlocked_err option, 'e) res" where
  "fetch_key L D args request request_id w = do {
     (response, w) \<leftarrow> create_response w;
     (url, w) \<leftarrow> get_show_request_url (arg_host args) request_id w;
     let request = request\<lparr>req_body := Lit fulfilled_body, req_url := url\<rparr>;
     if url = NULL then Some (Some UL_MALLOC, w)
     else do {
       (_, w) \<leftarrow> https_hmac_PATCH L request response w;
       w \<leftarrow> free (req_url request) w;
       let w = cleanup_https_client w;
       r \<leftarrow> response_of response w;
       (key, w) \<leftarrow> strdup (resp_body r) w;
       w \<leftarrow> free_response response w;
       if key = NULL then Some (Some UL_MALLOC, w)
       else do {
         k \<leftarrow> cstr key w;
         w \<leftarrow> (if length k = 0 then None else store key (length k - 1) [NUL] w);
         (err, w) \<leftarrow> handle_success D key w;
         w \<leftarrow> free key w;
         Some (Some err, w)
       }
     }
   }"

text \<open>The middle: the request was created.\<close>

definition await_key ::
  "'e lib \<Rightarrow> cjson \<Rightarrow> 'e dispatch \<Rightarrow> nat \<Rightarrow> arguments \<Rightarrow> request \<Rightarrow> int \<Rightarrow> 'e world \<Rightarrow>
   (unlocked_err option, 'e) res" where
  "await_key L J D fuel args request request_id w = do {
     (url, w) \<leftarrow> get_show_request_url (arg_host args) request_id w;
     let request = request\<lparr>req_url := url\<rparr>;
     if url = NULL then Some (Some UL_MALLOC, w)
     else do {
       (polled, w) \<leftarrow> poll L J fuel request NULL w;
       case polled of
         None \<Rightarrow> Some (None, w)
       | Some request_state \<Rightarrow> do {
           w \<leftarrow> free (req_url request) w;
           if request_state = NULL then do {
             w \<leftarrow> logger LOG_ERROR (''Could not determine state of request %d'' @ [LF]) [AInt request_id] w;
             Some (Some UL_ERR, cleanup_https_client w)
           }
           else do {
             s \<leftarrow> cstr request_state w;
             if s = ''DENIED'' then do { w \<leftarrow> free request_state w; Some (Some UL_DENIED, w) }
             else if s \<noteq> ''ACCEPTED'' then do {
               w \<leftarrow> logger LOG_ERROR (''Unexpected state for request %d: \"%s\"'' @ [LF])
                     [AInt request_id, AStr request_state] w;
               w \<leftarrow> free request_state w;
               Some (Some UL_ERR, w)
             }
             else do {
               w \<leftarrow> free request_state w;
               fetch_key L D args request request_id w
             }
           }
         }
     }
   }"

text \<open>The switch on the status of the first response, and what follows it.\<close>

definition check_created ::
  "'e lib \<Rightarrow> cjson \<Rightarrow> 'e dispatch \<Rightarrow> nat \<Rightarrow> arguments \<Rightarrow> request \<Rightarrow> ptr \<Rightarrow> 'e world \<Rightarrow>
   (unlocked_err option, 'e) res" where
  "check_created L J D fuel args request response w = do {
     r \<leftarrow> response_of response w;
     if resp_status r = 401 then do {
       w \<leftarrow> logger LOG_ERROR (''Authentication against the server failed. '' @
             ''Maybe the user or secret are incorrect?'' @ [LF]) [] w;
       w \<leftarrow> free_response response w;
       Some (Some UL_ERR, w)
     }
     else if resp_status r \<noteq> 201 then do {
       w \<leftarrow> logger LOG_ERROR (''Communication with the server failed with code %ld.'' @ [LF])
             [AInt (resp_status r)] w;
       w \<leftarrow> free_response response w;
       Some (Some UL_ERR, w)
     }
     else do {
       w \<leftarrow> validate_content_type response w;
       (request_id, w) \<leftarrow> get_request_id J response w;
       w \<leftarrow> free_response response w;
       await_key L J D fuel args request request_id w
     }
   }"

text \<open>
  \<^verbatim>\<open>request_key\<close>, with the fuel of its loop. The result \<open>None\<close> says that the server was still asked to
  wait when the fuel was used up. The results of \<^verbatim>\<open>init_https_client\<close> and of the three requests are
  dropped, as the code drops them.
\<close>

definition request_key ::
  "'e lib \<Rightarrow> cjson \<Rightarrow> 'e dispatch \<Rightarrow> nat \<Rightarrow> ptr \<Rightarrow> 'e world \<Rightarrow> (unlocked_err option, 'e) res" where
  "request_key L J D fuel arguments w = do {
     (response, w) \<leftarrow> create_response w;
     args \<leftarrow> arguments_of arguments w;
     w \<leftarrow> logger LOG_DEBUG (''Requesting the key \"%s\" from the host \"%s\"'' @ [LF])
           [AStr (arg_key_handle args), AStr (arg_host args)] w;
     (body, w) \<leftarrow> get_key_request_body (arg_key_handle args) w;
     if body = NULL then Some (Some UL_MALLOC, w)
     else do {
       (url, w) \<leftarrow> get_key_request_url (arg_host args) w;
       if url = NULL then do { w \<leftarrow> free body w; Some (Some UL_MALLOC, w) }
       else do {
         let request = \<lparr>req_body = body, req_port = arg_port args, req_secret = arg_secret args,
                        req_skip_validation = (arg_validate args = No), req_url = url,
                        req_username = arg_username args\<rparr>;
         let (_, w) = init_https_client L w;
         (_, w) \<leftarrow> https_hmac_POST L request response w;
         w \<leftarrow> free body w;
         w \<leftarrow> free url w;
         let request = request\<lparr>req_body := NULL, req_url := NULL\<rparr>;
         check_created L J D fuel args request response w
       }
     }
   }"

end
