(* ===== verification/Client_Protocol.thy ===== *)
theory Client_Protocol
  imports Client Module_Set
begin

text \<open>
  What \<^verbatim>\<open>client.c\<close> promises: the texts it formats, what it reads from a response, and the order of
  the requests as a relation on the observable events. The main lemma is a refinement: with memory,
  a clock and a server that answers, every run of \<^verbatim>\<open>request_key\<close> is a run of that protocol.
\<close>

section \<open>Texts\<close>

definition request_body_text :: "string \<Rightarrow> string" where
  "request_body_text handle = ''{\"key\": \"'' @ handle @ ''\"}''"

definition requests_url :: "string \<Rightarrow> string" where
  "requests_url host = ''https://'' @ host @ ''/api/requests''"

definition show_url :: "string \<Rightarrow> int \<Rightarrow> string" where
  "show_url host i = ''https://'' @ host @ ''/api/requests/'' @ show_int i"

lemma print_alloc_eq:
  assumes "world_wf w" "format fmt as w = Some s" "length s \<le> int_max"
  shows "print_alloc fmt as w = Some (alloc_str s w)"
proof -
  have n: "snprintf_len fmt as w = Some (int (length s))" "nat (int (length s) + 1) = length s + 1"
    using assms by (simp_all add: snprintf_len_def printed_len_def)
  show ?thesis
    by (simp only: print_alloc_def n Option.bind.simps print_into_fresh_buffer [OF assms])
qed

lemma format_body:
  "cstr p w = Some s \<Longrightarrow> format ''{\"key\": \"%s\"}'' [AStr p] w = Some (request_body_text s)"
  by (cases "p = NULL") (simp_all add: request_body_text_def)

lemma format_requests_url:
  "cstr p w = Some s \<Longrightarrow> format ''https://%s/api/requests'' [AStr p] w = Some (requests_url s)"
  by (cases "p = NULL") (simp_all add: requests_url_def)

lemma format_show_url:
  assumes "cstr p w = Some s" "- 2147483648 \<le> i" "i \<le> 2147483647"
  shows "format ''https://%s/api/requests/%d'' [AStr p, AInt i] w = Some (show_url s i)"
  using assms by (cases "p = NULL") (simp_all add: show_url_def stb31)

lemma key_request_body_eq:
  "world_wf w \<Longrightarrow> cstr p w = Some s \<Longrightarrow> length (request_body_text s) \<le> int_max \<Longrightarrow>
   get_key_request_body p w = Some (alloc_str (request_body_text s) w)"
  unfolding get_key_request_body_def by (intro print_alloc_eq format_body)

lemma key_request_url_eq:
  "world_wf w \<Longrightarrow> cstr p w = Some s \<Longrightarrow> length (requests_url s) \<le> int_max \<Longrightarrow>
   get_key_request_url p w = Some (alloc_str (requests_url s) w)"
  unfolding get_key_request_url_def by (intro print_alloc_eq format_requests_url)

lemma show_request_url_eq:
  "world_wf w \<Longrightarrow> cstr p w = Some s \<Longrightarrow> - 2147483648 \<le> i \<Longrightarrow> i \<le> 2147483647 \<Longrightarrow>
   length (show_url s i) \<le> int_max \<Longrightarrow>
   get_show_request_url p i w = Some (alloc_str (show_url s i) w)"
  unfolding get_show_request_url_def by (intro print_alloc_eq format_show_url)

lemma texts_no_nul:
  assumes "cstr p w = Some s"
  shows "NUL \<notin> set (request_body_text s)" "NUL \<notin> set (requests_url s)" "NUL \<notin> set (show_url s i)"
  using cstr_no_nul [OF assms] by (simp_all add: request_body_text_def requests_url_def show_url_def)

text \<open>A routine with the effect \<open>alloc_str\<close> keeps the contract of a string builder.\<close>

lemma string_builder_alloc:
  assumes "\<And>w. world_wf w \<Longrightarrow> pre w \<Longrightarrow> build w = Some (alloc_str s w)" "\<And>w. pre w \<Longrightarrow> NUL \<notin> set s"
  shows "string_builder build pre (\<lambda>_. s)"
  by unfold_locales (use assms in \<open>auto simp: alloc_str_ex dest: alloc_str_NULL\<close>)

interpretation request_body: string_builder
  "get_key_request_body p"
  "\<lambda>w. cstr p w = Some s \<and> length (request_body_text s) \<le> int_max"
  "\<lambda>_. request_body_text s" for p s
  by (rule string_builder_alloc) (elim conjE, rule key_request_body_eq texts_no_nul; assumption)+

interpretation request_url: string_builder
  "get_key_request_url p"
  "\<lambda>w. cstr p w = Some s \<and> length (requests_url s) \<le> int_max"
  "\<lambda>_. requests_url s" for p s
  by (rule string_builder_alloc) (elim conjE, rule key_request_url_eq texts_no_nul; assumption)+

interpretation show_request_url: string_builder
  "get_show_request_url p i"
  "\<lambda>w. cstr p w = Some s \<and> - 2147483648 \<le> i \<and> i \<le> 2147483647 \<and> length (show_url s i) \<le> int_max"
  "\<lambda>_. show_url s i" for p s i
  by (rule string_builder_alloc) (elim conjE, rule show_request_url_eq texts_no_nul; assumption)+

section \<open>Reading a response\<close>

text \<open>The body as a C string: up to the first terminator in the received text and its line feed.\<close>

definition c_text :: "string option \<Rightarrow> string option" where
  "c_text body = map_option (\<lambda>s. takeWhile (\<lambda>c. c \<noteq> NUL) (s @ [LF])) body"

lemma c_text_plain: "NUL \<notin> set s \<Longrightarrow> c_text (Some s) = Some (s @ [LF])"
  by (simp add: c_text_def takeWhile_eq_all_conv) (metis)

lemma scan_body: "scan (map Some (s @ [LF, NUL])) = Some (takeWhile (\<lambda>c. c \<noteq> NUL) (s @ [LF]))"
  using scan_cut [of "s @ [LF]" "[]"] by simp

lemma body_of_resp:
  assumes "resp_inv h p body hs w"
  shows "body_of (Ptr p) w = Some (c_text body)"
proof -
  obtain r where r: "heap w p = Some (Response r)" "body_rep r body w"
    using assms resp_invD by blast
  then have "response_of (Ptr p) w = Some r" by (simp add: response_of_def deref_def)
  then show ?thesis
    using r(2) scan_body
    by (cases body) (auto simp: body_of_def setopt_string_def c_text_def cstr_Ptr)
qed

definition json_ok :: "cjson \<Rightarrow> bool" where
  "json_ok J \<longleftrightarrow> (\<forall>body json key it s.
     json_parse J body = Some json \<and> json key = Some it \<and> item_string it = Some s \<longrightarrow>
       NUL \<notin> set s \<and> length s < ptrdiff_max)"

text \<open>The state and the id that a body names.\<close>

definition state_in :: "cjson \<Rightarrow> string option \<Rightarrow> string option" where
  "state_in J body = do {
     json \<leftarrow> json_parse J (c_text body);
     it \<leftarrow> json ''state'';
     if item_is_string it then item_string it else None
   }"

definition id_in :: "cjson \<Rightarrow> string option \<Rightarrow> int option" where
  "id_in J body =
     (case json_parse J (c_text body) of
        None \<Rightarrow> Some 0
      | Some json \<Rightarrow>
          case json ''id'' of
            None \<Rightarrow> Some 0
          | Some it \<Rightarrow> if item_is_number it then int_of_double (item_double it) else Some 0)"

lemma resp_inv_logger:
  "logger level fmt as w = Some w' \<Longrightarrow> resp_inv h p body hs w \<Longrightarrow> resp_inv h p body hs w'"
  using loggerD by (fastforce intro: resp_inv_cong)

lemma log_ok:
  assumes "format fmt as w \<noteq> None" "resp_inv h p body hs w"
  shows "\<exists>w'. logger level fmt as w = Some w' \<and> resp_inv h p body hs w' \<and> did [] w w' \<and> ext w' = ext w"
proof -
  obtain w' where "logger level fmt as w = Some w'" using logger_defined assms(1) by blast
  then show ?thesis
    using assms(2) resp_inv_logger did_logger logger_frame(4) by blast
qed

lemma log_parse_error_ok:
  assumes "resp_inv h p body hs w"
  shows "\<exists>w'. log_parse_error J b w = Some w' \<and> resp_inv h p body hs w' \<and> did [] w w' \<and> ext w' = ext w"
proof -
  have "cstr (Lit s) w \<noteq> None" for s
    using scan_cut [of s "[]"] by (simp add: cstr_def)
  then show ?thesis
    unfolding log_parse_error_def using log_ok [OF _ assms]
    by (cases "json_error J b") (auto split: option.splits)
qed

lemma get_request_id_spec:
  assumes inv: "resp_inv h p body hs w" and i: "id_in J body = Some i"
  shows "\<exists>w'. get_request_id J (Ptr p) w = Some (i, w') \<and> resp_inv h p body hs w' \<and>
    did [] w w' \<and> ext w' = ext w"
proof -
  note b = body_of_resp [OF inv]
  show ?thesis
  proof (cases "json_parse J (c_text body)")
    case None
    with i b log_parse_error_ok [OF inv, of J "c_text body"] show ?thesis
      by (auto simp: get_request_id_def id_in_def)
  next
    case json: (Some json)
    show ?thesis
    proof (cases "\<exists>it. json ''id'' = Some it \<and> item_is_number it")
      case True
      then show ?thesis using i b json inv by (auto simp: get_request_id_def id_in_def)
    next
      case False
      with i json have "i = 0" by (auto simp: id_in_def split: option.splits)
      with False json b
        log_ok [OF _ inv, of "''Key \"id\" not found'' @ [LF]" "[]" LOG_ERROR]
        log_ok [OF _ inv, of "''Value of key \"id\" is not numeric'' @ [LF]" "[]" LOG_ERROR]
      show ?thesis by (cases "json ''id''") (auto simp: get_request_id_def)
    qed
  qed
qed

lemma get_request_id_undefined:
  assumes inv: "resp_inv h p body hs w" and i: "id_in J body = None"
  shows "get_request_id J (Ptr p) w = None"
  using i body_of_resp [OF inv] by (auto simp: get_request_id_def id_in_def split: option.splits if_splits)

text \<open>The state as a fresh string.\<close>

lemma alloc_str_memory:
  assumes "world_wf w" "\<forall>n. alloc_ok w n"
  shows "\<exists>b w'. alloc_str s w = (Ptr b, w') \<and> fresh_str s w (Ptr b) w' \<and> heap_only w w'"
  using assms alloc_str_fresh [OF assms(1), of s]
  by (simp add: alloc_str_def heap_only_def)

lemma get_request_state_spec:
  fixes w :: "'e world"
  assumes inv: "resp_inv h p body hs w" and mem: "\<forall>n. alloc_ok w n" and J: "json_ok J"
  shows "\<exists>q w'. get_request_state J (Ptr p) w = Some (q, w') \<and> did [] w w' \<and> ext w' = ext w \<and>
    (case state_in J body of
       None \<Rightarrow> q = NULL \<and> resp_inv h p body hs w'
     | Some s \<Rightarrow> \<exists>b. q = Ptr b \<and> NUL \<notin> set s \<and> h b = None \<and> resp_inv (h(b \<mapsto> str_obj s)) p body hs w')"
proof -
  note b = body_of_resp [OF inv]
  consider "json_parse J (c_text body) = None"
    | json where "json_parse J (c_text body) = Some json" "json ''state'' = None"
    | json it where "json_parse J (c_text body) = Some json" "json ''state'' = Some it"
        "(if item_is_string it then item_string it else None) = None"
    | json it s where "json_parse J (c_text body) = Some json" "json ''state'' = Some it"
        "item_is_string it" "item_string it = Some s"
    by (metis option.exhaust)
  then show ?thesis
  proof cases
    case 1
    with b log_parse_error_ok [OF inv, of J "c_text body"] show ?thesis
      by (auto simp: get_request_state_def state_in_def)
  next
    case 2
    with b log_ok [OF _ inv, of "''Key \"state\" not found'' @ [LF]" "[]" LOG_ERROR] show ?thesis
      by (auto simp: get_request_state_def state_in_def)
  next
    case 3
    with b log_ok [OF _ inv, of "''Value of key \"state\" is not a string'' @ [LF]" "[]" LOG_ERROR]
    show ?thesis by (auto simp: get_request_state_def state_in_def)
  next
    case (4 json it s)
    then have s: "NUL \<notin> set s" "length s < ptrdiff_max" using J by (auto simp: json_ok_def)
    have wf: "world_wf w" using inv resp_invD by blast
    obtain c w' where w': "alloc_str s w = (Ptr c, w')" "fresh_str s w (Ptr c) w'" "heap_only w w'"
      using alloc_str_memory [OF wf mem] by blast
    let ?b = "brk w"
    let ?w = "w\<lparr>brk := Suc (brk w), heap := (heap w)(brk w \<mapsto> Chars (replicate (length s + 1) None))\<rparr>"
    have size: "size_t (length s + 1) = length s + 1" "length s + 1 \<le> ptrdiff_max"
      using s(2) by simp_all
    have m: "malloc (length s + 1) w = Some (Ptr ?b, ?w)"
      using mem size(2) by (simp add: malloc_small new_block_def del: replicate.simps)
    have fill: "do { w \<leftarrow> store (Ptr ?b) 0 s ?w; w \<leftarrow> store (Ptr ?b) (length s) [NUL] w; K w } =
        K (w\<lparr>brk := Suc (brk w), heap := (heap w)(brk w \<mapsto> str_obj s)\<rparr>)"
      for K :: "'e world \<Rightarrow> (ptr, 'e) res"
      by (subst fill_string) simp_all
    have a: "Some (alloc_str s w) = Some (Ptr (brk w), w\<lparr>brk := Suc (brk w), heap := (heap w)(brk w \<mapsto> str_obj s)\<rparr>)"
      using mem by (simp add: alloc_str_def)
    have "get_request_state J (Ptr p) w = do {
        (state, w) \<leftarrow> malloc (size_t (length s + 1)) w;
        if state = NULL then Some (NULL, w)
        else do { w \<leftarrow> store state 0 s w; w \<leftarrow> store state (length s) [NUL] w; Some (state, w) }
      }"
      using 4 b by (simp add: get_request_state_def Let_def)
    also have "\<dots> = Some (alloc_str s w)"
      unfolding a by (simp only: size(1) m Option.bind.simps prod.case ptr.distinct if_False fill)
    finally have run: "get_request_state J (Ptr p) w = Some (Ptr c, w')" using w'(1) by simp
    moreover have "did [] w w'" "ext w' = ext w"
      using did_heap_only [OF w'(3)] w'(3) by (simp_all add: heap_only_frame)
    moreover have "state_in J body = Some s" using 4 by (simp add: state_in_def)
    ultimately show ?thesis using resp_inv_fresh [OF inv w'(2)] s by auto
  qed
qed

section \<open>The content type of a response\<close>

text \<open>The value that \<^verbatim>\<open>get_content_type\<close> can handle: any but one of a single character.\<close>

definition content_type_ok :: "string list \<Rightarrow> bool" where
  "content_type_ok hs \<longleftrightarrow>
     (case find is_content_type hs of None \<Rightarrow> True | Some h \<Rightarrow> length (content_type_value h) \<noteq> 1)"

lemma get_content_type_eq:
  assumes inv: "resp_inv h p body hs w" and hs: "c_strings hs" "list_all (\<lambda>h. length h \<le> int_max) hs"
  shows "get_content_type (Ptr p) w =
    (case find is_content_type hs of
       None \<Rightarrow> Some (NULL, w)
     | Some h \<Rightarrow> content_type_result (content_type_value h) w)"
proof -
  obtain r where "heap w p = Some (Response r)" "slist_of (resp_headers r) w = Some hs"
    using resp_invD [OF inv] by blast
  then show ?thesis
    by (simp add: get_content_type_def response_of_def deref_def content_type_loop_eq [OF hs])
qed

lemma validate_content_type_spec:
  assumes inv: "resp_inv h p body hs w" and mem: "\<forall>n. alloc_ok w n"
    and hs: "c_strings hs" "list_all (\<lambda>h. length h \<le> int_max) hs" and ok: "content_type_ok hs"
  shows "\<exists>w'. validate_content_type (Ptr p) w = Some w' \<and> resp_inv h p body hs w' \<and>
    did [] w w' \<and> ext w' = ext w"
proof -
  have wf: "world_wf w" using inv resp_invD by blast
  let ?fmt = "''No content-type given. Guessing \"application/json\"'' @ [LF]"
  let ?fmt2 = "''Expected content-type is \"application/json\", got \"%s\"'' @ [LF]"
  have inv': "resp_inv h p body hs (w\<lparr>brk := Suc (brk w)\<rparr>)"
    by (rule resp_inv_heap [OF inv]) (use wf in \<open>simp_all add: world_wf_def\<close>)
  consider (missing) w1 where "get_content_type (Ptr p) w = Some (NULL, w1)" "resp_inv h p body hs w1"
      "did [] w w1" "ext w1 = ext w"
    | (found) v where "get_content_type (Ptr p) w = Some (alloc_str (lower (take (length v - 2) v)) w)" "NUL \<notin> set v"
  proof (cases "find is_content_type hs")
    case None
    then show ?thesis using that(1) [of w] inv by (simp add: get_content_type_eq [OF inv hs])
  next
    case (Some x)
    then have "x \<in> set hs" by (auto simp: find_Some_iff)
    then have nul: "NUL \<notin> set (content_type_value x)"
      using hs(1) by (auto simp: list_all_iff content_type_value_def dest!: set_dropWhileD in_set_dropD)
    show ?thesis
    proof (cases "content_type_value x = []")
      case True
      with Some inv' show ?thesis
        using that(1) [of "w\<lparr>brk := Suc (brk w)\<rparr>"]
        by (simp add: get_content_type_eq [OF inv hs] content_type_result_def)
    next
      case False
      with Some ok nul show ?thesis
        using that(2) [of "content_type_value x"]
        by (simp add: get_content_type_eq [OF inv hs] content_type_result_def content_type_ok_def)
    qed
  qed
  then show ?thesis
  proof cases
    case missing
    obtain w2 where w2: "logger LOG_WARNING ?fmt [] w1 = Some w2" "resp_inv h p body hs w2"
        "did [] w1 w2" "ext w2 = ext w1"
      using log_ok [OF _ missing(2), of ?fmt "[]" LOG_WARNING] by auto
    then show ?thesis
      using missing did_trans [OF missing(3) w2(3)] by (simp add: validate_content_type_def)
  next
    case found
    let ?s = "lower (take (length v - 2) v)"
    have nul: "NUL \<notin> set ?s" using found(2) by (intro lower_no_nul) (auto dest: in_set_takeD)
    obtain b w1 where w1: "alloc_str ?s w = (Ptr b, w1)" "fresh_str ?s w (Ptr b) w1" "heap_only w w1"
      using alloc_str_memory [OF wf mem] by blast
    note inv1 = resp_inv_fresh [OF inv w1(2)]
    have c: "cstr (Ptr b) w1 = Some ?s" using w1(2) nul by (auto elim!: fresh_str_cases)
    obtain w2 where w2: "logger LOG_WARNING ?fmt2 [AStr (Ptr b)] w1 = Some w2"
        "resp_inv (h(b \<mapsto> str_obj ?s)) p body hs w2" "did [] w1 w2" "ext w2 = ext w1"
      using log_ok [OF _ inv1(1), of ?fmt2 "[AStr (Ptr b)]" LOG_WARNING] c by auto
    define w3 where "w3 = (if ?s \<noteq> ''application/json'' then w2 else w1)"
    have w3: "resp_inv (h(b \<mapsto> str_obj ?s)) p body hs w3" "did [] w1 w3" "ext w3 = ext w1"
      using w2 inv1(1) by (simp_all add: w3_def)
    note drop = resp_inv_drop [OF w3(1) inv1(2)]
    have run: "validate_content_type (Ptr p) w = free (Ptr b) w3"
      using found(1) w1(1) c w2(1) by (simp add: validate_content_type_def w3_def)
    have "did [] w w3" using did_trans [OF did_heap_only [OF w1(3)] w3(2)] by simp
    moreover have "ext w3 = ext w" using w3(3) w1(3) by (simp add: heap_only_frame)
    ultimately show ?thesis
      using run drop(1,2) by (simp add: free_Ptr [OF drop(1)])
  qed
qed

lemma validate_content_type_undefined:
  assumes inv: "resp_inv h p body hs w" and mem: "\<forall>n. alloc_ok w n"
    and hs: "c_strings hs" "list_all (\<lambda>h. length h \<le> int_max) hs"
    and bad: "\<not> content_type_ok hs"
  shows "validate_content_type (Ptr p) w = None"
proof -
  obtain h where "find is_content_type hs = Some h" "length (content_type_value h) = 1"
    using bad by (auto simp: content_type_ok_def split: option.splits)
  then show ?thesis
    using mem by (simp add: validate_content_type_def get_content_type_eq [OF inv hs] content_type_result_def)
qed

section \<open>A server that answers\<close>

text \<open>
  \<open>healthy L\<close>: memory, the digest and the clock work in libcurl and OpenSSL, a handle can be made,
  and what a server sends fits in memory. Nothing is said about which answers a server gives.
\<close>

definition answer_fits :: "transfer \<Rightarrow> bool" where
  "answer_fits t \<longleftrightarrow>
     list_all header_fits (tr_data t) \<and>
     length (body_text (received_body (tr_data t) None)) + 2 < ptrdiff_max"

definition healthy :: "'e lib \<Rightarrow> bool" where
  "healthy L \<longleftrightarrow>
     lib_ok L \<and> (\<forall>n xs s. lib_slist_append L n xs s = Some (xs @ [s])) \<and>
     (\<forall>k m. lib_hmac L k m \<noteq> None) \<and> (\<forall>x. \<exists>tm y. clock_at L x tm y) \<and>
     (\<forall>x. fst (lib_easy_init L x)) \<and> (\<forall>e x. answer_fits (fst (lib_perform L e x)))"

definition answered :: "'e lib \<Rightarrow> transfer \<Rightarrow> bool" where
  "answered L t \<longleftrightarrow> (\<exists>e x. fst (lib_perform L e x) = t)"

lemma answered_fits: "healthy L \<Longrightarrow> answered L t \<Longrightarrow> answer_fits t"
  by (auto simp: healthy_def answered_def)

text \<open>
  What is left of the outside after one signed request, and the answer to it: the clock is read,
  a handle is made and performed.
\<close>

definition round_trip :: "'e lib \<Rightarrow> easy \<Rightarrow> 'e \<Rightarrow> transfer \<times> 'e" where
  "round_trip L e x = lib_perform L e (snd (lib_easy_init L (snd (lib_time L x))))"

lemma round_trip_answered: "round_trip L e x = (t, y) \<Longrightarrow> answered L t"
  unfolding round_trip_def answered_def by (metis fst_conv)

text \<open>
  A trace is genuine when each answer in it is the one the outside gives at that point; \<open>after\<close> is the
  outside behind it. The events of the modules are the end of a run, and not looked at.
\<close>

fun net :: "event \<Rightarrow> bool" where
  "net (Perform e t) = True"
| "net (Sleep n) = True"
| "net Curl_global_init = True"
| "net Curl_global_cleanup = True"
| "net _ = False"

fun after :: "'e lib \<Rightarrow> event \<Rightarrow> 'e \<Rightarrow> 'e" where
  "after L (Perform e t) x = snd (round_trip L e x)"
| "after L (Sleep n) x = lib_sleep L n x"
| "after L Curl_global_init x = snd (lib_global_init L x)"
| "after L _ x = x"

fun genuine :: "'e lib \<Rightarrow> event list \<Rightarrow> 'e \<Rightarrow> bool" where
  "genuine L [] x = True"
| "genuine L (ev # es) x \<longleftrightarrow>
     \<not> net ev \<or> (\<forall>e t. ev = Perform e t \<longrightarrow> fst (round_trip L e x) = t) \<and> genuine L es (after L ev x)"

lemma genuine_append:
  "list_all net es \<Longrightarrow> genuine L (es @ fs) x \<longleftrightarrow> genuine L es x \<and> genuine L fs (fold (after L) es x)"
  by (induction es arbitrary: x) auto

lemma genuine_answer:
  "genuine L (pre @ Perform e t # rest) x \<Longrightarrow> list_all net pre \<Longrightarrow> \<exists>y. fst (round_trip L e y) = t"
  by (auto simp: genuine_append)

text \<open>\<open>does L es w w'\<close>: the actions \<open>es\<close> were performed, and the outside is as they leave it.\<close>

definition does :: "'e lib \<Rightarrow> event list \<Rightarrow> 'e world \<Rightarrow> 'e world \<Rightarrow> bool" where
  "does L es w w' \<longleftrightarrow>
     did es w w' \<and> list_all net es \<and> genuine L es (ext w) \<and> ext w' = fold (after L) es (ext w)"

lemma does_nil: "does L [] w w' \<longleftrightarrow> did [] w w' \<and> ext w' = ext w"
  by (auto simp: does_def)

lemma does_trans: "does L es w w' \<Longrightarrow> does L fs w' w'' \<Longrightarrow> does L (es @ fs) w w''"
  by (auto simp: does_def genuine_append intro: did_trans)

lemma does_nothing: "does L [] w w' \<Longrightarrow> does L es w' w'' \<Longrightarrow> does L es w w''"
  using does_trans [of L "[]"] by simp

lemma does_did: "does L es w w' \<Longrightarrow> did es w w'"
  by (simp add: does_def)

lemma does_genuine: "does L es w w' \<Longrightarrow> genuine L fs (ext w') \<Longrightarrow> genuine L (es @ fs) (ext w)"
  by (simp add: does_def genuine_append)

lemma does_run: "does L es w w' \<Longrightarrow> did es w w' \<and> genuine L es (ext w)"
  by (simp add: does_def)

lemmas does_frame = did_frame [OF does_did]

lemma does_heap_only: "heap_only w w' \<Longrightarrow> does L [] w w'"
  by (simp add: does_nil did_heap_only heap_only_frame)

lemma does_logger: "logger level fmt as w = Some w' \<Longrightarrow> does L [] w w'"
  by (simp add: does_nil did_logger logger_frame)

lemma does_upd [simp]:
  "does L es w (w'\<lparr>heap := h\<rparr>) = does L es w w'" "does L es w (w'\<lparr>brk := n\<rparr>) = does L es w w'"
  by (simp_all add: does_def)

lemma does_cleanup: "does L [Curl_global_cleanup] w (cleanup_https_client w)"
  using did_emit [of Curl_global_cleanup w] by (simp add: does_def cleanup_https_client_def) (simp add: emit_def)

text \<open>What a transfer asks of the server.\<close>

definition asked :: "easy \<Rightarrow> string \<Rightarrow> string option \<Rightarrow> string option \<Rightarrow> bool" where
  "asked e url body method \<longleftrightarrow>
     opt_url e = Some url \<and> opt_postfields e = body \<and> opt_customrequest e = method"

abbreviation short :: "string \<Rightarrow> bool" where
  "short s \<equiv> length s \<le> 1000000"

lemma length_auth_text: "length (auth_text u hs d) \<le> 200 + length u + length (join_names hs) + 2 * length d"
  by (simp add: auth_text_def)

lemma length_header_name: "length (header_name h) \<le> length h"
  by (simp add: header_name_def length_takeWhile_le)

text \<open>
  How a request is signed: its first header is the date, its second one the authorization with the
  HMAC of the date header and the body under the secret.
\<close>

definition signed :: "'e lib \<Rightarrow> easy \<Rightarrow> string \<Rightarrow> string \<Rightarrow> string \<Rightarrow> string list \<Rightarrow> bool" where
  "signed L e u k bd extra \<longleftrightarrow>
     (\<exists>tm d. tm_ok tm \<and> lib_hmac L k (signed_data [date_text tm] bd) = Some d \<and>
        opt_httpheader e = [date_text tm, auth_text u [date_text tm] d] @ extra)"

text \<open>The certificate of the server is not checked.\<close>

definition unverified :: "easy \<Rightarrow> bool" where
  "unverified e \<longleftrightarrow> opt_ssl_verifypeer e = 0 \<and> opt_ssl_verifyhost e = 0"

lemma signed_request_full:
  fixes w :: "'e world"
  assumes L: "healthy L" and inv: "resp_inv h p None [] w" and mem: "\<forall>n. alloc_ok w n"
    and str: "cstr (req_username rq) w = Some u" "cstr (req_secret rq) w = Some k"
      "(if req_body rq \<noteq> NULL then cstr (req_body rq) w else Some []) = Some bd"
      "cstr (req_url rq) w = Some url" "setopt_string postfields w = Some pb"
    and len: "short u" "length bd \<le> 2000000"
    and rest: "c_strings extra" "format fmt as w \<noteq> None" "verb \<in> {''GET'', ''PATCH'', ''POST''}"
  shows "\<exists>e t w'. signed_request L fmt as extra verb postfields cr rq (Ptr p) w = Some (transfer_err t, w') \<and>
    resp_inv h p (received_body (tr_data t) None) (received_headers (tr_data t)) w' \<and>
    status_of (Ptr p) w' = Some (tr_response_code t) \<and> does L [Perform e t] w w' \<and>
    asked e url pb cr \<and> answered L t \<and> signed L e u k bd extra \<and> unverified e \<and> opt_port e = req_port rq"
proof -
  obtain tm x0 where clock: "clock_at L (ext w) tm x0" using L unfolding healthy_def by blast
  obtain x1 where init: "lib_easy_init L x0 = (True, x1)"
    using L by (metis healthy_def prod.collapse)
  obtain d where d: "lib_hmac L k (signed_data [date_text tm] bd) = Some d"
    using L by (metis healthy_def not_None_eq)
  have d64: "length d = 64" using L d lib_ok_hmac by (auto simp: healthy_def)
  have tm: "tm_ok tm" "length (date_text tm) = 35"
    using clock by (auto simp: clock_at_def dest: gmtime_ok(1) intro: date_text_ok(1) split: prod.splits)
  have "length (join_names [date_text tm]) \<le> 35"
    using length_header_name [of "date_text tm"] tm(2) unfolding join_names.simps by simp
  then have lens: "length bd + 36 < ptrdiff_max" "length (auth_text u [date_text tm] d) < int_max"
    using len d64 length_auth_text [of u "[date_text tm]" d] by (simp_all add: int_max_def ptrdiff_max_def)
  define e where "e = \<lparr>opt_url = Some url, opt_ssl_verifypeer = 0, opt_ssl_verifyhost = 0,
             opt_port = req_port rq,
             opt_httpheader = [date_text tm, auth_text u [date_text tm] d] @ extra,
             opt_postfields = pb, opt_customrequest = cr\<rparr>"
  obtain t x where t: "lib_perform L e x1 = (t, x)" by (metis surj_pair)
  have fits: "answer_fits t" using L t by (metis healthy_def fst_conv)
  have "request_pre L rq extra postfields cr None e t x w"
    unfolding request_pre_def
    using L mem clock str d lens init e_def t fits
    by (auto simp: memory_ok_def healthy_def answer_fits_def)
  from signed_request_spec [OF inv this rest] obtain w' where
    "signed_request L fmt as extra verb postfields cr rq (Ptr p) w = Some (transfer_err t, w')"
    "resp_inv h p (received_body (tr_data t) None) (received_headers (tr_data t)) w'"
    "status_of (Ptr p) w' = Some (tr_response_code t)" "did [Perform e t] w w'" "ext w' = x" by auto
  moreover have "round_trip L e (ext w) = (t, x)"
    using clock init t by (auto simp: round_trip_def clock_at_def split: prod.splits)
  moreover have "asked e url pb cr" by (simp add: asked_def e_def)
  moreover have "signed L e u k bd extra" using tm(1) d by (auto simp: signed_def e_def)
  moreover have "unverified e" "opt_port e = req_port rq" by (simp_all add: unverified_def e_def)
  moreover have "answered L t" using t by (metis answered_def fst_conv)
  ultimately show ?thesis unfolding does_def by fastforce
qed

lemma signed_request_ok:
  fixes w :: "'e world"
  assumes L: "healthy L" and inv: "resp_inv h p None [] w" and mem: "\<forall>n. alloc_ok w n"
    and str: "cstr (req_username rq) w = Some u" "cstr (req_secret rq) w = Some k"
      "(if req_body rq \<noteq> NULL then cstr (req_body rq) w else Some []) = Some bd"
      "cstr (req_url rq) w = Some url" "setopt_string postfields w = Some pb"
    and len: "short u" "length bd \<le> 2000000"
    and rest: "c_strings extra" "format fmt as w \<noteq> None" "verb \<in> {''GET'', ''PATCH'', ''POST''}"
  shows "\<exists>e t w'. signed_request L fmt as extra verb postfields cr rq (Ptr p) w = Some (transfer_err t, w') \<and>
    resp_inv h p (received_body (tr_data t) None) (received_headers (tr_data t)) w' \<and>
    status_of (Ptr p) w' = Some (tr_response_code t) \<and> does L [Perform e t] w w' \<and>
    asked e url pb cr \<and> answered L t"
  using signed_request_full [OF L inv mem str len rest] by blast

text \<open>The three requests, with the strings of the request in memory.\<close>

definition request_ready :: "request \<Rightarrow> string \<Rightarrow> string option \<Rightarrow> 'e world \<Rightarrow> bool" where
  "request_ready rq url body w \<longleftrightarrow>
     (\<forall>n. alloc_ok w n) \<and>
     (\<exists>u k. cstr (req_username rq) w = Some u \<and> short u \<and> cstr (req_secret rq) w = Some k) \<and>
     cstr (req_url rq) w = Some url \<and> setopt_string (req_body rq) w = Some body \<and>
     length (body_text body) \<le> 2000000"

lemma request_ready_mono:
  assumes "request_ready rq url body w" "heap w \<subseteq>\<^sub>m heap w'" "alloc_ok w' = alloc_ok w"
  shows "request_ready rq url body w'"
  using assms unfolding request_ready_def
  by (auto intro: cstr_mono setopt_string_mono)

lemma printable: "cstr p w = Some s \<Longrightarrow> (if p = NULL then Some ''(null)'' else cstr p w) = Some s"
  by auto

lemma https_hmac_GET_ok:
  assumes "healthy L" "resp_inv h p None [] w" "request_ready rq url None w"
  shows "\<exists>e t w'. https_hmac_GET L rq (Ptr p) w = Some (transfer_err t, w') \<and>
    resp_inv h p (received_body (tr_data t) None) (received_headers (tr_data t)) w' \<and>
    status_of (Ptr p) w' = Some (tr_response_code t) \<and> does L [Perform e t] w w' \<and>
    asked e url None None \<and> answered L t"
proof -
  have n: "req_body rq = NULL" using assms(3) by (auto simp: request_ready_def setopt_string_def split: if_splits)
  obtain u k where "cstr (req_username rq) w = Some u" "short u" "cstr (req_secret rq) w = Some k"
    using assms(3) by (auto simp: request_ready_def)
  with n assms(3) show ?thesis
    unfolding https_hmac_signed
    by (intro signed_request_ok [OF assms(1,2), where bd = "[]" and u = u and k = k])
      (auto simp: request_ready_def setopt_string_def accept_json_def printable)
qed

lemma https_hmac_body_ok:
  assumes "healthy L" "resp_inv h p None [] w" "request_ready rq url (Some bd) w"
  shows "\<exists>e t w'. https_hmac_POST L rq (Ptr p) w = Some (transfer_err t, w') \<and>
      resp_inv h p (received_body (tr_data t) None) (received_headers (tr_data t)) w' \<and>
      status_of (Ptr p) w' = Some (tr_response_code t) \<and> does L [Perform e t] w w' \<and>
      asked e url (Some bd) None \<and> answered L t"
    and "\<exists>e t w'. https_hmac_PATCH L rq (Ptr p) w = Some (transfer_err t, w') \<and>
      resp_inv h p (received_body (tr_data t) None) (received_headers (tr_data t)) w' \<and>
      status_of (Ptr p) w' = Some (tr_response_code t) \<and> does L [Perform e t] w w' \<and>
      asked e url (Some bd) (Some ''PATCH'') \<and> answered L t"
proof -
  have n: "req_body rq \<noteq> NULL" "cstr (req_body rq) w = Some bd"
    using assms(3) by (auto simp: request_ready_def setopt_string_def split: if_splits)
  obtain u k where uk: "cstr (req_username rq) w = Some u" "short u" "cstr (req_secret rq) w = Some k"
    using assms(3) by (auto simp: request_ready_def)
  note facts = n uk assms(3)
  show "\<exists>e t w'. https_hmac_POST L rq (Ptr p) w = Some (transfer_err t, w') \<and>
      resp_inv h p (received_body (tr_data t) None) (received_headers (tr_data t)) w' \<and>
      status_of (Ptr p) w' = Some (tr_response_code t) \<and> does L [Perform e t] w w' \<and>
      asked e url (Some bd) None \<and> answered L t"
    unfolding https_hmac_signed
    by (rule signed_request_ok [OF assms(1,2), where bd = bd and u = u and k = k])
      (use facts in \<open>auto simp: request_ready_def setopt_string_def accept_json_def content_json_def printable\<close>)
  show "\<exists>e t w'. https_hmac_PATCH L rq (Ptr p) w = Some (transfer_err t, w') \<and>
      resp_inv h p (received_body (tr_data t) None) (received_headers (tr_data t)) w' \<and>
      status_of (Ptr p) w' = Some (tr_response_code t) \<and> does L [Perform e t] w w' \<and>
      asked e url (Some bd) (Some ''PATCH'') \<and> answered L t"
    unfolding https_hmac_signed
    by (rule signed_request_ok [OF assms(1,2), where bd = bd and u = u and k = k])
      (use facts in \<open>auto simp: request_ready_def setopt_string_def accept_text_def content_json_def printable\<close>)
qed

section \<open>Polling\<close>

text \<open>
  The loop on the observable events: a request for the state, a second of sleep and so on, until
  the state is not \<^verbatim>\<open>PENDING\<close>. The last argument is that state, \<open>None\<close> when the answer has none.
\<close>

abbreviation answer_state :: "cjson \<Rightarrow> transfer \<Rightarrow> string option" where
  "answer_state J t \<equiv> state_in J (received_body (tr_data t) None)"

inductive polling :: "cjson \<Rightarrow> string \<Rightarrow> event list \<Rightarrow> string option \<Rightarrow> bool" for J url where
  Answered: "asked e url None None \<Longrightarrow> answer_state J t \<noteq> Some ''PENDING'' \<Longrightarrow>
    polling J url [Perform e t] (answer_state J t)"
| Pending: "asked e url None None \<Longrightarrow> answer_state J t = Some ''PENDING'' \<Longrightarrow> polling J url es st \<Longrightarrow>
    polling J url (Perform e t # Sleep 1 # es) st"

inductive_cases polling_NilE: "polling J url [] st"
inductive_cases polling_ConsE: "polling J url (a # es) st"
inductive_simps polling_simps: "polling J url (Perform e t # es) st"

text \<open>The fuel is used up: that many answers, all of them \<^verbatim>\<open>PENDING\<close>.\<close>

inductive waiting :: "cjson \<Rightarrow> string \<Rightarrow> nat \<Rightarrow> event list \<Rightarrow> bool" for J url where
  Out: "waiting J url 0 []"
| Last: "asked e url None None \<Longrightarrow> answer_state J t = Some ''PENDING'' \<Longrightarrow>
    waiting J url 1 [Perform e t]"
| More: "asked e url None None \<Longrightarrow> answer_state J t = Some ''PENDING'' \<Longrightarrow> waiting J url (Suc n) es \<Longrightarrow>
    waiting J url (Suc (Suc n)) (Perform e t # Sleep 1 # es)"

text \<open>The heap is \<open>g\<close>, and a string in one more block if there is one.\<close>

definition holds :: "(nat \<Rightarrow> obj option) \<Rightarrow> ptr \<Rightarrow> string option \<Rightarrow> 'e world \<Rightarrow> bool" where
  "holds g q st w \<longleftrightarrow>
     world_wf w \<and>
     (case st of
        None \<Rightarrow> q = NULL \<and> heap w = g
      | Some s \<Rightarrow> \<exists>b. q = Ptr b \<and> NUL \<notin> set s \<and> g b = None \<and> heap w = g(b \<mapsto> str_obj s))"

lemma holds_None [simp]: "holds g q None w \<longleftrightarrow> world_wf w \<and> q = NULL \<and> heap w = g"
  by (auto simp: holds_def)

lemma holds_free:
  assumes "holds g q st w"
  shows "\<exists>w'. free q w = Some w' \<and> world_wf w' \<and> heap w' = g \<and> heap_only w w'"
proof (cases st)
  case None
  with assms show ?thesis by simp
next
  case (Some s)
  with assms obtain b where b: "q = Ptr b" "g b = None" "heap w = g(b \<mapsto> str_obj s)" "world_wf w"
    by (auto simp: holds_def)
  let ?w' = "w\<lparr>heap := g\<rparr>"
  have "free q w = Some ?w'" using b(1,2,3) by (simp add: free_def fun_upd_idem)
  moreover have "world_wf ?w'" using b(2-4) by (auto simp: world_wf_def split: if_splits)
  ultimately show ?thesis by (simp add: heap_only_def)
qed

lemma holds_logger:
  assumes "holds g q st w" "logger level fmt as w = Some w'"
  shows "holds g q st w'"
proof -
  have "world_wf w'" using assms loggerD by (fastforce simp: holds_def world_wf_def)
  then show ?thesis using assms(1) logger_frame(1) [OF assms(2)] by (cases st) (simp_all add: holds_def)
qed

lemma holds_le: "holds g q st w \<Longrightarrow> g \<subseteq>\<^sub>m heap w"
  by (cases st) (auto simp: holds_def map_le_fresh)

lemma holds_cstr: "holds g q (Some s) w \<Longrightarrow> cstr q w = Some s"
  by (auto simp: holds_def)

text \<open>One turn: ask, read the state, free the response.\<close>

lemma poll_turn:
  assumes L: "healthy L" and J: "json_ok J" and wf: "world_wf w" and g: "heap w = g"
    and ready: "request_ready rq url None w"
  shows "\<exists>e t q w'. asked e url None None \<and> answered L t \<and> does L [Perform e t] w w' \<and>
    holds g q (answer_state J t) w' \<and>
    (\<forall>K. do {
       (response, w) \<leftarrow> create_response w;
       (_, w) \<leftarrow> https_hmac_GET L rq response w;
       (st, w) \<leftarrow> get_request_state J response w;
       w \<leftarrow> free_response response w;
       K st w
     } = (K q w' :: (ptr option, 'e) res))"
proof -
  have mem: "\<forall>n. alloc_ok w n" using ready by (simp add: request_ready_def)
  obtain p w1 where w1: "create_response w = Some (Ptr p, w1)" "resp_inv g p None [] w1" "heap_only w w1"
    using create_response_inv [OF wf] mem g by blast
  have le1: "heap w \<subseteq>\<^sub>m heap w1"
    using w1(1) wf mem by (auto simp: create_response_def malloc_struct_def new_block_def map_le_fresh)
  have "request_ready rq url None w1"
    using request_ready_mono [OF ready le1] w1(3) by (simp add: heap_only_frame)
  then obtain e t w2 where w2: "https_hmac_GET L rq (Ptr p) w1 = Some (transfer_err t, w2)"
    "resp_inv g p (received_body (tr_data t) None) (received_headers (tr_data t)) w2"
    "does L [Perform e t] w1 w2" "asked e url None None" "answered L t"
    using https_hmac_GET_ok [OF L w1(2)] by blast
  have d2: "does L [Perform e t] w w2" using does_trans [OF does_heap_only [OF w1(3)] w2(3)] by simp
  have mem2: "\<forall>n. alloc_ok w2 n" using mem does_frame(2) [OF d2] by simp
  obtain q w3 where w3: "get_request_state J (Ptr p) w2 = Some (q, w3)" "does L [] w2 w3"
    "case answer_state J t of
       None \<Rightarrow> q = NULL \<and> resp_inv g p (received_body (tr_data t) None) (received_headers (tr_data t)) w3
     | Some s \<Rightarrow> \<exists>b. q = Ptr b \<and> NUL \<notin> set s \<and> g b = None \<and>
         resp_inv (g(b \<mapsto> str_obj s)) p (received_body (tr_data t) None) (received_headers (tr_data t)) w3"
    using get_request_state_spec [OF w2(2) mem2 J] by (auto simp: does_nil)
  obtain w' where w': "free_response (Ptr p) w3 = Some w'" "holds g q (answer_state J t) w'" "does L [] w3 w'"
  proof (cases "answer_state J t")
    case None
    with w3(3) obtain w' where w': "free_response (Ptr p) w3 = Some w'" "heap w' = g" "world_wf w'" "heap_only w3 w'"
      using free_response_inv by fastforce
    show ?thesis
      by (rule that [OF w'(1) _ does_heap_only [OF w'(4)]]) (use None w3(3) w' in simp)
  next
    case (Some s)
    with w3(3) obtain b where b: "q = Ptr b" "NUL \<notin> set s" "g b = None"
      "resp_inv (g(b \<mapsto> str_obj s)) p (received_body (tr_data t) None) (received_headers (tr_data t)) w3"
      by auto
    then obtain w' where w': "free_response (Ptr p) w3 = Some w'" "heap w' = g(b \<mapsto> str_obj s)" "world_wf w'"
      "heap_only w3 w'"
      using free_response_inv by blast
    show ?thesis
      by (rule that [OF w'(1) _ does_heap_only [OF w'(4)]]) (use Some b w' in \<open>simp add: holds_def\<close>)
  qed
  have "does L [Perform e t] w w'" using does_trans [OF d2 does_trans [OF w3(2) w'(3)]] by simp
  then show ?thesis
    using w1(1) w2(1,4,5) w3(1) w'(1,2) by (intro exI [of _ e] exI [of _ t] exI [of _ q] exI [of _ w']) simp
qed

text \<open>The loop: every run of it is a run of the relations above, and leaves only the state behind.\<close>

definition poll_events :: "ptr \<Rightarrow> event list \<Rightarrow> event list" where
  "poll_events q es = (if q = NULL then es else Sleep 1 # es)"

lemma does_sleep: "does L [Sleep n] w (sleep L n w)"
  using did_emit1 [of "Sleep n" w "lib_sleep L n (ext w)"]
  by (simp add: does_def sleep_def) (simp add: emit_def)

lemma poll_spec:
  assumes L: "healthy L" and J: "json_ok J"
  shows "holds g q st w \<Longrightarrow> request_ready rq url None (w\<lparr>heap := g\<rparr>) \<Longrightarrow> 0 < fuel \<Longrightarrow>
    \<exists>res w' es. poll L J fuel rq q w = Some (res, w') \<and> does L (poll_events q es) w w' \<and>
      (case res of
         None \<Rightarrow> waiting J url fuel es
       | Some q' \<Rightarrow> \<exists>st'. polling J url es st' \<and> holds g q' st' w')"
proof (induction fuel arbitrary: q st w)
  case (Suc fuel)
  obtain w0 where free0: "free q w = Some w0" "world_wf w0" "heap w0 = g" "heap_only w w0"
    using holds_free [OF Suc.prems(1)] by blast
  define w1 where "w1 = (if q = NULL then w0 else sleep L 1 w0)"
  have first: "(if q \<noteq> NULL then do { w \<leftarrow> free q w; Some (sleep L 1 w) } else Some w) = Some w1"
    using free0(1) by (auto simp: w1_def)
  have w1: "world_wf w1" "heap w1 = g" "alloc_ok w1 = alloc_ok w" "does L (poll_events q []) w w1"
    using free0 does_trans [OF does_heap_only [OF free0(4)] does_sleep [of L 1 w0]] does_heap_only [OF free0(4)]
    by (auto simp: w1_def sleep_def emit_def world_wf_def heap_only_frame poll_events_def)
  have "request_ready rq url None w1"
    by (rule request_ready_mono [OF Suc.prems(2)]) (use w1 in simp_all)
  from poll_turn [OF L J w1(1,2) this] obtain e t q' w' where turn: "asked e url None None"
    "does L [Perform e t] w1 w'" "holds g q' (answer_state J t) w'"
    and run: "\<And>K. do {
       (response, w) \<leftarrow> create_response w1;
       (_, w) \<leftarrow> https_hmac_GET L rq response w;
       (st, w) \<leftarrow> get_request_state J response w;
       w \<leftarrow> free_response response w;
       K st w
     } = (K q' w' :: (ptr option, 'a) res)" by blast
  let ?K = "\<lambda>st w. if st = NULL then Some (Some NULL, w)
      else do { s \<leftarrow> cstr st w; if s = ''PENDING'' then poll L J fuel rq st w else Some (Some st, w) }"
  have step: "poll L J (Suc fuel) rq q w = ?K q' w'"
    unfolding poll.simps first Option.bind.simps using run [of ?K] .
  have d: "does L (poll_events q [Perform e t]) w w'"
    using does_trans [OF w1(4) turn(2)] by (simp add: poll_events_def split: if_splits)
  show ?case
  proof (cases "answer_state J t = Some ''PENDING''")
    case False
    then have "poll L J (Suc fuel) rq q w = Some (Some q', w')"
      using step turn(3) holds_cstr by (cases "answer_state J t") (auto simp: holds_def)
    moreover have "polling J url [Perform e t] (answer_state J t)"
      using turn(1) False by (rule Answered)
    ultimately show ?thesis using d turn(3)
      by (intro exI [of _ "Some q'"] exI [of _ w'] exI [of _ "[Perform e t]"]) auto
  next
    case pending: True
    then have q': "q' \<noteq> NULL" using turn(3) by (auto simp: holds_def)
    have step': "poll L J (Suc fuel) rq q w = poll L J fuel rq q' w'"
      using step turn(3) pending q' holds_cstr by fastforce
    show ?thesis
    proof (cases "fuel = 0")
      case True
      with step' d turn(1) pending show ?thesis
        by (intro exI [of _ None] exI [of _ w'] exI [of _ "[Perform e t]"])
          (auto intro: waiting.Last simp del: One_nat_def simp add: One_nat_def [symmetric])
    next
      case False
      have "alloc_ok w' = alloc_ok w" using does_frame(2) [OF d] .
      then have "request_ready rq url None (w'\<lparr>heap := g\<rparr>)"
        by (intro request_ready_mono [OF Suc.prems(2)]) simp_all
      from Suc.IH [OF turn(3) this] False obtain res w'' es where rec:
        "poll L J fuel rq q' w' = Some (res, w'')" "does L (poll_events q' es) w' w''"
        "case res of None \<Rightarrow> waiting J url fuel es | Some p \<Rightarrow> \<exists>st'. polling J url es st' \<and> holds g p st' w''"
        by blast
      let ?es = "Perform e t # Sleep 1 # es"
      have "does L (poll_events q ?es) w w''"
        using does_trans [OF d rec(2)] q' by (simp add: poll_events_def split: if_splits)
      moreover have "case res of None \<Rightarrow> waiting J url (Suc fuel) ?es
          | Some p \<Rightarrow> \<exists>st'. polling J url ?es st' \<and> holds g p st' w''"
        using rec(3) False waiting.More [OF turn(1) pending, of "fuel - 1" es]
          polling.Pending [OF turn(1) pending, of es]
        by (cases res; cases fuel) auto
      ultimately show ?thesis using step' rec(1) by (intro exI [of _ res] exI [of _ w''] exI [of _ ?es]) simp
    qed
  qed
qed simp

lemma polling_net: "polling J url es st \<Longrightarrow> list_all net es"
  by (induction rule: polling.induct) auto

end
