(* ===== verification/Exchange.thy ===== *)
theory Exchange
  imports Client_Protocol
begin

text \<open>
  The exchange of \<^verbatim>\<open>request_key\<close> as a protocol: inductive relations say which events a run makes and how
  it ends, and behind which answers its next step is undefined; the lemmas show that the model of
  \<^verbatim>\<open>src/client.c\<close> refines them.
\<close>

section \<open>The protocol\<close>

abbreviation answer_body :: "transfer \<Rightarrow> string option" where
  "answer_body t \<equiv> received_body (tr_data t) None"

text \<open>The key in the body of the last answer: its C string without the line feed at the end.\<close>

definition key_in :: "transfer \<Rightarrow> string" where
  "key_in t = butlast (the (c_text (answer_body t)))"

text \<open>The request for the key was accepted with \<^verbatim>\<open>201\<close>, and got a number.\<close>

definition created :: "cjson \<Rightarrow> string \<Rightarrow> string \<Rightarrow> easy \<Rightarrow> transfer \<Rightarrow> int \<Rightarrow> bool" where
  "created J host handle e t i \<longleftrightarrow>
     asked e (requests_url host) (Some (request_body_text handle)) None \<and>
     tr_response_code t = 201 \<and> id_in J (answer_body t) = Some i"

text \<open>An answer with a body that does not start with a terminator: the key.\<close>

definition has_key :: "transfer \<Rightarrow> bool" where
  "has_key t \<longleftrightarrow> (\<exists>k. answer_body t = Some k \<and> take 1 k \<noteq> [NUL])"

text \<open>
  The rest of a run, once the request has the number \<open>i\<close>: it ends with \<open>err\<close> after the events \<open>es\<close>.
  \<open>deliver k err ds\<close> says how the modules hand over the key \<open>k\<close>.
\<close>

inductive awaited ::
  "cjson \<Rightarrow> string \<Rightarrow> (string \<Rightarrow> unlocked_err \<Rightarrow> event list \<Rightarrow> bool) \<Rightarrow> event list \<Rightarrow> unlocked_err \<Rightarrow> bool"
  for J url deliver where
  No_state: "polling J url es None \<Longrightarrow> awaited J url deliver (es @ [Curl_global_cleanup]) UL_ERR"
| Denied: "polling J url es (Some ''DENIED'') \<Longrightarrow> awaited J url deliver es UL_DENIED"
| Unexpected: "polling J url es (Some s) \<Longrightarrow> s \<noteq> ''DENIED'' \<Longrightarrow> s \<noteq> ''ACCEPTED'' \<Longrightarrow>
    awaited J url deliver es UL_ERR"
| Accepted: "polling J url es (Some ''ACCEPTED'') \<Longrightarrow>
    asked e url (Some fulfilled_body) (Some ''PATCH'') \<Longrightarrow> has_key t \<Longrightarrow> deliver (key_in t) err ds \<Longrightarrow>
    awaited J url deliver (es @ [Perform e t, Curl_global_cleanup] @ ds) err"

inductive_cases awaitedE: "awaited J url deliver es err"

text \<open>A complete run of the exchange.\<close>

inductive key_protocol ::
  "cjson \<Rightarrow> string \<Rightarrow> string \<Rightarrow> (string \<Rightarrow> unlocked_err \<Rightarrow> event list \<Rightarrow> bool) \<Rightarrow>
   event list \<Rightarrow> unlocked_err \<Rightarrow> bool" for J host handle deliver where
  Refused: "asked e (requests_url host) (Some (request_body_text handle)) None \<Longrightarrow>
    tr_response_code t \<noteq> 201 \<Longrightarrow>
    key_protocol J host handle deliver [Curl_global_init, Perform e t] UL_ERR"
| Created: "created J host handle e t i \<Longrightarrow> awaited J (show_url host i) deliver es err \<Longrightarrow>
    key_protocol J host handle deliver ([Curl_global_init, Perform e t] @ es) err"

inductive_cases key_protocolE: "key_protocol J host handle deliver es err"

text \<open>
  Traces behind which the next step of the code is undefined: the request was created, but its number
  does not fit in an \<^verbatim>\<open>int\<close> or the content type is one character; or the request was accepted, but
  there is no key in the answer.
\<close>

definition sane_answer :: "cjson \<Rightarrow> transfer \<Rightarrow> bool" where
  "sane_answer J t \<longleftrightarrow>
     id_in J (answer_body t) \<noteq> None \<and> content_type_ok (received_headers (tr_data t))"

inductive stuck_waiting :: "cjson \<Rightarrow> string \<Rightarrow> event list \<Rightarrow> bool" for J url where
  No_key: "polling J url es (Some ''ACCEPTED'') \<Longrightarrow> asked e url (Some fulfilled_body) (Some ''PATCH'') \<Longrightarrow>
    \<not> has_key t \<Longrightarrow> stuck_waiting J url (es @ [Perform e t, Curl_global_cleanup])"

inductive stuck :: "cjson \<Rightarrow> string \<Rightarrow> string \<Rightarrow> event list \<Rightarrow> bool" for J host handle where
  Bad_answer: "asked e (requests_url host) (Some (request_body_text handle)) None \<Longrightarrow>
    tr_response_code t = 201 \<Longrightarrow> \<not> sane_answer J t \<Longrightarrow> stuck J host handle [Curl_global_init, Perform e t]"
| Keyless: "created J host handle e t i \<Longrightarrow> stuck_waiting J (show_url host i) es \<Longrightarrow>
    stuck J host handle ([Curl_global_init, Perform e t] @ es)"

text \<open>
  Answers the code can handle: the number fits in an \<^verbatim>\<open>int\<close>, the value of the content type is not one
  character, and the answer to the PATCH request has a body that does not start with a terminator
  (behind any other the run is \<open>stuck\<close>). The other requests may go unanswered.
\<close>

definition sane :: "cjson \<Rightarrow> 'e lib \<Rightarrow> bool" where
  "sane J L \<longleftrightarrow> (\<forall>e x. sane_answer J (fst (lib_perform L e x)) \<and>
     (opt_customrequest e = Some ''PATCH'' \<longrightarrow> has_key (fst (lib_perform L e x))))"

lemma sane_answered: "sane J L \<Longrightarrow> answered L t \<Longrightarrow> sane_answer J t"
  by (auto simp: sane_def answered_def)

lemma sane_patched:
  "sane J L \<Longrightarrow> fst (round_trip L e x) = t \<Longrightarrow> asked e url body (Some ''PATCH'') \<Longrightarrow> has_key t"
  by (auto simp: sane_def asked_def round_trip_def)

text \<open>The settings in memory: the strings they name, and no longer than a megabyte.\<close>

definition args_ready :: "arguments \<Rightarrow> string \<Rightarrow> string \<Rightarrow> 'e world \<Rightarrow> bool" where
  "args_ready args host handle w \<longleftrightarrow>
     (\<forall>n. alloc_ok w n) \<and> cstr (arg_host args) w = Some host \<and> short host \<and>
     cstr (arg_key_handle args) w = Some handle \<and> short handle \<and>
     (\<exists>u k. cstr (arg_username args) w = Some u \<and> short u \<and> cstr (arg_secret args) w = Some k)"

lemma args_ready_mono:
  "args_ready args host handle w \<Longrightarrow> heap w \<subseteq>\<^sub>m heap w' \<Longrightarrow> alloc_ok w' = alloc_ok w \<Longrightarrow>
   args_ready args host handle w'"
  unfolding args_ready_def by (auto intro: cstr_mono)

lemma url_lengths:
  assumes "short host" "short handle"
  shows "length (requests_url host) \<le> int_max" "length (request_body_text handle) \<le> 2000000"
    "- 2147483648 \<le> i \<Longrightarrow> i \<le> 2147483647 \<Longrightarrow> length (show_url host i) \<le> int_max"
  using assms length_show_int [of 9 i]
  by (simp_all add: requests_url_def request_body_text_def show_url_def int_max_def)

lemma received_headers_ok:
  assumes "list_all header_fits ds"
  shows "c_strings (received_headers ds)" "list_all (\<lambda>h. length h \<le> int_max) (received_headers ds)"
proof -
  have "NUL \<notin> set (takeWhile (\<lambda>c. c \<noteq> NUL) s)" for s by (auto dest: set_takeWhileD)
  moreover have "length s < int_max \<Longrightarrow> length (takeWhile (\<lambda>c. c \<noteq> NUL) s) \<le> int_max" for s :: string
    using length_takeWhile_le [of "\<lambda>c. c \<noteq> NUL" s] by linarith
  ultimately show "c_strings (received_headers ds)" "list_all (\<lambda>h. length h \<le> int_max) (received_headers ds)"
    using assms by (induction ds rule: received_headers.induct) (auto simp: kept_headers_def)
qed

section \<open>Fetching the key\<close>

text \<open>The body of a response, copied.\<close>

lemma strdup_body:
  assumes inv: "resp_inv h p (Some t) hs w" and mem: "\<forall>n. alloc_ok w n" and len: "length t + 1 < ptrdiff_max"
    and r: "heap w p = Some (Response r)"
  defines "s \<equiv> takeWhile (\<lambda>c. c \<noteq> NUL) (t @ [LF])"
  shows "\<exists>b w'. strdup (resp_body r) w = Some (Ptr b, w') \<and> heap_only w w' \<and> h b = None \<and>
    resp_inv (h(b \<mapsto> str_obj s)) p (Some t) hs w'"
proof -
  obtain r' where "heap w p = Some (Response r')" "body_rep r' (Some t) w" and wf: "world_wf w"
    using resp_invD [OF inv] by blast
  then have c: "cstr (resp_body r) w = Some s"
    using r scan_body unfolding s_def by (auto simp: cstr_Ptr)
  have "length s \<le> length (t @ [LF])" unfolding s_def by (rule length_takeWhile_le)
  then have "strdup (resp_body r) w = Some (alloc_str s w)"
    using strdup_eq [OF c] len by simp
  moreover obtain b w' where "alloc_str s w = (Ptr b, w')" "fresh_str s w (Ptr b) w'" "heap_only w w'"
    using alloc_str_memory [OF wf mem] by blast
  ultimately show ?thesis using resp_inv_fresh [OF inv] by auto
qed

text \<open>The last character of the key is overwritten with a terminator.\<close>

lemma cut_last:
  assumes b: "heap w b = Some (str_obj s)" and s: "s \<noteq> []" "NUL \<notin> set s"
  shows "\<exists>x. store (Ptr b) (length s - 1) [NUL] w = Some (w\<lparr>heap := (heap w)(b \<mapsto> x)\<rparr>) \<and>
    cstr (Ptr b) (w\<lparr>heap := (heap w)(b \<mapsto> x)\<rparr>) = Some (butlast s)"
proof -
  let ?cs = "map Some (butlast s) @ [Some NUL, Some NUL]"
  have "map Some s @ [Some NUL] = map Some (butlast s) @ [Some (last s), Some NUL]"
    using s(1) by (metis append.assoc append_Cons append_Nil append_butlast_last_id list.simps(9) map_append list.map_disc_iff)
  then have "put (length s - 1) [NUL] (map Some s @ [Some NUL]) = ?cs"
    using put_append [of "butlast s" "[NUL]" "[Some (last s), Some NUL]"] by simp
  then have "store (Ptr b) (length s - 1) [NUL] w = Some (w\<lparr>heap := (heap w)(b \<mapsto> Chars ?cs)\<rparr>)"
    using b s(1) by (simp add: store_Ptr Suc_leI)
  moreover have "NUL \<notin> set (butlast s)" using s(2) by (auto dest: in_set_butlastD)
  then have "scan ?cs = Some (butlast s)" using scan_str [of "butlast s" "[Some NUL]"] by simp
  ultimately show ?thesis by (auto simp: cstr_Ptr)
qed

text \<open>A request is ready when its strings are those of the settings, an url and a body.\<close>

lemma request_readyI:
  assumes "args_ready args host handle w" "req_username rq = arg_username args" "req_secret rq = arg_secret args"
    "cstr (req_url rq) w = Some url" "setopt_string (req_body rq) w = Some body" "length (body_text body) \<le> 2000000"
  shows "request_ready rq url body w"
  using assms by (auto simp: args_ready_def request_ready_def)

lemma delivered_genuine: "delivered P en1 fd en2 k err ds \<Longrightarrow> genuine L ds x"
  by (auto simp: delivered_def sd_socket_outcome_def stdout_outcome_def split: if_splits)

text \<open>Up to the end of the PATCH request: what is left is to copy the key and to hand it over.\<close>

definition hand_over :: "'e dispatch \<Rightarrow> ptr \<Rightarrow> ptr \<Rightarrow> 'e world \<Rightarrow> (unlocked_err option, 'e) res" where
  "hand_over D body response w = do {
     (key, w) \<leftarrow> strdup body w;
     w \<leftarrow> free_response response w;
     if key = NULL then Some (Some UL_MALLOC, w)
     else do {
       k \<leftarrow> cstr key w;
       w \<leftarrow> (if length k = 0 then None else store key (length k - 1) [NUL] w);
       (err, w) \<leftarrow> handle_success D key w;
       w \<leftarrow> free key w;
       Some (Some err, w)
     }
   }"

lemma fetch_key_patched:
  assumes L: "healthy L" and wf: "world_wf w" and args: "args_ready args host handle w"
    and i: "- 2147483648 \<le> i" "i \<le> 2147483647"
    and rq: "req_username rq = arg_username args" "req_secret rq = arg_secret args"
  shows "\<exists>e t p r w'. fetch_key L D args rq i w = hand_over D (resp_body r) (Ptr p) w' \<and>
    resp_inv (heap w) p (answer_body t) (received_headers (tr_data t)) w' \<and> heap w' p = Some (Response r) \<and>
    does L [Perform e t, Curl_global_cleanup] w w' \<and> asked e (show_url host i) (Some fulfilled_body) (Some ''PATCH'') \<and>
    answered L t"
proof -
  let ?g = "heap w" and ?url = "show_url host i"
  have mem: "\<forall>n. alloc_ok w n" and host: "cstr (arg_host args) w = Some host" "short host"
    using args by (simp_all add: args_ready_def)
  obtain p w1 where w1: "create_response w = Some (Ptr p, w1)" "resp_inv ?g p None [] w1" "heap_only w w1"
    using create_response_inv [OF wf] mem by blast
  have le1: "heap w \<subseteq>\<^sub>m heap w1"
    using w1(1) wf mem by (auto simp: create_response_def malloc_struct_def new_block_def map_le_fresh)
  have wf1: "world_wf w1" using resp_invD [OF w1(2)] by blast
  have mem1: "\<forall>n. alloc_ok w1 n" using mem w1(3) by (simp add: heap_only_frame)
  have len: "length ?url \<le> int_max" using url_lengths(3) [OF host(2) host(2) i] .
  obtain b w2 where w2: "alloc_str ?url w1 = (Ptr b, w2)" "fresh_str ?url w1 (Ptr b) w2" "heap_only w1 w2"
    using alloc_str_memory [OF wf1 mem1] by blast
  have url: "get_show_request_url (arg_host args) i w1 = Some (Ptr b, w2)"
    using show_request_url_eq [OF wf1 cstr_mono [OF le1 host(1)] i len] w2(1) by simp
  note inv2 = resp_inv_fresh [OF w1(2) w2(2)]
  have le2: "heap w \<subseteq>\<^sub>m heap w2"
    using le1 w2(2) wf1 by (auto simp: fresh_str_def intro: map_le_trans map_le_fresh world_wfD)
  let ?rq = "rq\<lparr>req_body := Lit fulfilled_body, req_url := Ptr b\<rparr>"
  have "cstr (Ptr b) w2 = Some ?url"
    using w2(2) texts_no_nul(3) [OF host(1)] by (auto elim!: fresh_str_cases)
  then have "request_ready ?rq ?url (Some fulfilled_body) w2"
    using rq w1(3) w2(3)
    by (intro request_readyI [of args host handle] args_ready_mono [OF args le2])
      (simp_all add: heap_only_frame setopt_string_def fulfilled_body_def)
  from https_hmac_body_ok(2) [OF L inv2(1) this] obtain e t w3 where
    w3: "https_hmac_PATCH L ?rq (Ptr p) w2 = Some (transfer_err t, w3)"
      "resp_inv (?g(b \<mapsto> str_obj ?url)) p (answer_body t) (received_headers (tr_data t)) w3"
      "does L [Perform e t] w2 w3" "asked e ?url (Some fulfilled_body) (Some ''PATCH'')" "answered L t"
    by blast
  note drop = resp_inv_drop [OF w3(2) inv2(2)]
  let ?w4 = "cleanup_https_client (w3\<lparr>heap := (heap w3)(b := None)\<rparr>)"
  have inv4: "resp_inv ?g p (answer_body t) (received_headers (tr_data t)) ?w4"
    by (rule resp_inv_cong [OF drop(2)]) (simp_all add: cleanup_https_client_def emit_def)
  obtain r where r: "heap ?w4 p = Some (Response r)" using resp_invD [OF inv4] by blast
  have "does L [Perform e t] w (w3\<lparr>heap := (heap w3)(b := None)\<rparr>)"
    using does_trans [OF does_heap_only [OF w1(3)] does_trans [OF does_heap_only [OF w2(3)] w3(3)]] by simp
  from does_trans [OF this does_cleanup] have d4: "does L [Perform e t, Curl_global_cleanup] w ?w4" by simp
  have resp4: "response_of (Ptr p) ?w4 = Some r" using r by (simp add: response_of_def deref_def)
  have fr: "free (req_url ?rq) w3 = Some (w3\<lparr>heap := (heap w3)(b := None)\<rparr>)"
    using drop(1) by simp
  have "fetch_key L D args rq i w = hand_over D (resp_body r) (Ptr p) ?w4"
    by (simp only: fetch_key_def hand_over_def w1(1) url w3(1) fr resp4
        Option.bind.simps prod.case ptr.distinct if_False Let_def)
  then show ?thesis using inv4 r d4 w3(4,5) by blast
qed

text \<open>
  An answer to the PATCH request that has no body, as after a failure of the network, or an empty string
  for one, is not noticed: \<^verbatim>\<open>strdup\<close> gets the null pointer, or the terminator is written in front of the
  copy.
\<close>

lemma hand_over_keyless:
  assumes inv: "resp_inv g p (answer_body t) hs w" and r: "heap w p = Some (Response r)"
    and mem: "\<forall>n. alloc_ok w n" and fits: "answer_fits t" and none: "\<not> has_key t"
  shows "hand_over D (resp_body r) (Ptr p) w = None"
proof (cases "answer_body t")
  case None
  then have "resp_body r = NULL" using resp_invD [OF inv] r by auto
  then show ?thesis by (simp add: hand_over_def strdup_def)
next
  case (Some k)
  then have k: "takeWhile (\<lambda>c. c \<noteq> NUL) (k @ [LF]) = []" using none by (cases k) (auto simp: has_key_def)
  have klen: "length k + 1 < ptrdiff_max" using fits Some by (simp add: answer_fits_def)
  obtain c w1 where w1: "strdup (resp_body r) w = Some (Ptr c, w1)"
      "resp_inv (g(c \<mapsto> str_obj [])) p (Some k) hs w1"
    using strdup_body [OF inv [unfolded Some] mem klen r] unfolding k by blast
  obtain w2 where w2: "free_response (Ptr p) w1 = Some w2" "heap w2 = g(c \<mapsto> str_obj [])"
    using free_response_inv [OF w1(2)] by blast
  have "cstr (Ptr c) w2 = Some []" using w2(2) by simp
  then show ?thesis by (simp add: hand_over_def w1(1) w2(1))
qed

lemma fetch_key_spec:
  assumes L: "healthy L" and wf: "world_wf w" and args: "args_ready args host handle w"
    and i: "- 2147483648 \<le> i" "i \<le> 2147483647"
    and rq: "req_username rq = arg_username args" "req_secret rq = arg_secret args"
    and ready: "modules_ready sd st en1 fd en2 w"
  obtains (Key) e t err ds w' where "fetch_key L (dispatch P) args rq i w = Some (Some err, w')"
      "did ([Perform e t, Curl_global_cleanup] @ ds) w w'"
      "genuine L ([Perform e t, Curl_global_cleanup] @ ds) (ext w)" "heap w' = heap w" "world_wf w'"
      "asked e (show_url host i) (Some fulfilled_body) (Some ''PATCH'')" "has_key t"
      "delivered P en1 fd en2 (key_in t) err ds"
    | (No_key) e t where "fetch_key L (dispatch P) args rq i w = None"
      "genuine L [Perform e t, Curl_global_cleanup] (ext w)"
      "asked e (show_url host i) (Some fulfilled_body) (Some ''PATCH'')" "\<not> has_key t"
proof -
  let ?g = "heap w"
  obtain e t p r w4 where run: "fetch_key L (dispatch P) args rq i w = hand_over (dispatch P) (resp_body r) (Ptr p) w4"
    and inv4: "resp_inv ?g p (answer_body t) (received_headers (tr_data t)) w4" and r: "heap w4 p = Some (Response r)"
    and d4: "does L [Perform e t, Curl_global_cleanup] w w4"
    and e: "asked e (show_url host i) (Some fulfilled_body) (Some ''PATCH'')" and t: "answered L t"
    using fetch_key_patched [OF L wf args i rq] by metis
  show thesis
  proof (cases "has_key t")
    case False
    from hand_over_keyless [OF inv4 r _ answered_fits [OF L t] False, of "dispatch P"] args does_frame(2) [OF d4]
    have "fetch_key L (dispatch P) args rq i w = None" by (simp add: run args_ready_def)
    then show thesis using No_key d4 e False by (simp add: does_def)
  next
    case True
    then obtain k where k: "answer_body t = Some k" "take 1 k \<noteq> [NUL]" by (auto simp: has_key_def)
    let ?s = "takeWhile (\<lambda>c. c \<noteq> NUL) (k @ [LF])"
    have mem4: "\<forall>n. alloc_ok w4 n" using args does_frame(2) [OF d4] by (simp add: args_ready_def)
    have klen: "length k + 1 < ptrdiff_max"
      using answered_fits [OF L t] k(1) by (simp add: answer_fits_def)
    obtain c w5 where w5: "strdup (resp_body r) w4 = Some (Ptr c, w5)" "heap_only w4 w5" "?g c = None"
        "resp_inv (?g(c \<mapsto> str_obj ?s)) p (Some k) (received_headers (tr_data t)) w5"
      using strdup_body [OF inv4 [unfolded k(1)] mem4 klen r] by blast
    obtain w6 where w6: "free_response (Ptr p) w5 = Some w6" "heap w6 = ?g(c \<mapsto> str_obj ?s)" "world_wf w6"
        "heap_only w5 w6"
      using free_response_inv [OF w5(4)] by blast
    have s: "?s \<noteq> []" "NUL \<notin> set ?s" using k(2) by (cases k; auto dest: set_takeWhileD)+
    have key: "key_in t = butlast ?s" by (simp add: key_in_def k c_text_def)
    obtain x where x: "store (Ptr c) (length ?s - 1) [NUL] w6 = Some (w6\<lparr>heap := (heap w6)(c \<mapsto> x)\<rparr>)"
        "cstr (Ptr c) (w6\<lparr>heap := (heap w6)(c \<mapsto> x)\<rparr>) = Some (butlast ?s)"
      using cut_last [OF _ s, of w6 c] w6(2) by auto
    define w7 where "w7 = w6\<lparr>heap := (heap w6)(c \<mapsto> x)\<rparr>"
    note x = x [folded w7_def]
    have d67: "does L [] w6 w7" by (simp add: w7_def does_nil)
    then have d7: "does L [Perform e t, Curl_global_cleanup] w w7"
      using does_trans [OF does_trans [OF d4 does_heap_only [OF w5(2)]]
          does_trans [OF does_heap_only [OF w6(4)] d67]] by simp
    have h7: "heap w7 = ?g(c \<mapsto> x)" using w6(2) by (simp add: w7_def)
    have "c < brk w6" using world_wf_less [OF w6(3), of c] w6(2) by simp
    then have wf7: "world_wf w7" using w6(3) by (simp add: world_wf_def w7_def)
    have "modules_ready sd st en1 fd en2 w7"
      by (rule modules_ready_mono [OF ready _ wf7])
        (use h7 w5(3) does_frame(4,5) [OF d7] in \<open>simp_all add: map_le_fresh\<close>)
    from handle_success_spec [OF this x(2), of P] obtain err w8 ds where
      w8: "handle_success (dispatch P) (Ptr c) w7 = Some (err, w8)" "same_memory w7 w8" "did ds w7 w8"
        "delivered P en1 fd en2 (butlast ?s) err ds" by blast
    let ?w' = "w8\<lparr>heap := (heap w8)(c := None)\<rparr>"
    have h8: "heap w8 c = Some x" "(heap w8)(c := None) = ?g"
      using w8(2) h7 w5(3) by (auto simp: same_memory_def)
    have c6: "cstr (Ptr c) w6 = Some ?s" using w6(2) s(2) by simp
    have ls: "(length ?s = 0) = False" using s(1) by simp
    have "fetch_key L (dispatch P) args rq i w = Some (Some err, ?w')"
      by (simp only: run hand_over_def w5(1) w6(1) c6 ls x(1) w8(1) free_Ptr [OF h8(1)]
          Option.bind.simps prod.case ptr.distinct if_False Let_def)
    moreover have "did ([Perform e t, Curl_global_cleanup] @ ds) w ?w'"
      using did_trans [OF does_did [OF d7] w8(3)] by simp
    moreover have "genuine L ([Perform e t, Curl_global_cleanup] @ ds) (ext w)"
      using does_genuine [OF d7 delivered_genuine [OF w8(4)]] .
    moreover have "heap ?w' = ?g" using h8(2) by simp
    moreover have "world_wf ?w'"
      using wf7 w8(2) by (simp add: same_memory_def world_wf_def)
    ultimately show thesis using Key e True w8(4) key by metis
  qed
qed

section \<open>Waiting for the key\<close>

lemma await_key_spec:
  assumes L: "healthy L" and J: "json_ok J" and wf: "world_wf w" and args: "args_ready args host handle w"
    and i: "- 2147483648 \<le> i" "i \<le> 2147483647"
    and rq: "req_username rq = arg_username args" "req_secret rq = arg_secret args" "req_body rq = NULL"
    and ready: "modules_ready sd st en1 fd en2 w" and fuel: "0 < fuel"
  defines "url \<equiv> show_url host i"
  assumes safe: "\<And>es. await_key L J (dispatch P) fuel args rq i w = None \<Longrightarrow> genuine L es (ext w) \<Longrightarrow>
    stuck_waiting J url es \<Longrightarrow> False"
  shows "\<exists>res w' es. await_key L J (dispatch P) fuel args rq i w = Some (res, w') \<and> did es w w' \<and>
    genuine L es (ext w) \<and>
    (case res of
       None \<Rightarrow> waiting J url fuel es
     | Some err \<Rightarrow> awaited J url (delivered P en1 fd en2) es err \<and> heap w' = heap w \<and> world_wf w')"
proof -
  let ?g = "heap w"
  have mem: "\<forall>n. alloc_ok w n" and host: "cstr (arg_host args) w = Some host" "short host"
    using args by (simp_all add: args_ready_def)
  have len: "length url \<le> int_max" using url_lengths(3) [OF host(2) host(2) i] unfolding url_def .
  obtain b w1 where w1: "alloc_str url w = (Ptr b, w1)" "fresh_str url w (Ptr b) w1" "heap_only w w1"
    using alloc_str_memory [OF wf mem] by blast
  have run1: "get_show_request_url (arg_host args) i w = Some (Ptr b, w1)"
    using show_request_url_eq [OF wf host(1) i len [unfolded url_def]] w1(1) url_def by simp
  let ?h = "?g(b \<mapsto> str_obj url)" and ?rq = "rq\<lparr>req_url := Ptr b\<rparr>"
  have h1: "heap w1 = ?h" "?g b = None" "world_wf w1"
    using w1(2) wf by (auto simp: fresh_str_def world_wfD)
  have nul: "NUL \<notin> set url" unfolding url_def using texts_no_nul(3) [OF host(1)] .
  have hold1: "holds ?h NULL None w1" using h1 by simp
  have ready1: "request_ready ?rq url None (w1\<lparr>heap := ?h\<rparr>)"
    by (rule request_readyI [of args host handle])
      (use args_ready_mono [OF args, of "w1\<lparr>heap := ?h\<rparr>"] rq h1 nul w1(3) map_le_fresh [of ?g b] in
        \<open>simp_all add: heap_only_frame setopt_string_def\<close>)
  obtain res w2 es where w2: "poll L J fuel ?rq NULL w1 = Some (res, w2)" "does L es w1 w2"
    "case res of None \<Rightarrow> waiting J url fuel es
     | Some q \<Rightarrow> \<exists>st. polling J url es st \<and> holds ?h q st w2"
    using poll_spec [OF L J hold1 ready1 fuel] by (auto simp: poll_events_def)
  have d2: "does L es w w2" using does_trans [OF does_heap_only [OF w1(3)] w2(2)] by simp
  show ?thesis
  proof (cases res)
    case None
    then have "await_key L J (dispatch P) fuel args rq i w = Some (None, w2)"
      by (simp add: await_key_def run1 w2(1))
    with None does_run [OF d2] w2(3) show ?thesis by auto
  next
    case (Some q)
    with w2(3) obtain state where pol: "polling J url es state" and hold: "holds ?h q state w2" by auto
    have b2: "heap w2 b = Some (str_obj url)" using holds_le [OF hold] by (auto simp: map_le_def dom_def)
    let ?w3 = "w2\<lparr>heap := (heap w2)(b := None)\<rparr>"
    have hold3: "holds ?g q state ?w3"
      using hold h1(2) by (cases state) (auto simp: holds_def world_wf_def fun_upd_twist fun_upd_idem split: if_splits)
    have d3: "does L es w ?w3" using d2 by simp
    have len_i: "signed_take_bit 31 i = i" using i by (simp add: stb31)
    have run3: "await_key L J (dispatch P) fuel args rq i w =
        (if q = NULL then do {
           w \<leftarrow> logger LOG_ERROR (''Could not determine state of request %d'' @ [LF]) [AInt i] ?w3;
           Some (Some UL_ERR, cleanup_https_client w)
         }
         else do {
           s \<leftarrow> cstr q ?w3;
           if s = ''DENIED'' then do { w \<leftarrow> free q ?w3; Some (Some UL_DENIED, w) }
           else if s \<noteq> ''ACCEPTED'' then do {
             w \<leftarrow> logger LOG_ERROR (''Unexpected state for request %d: \"%s\"'' @ [LF]) [AInt i, AStr q] ?w3;
             w \<leftarrow> free q w;
             Some (Some UL_ERR, w)
           }
           else do { w \<leftarrow> free q ?w3; fetch_key L (dispatch P) args ?rq i w }
         })"
      using Some b2 by (simp add: await_key_def run1 w2(1))
    obtain w4 where w4: "free q ?w3 = Some w4" "world_wf w4" "heap w4 = ?g" "heap_only ?w3 w4"
      using holds_free [OF hold3] by blast
    have d4: "does L es w w4" using does_trans [OF d3 does_heap_only [OF w4(4)]] by simp
    show ?thesis
    proof (cases state)
      case None
      then have q: "q = NULL" and h3: "heap ?w3 = ?g" "world_wf ?w3"
        using hold3 [unfolded None holds_None] by blast+
      obtain w5 where w5: "logger LOG_ERROR (''Could not determine state of request %d'' @ [LF]) [AInt i] ?w3 = Some w5"
        using logger_defined [of "''Could not determine state of request %d'' @ [LF]" "[AInt i]" ?w3] by auto
      have "does L [Curl_global_cleanup] w5 (cleanup_https_client w5)"
        by (rule does_cleanup)
      then have "does L (es @ [Curl_global_cleanup]) w (cleanup_https_client w5)"
        using does_trans [OF d3 does_nothing [OF does_logger [OF w5]]] by simp
      then have "did (es @ [Curl_global_cleanup]) w (cleanup_https_client w5) \<and>
          genuine L (es @ [Curl_global_cleanup]) (ext w)" by (rule does_run)
      moreover have "awaited J url (delivered P en1 fd en2) (es @ [Curl_global_cleanup]) UL_ERR"
        using pol None by (auto intro: awaited.No_state)
      moreover have "heap (cleanup_https_client w5) = ?g" "world_wf (cleanup_https_client w5)"
      proof -
        have "heap w5 = heap ?w3" "world_wf w5"
          using loggerD [OF w5] h3(2) by (auto simp: world_wf_def)
        with h3(1) show "heap (cleanup_https_client w5) = ?g" "world_wf (cleanup_https_client w5)"
          by (simp_all add: cleanup_https_client_def emit_def world_wf_def)
      qed
      ultimately show ?thesis using run3 q w5 by fastforce
    next
      case state: (Some s)
      then have q: "q \<noteq> NULL" and c: "cstr q ?w3 = Some s" using hold3 holds_cstr by (auto simp: holds_def)
      consider "s = ''DENIED''" | "s = ''ACCEPTED''" | "s \<noteq> ''DENIED''" "s \<noteq> ''ACCEPTED''" by blast
      then show ?thesis
      proof cases
        case 1
        with pol state have "awaited J url (delivered P en1 fd en2) es UL_DENIED" by (auto intro: awaited.Denied)
        with 1 run3 q c w4 does_run [OF d4] show ?thesis by fastforce
      next
        case accepted: 2
        have g4: "heap w \<subseteq>\<^sub>m heap w4" using w4(3) by simp
        note fr = does_frame [OF d4]
        have ready4: "modules_ready sd st en1 fd en2 w4"
          using modules_ready_mono [OF ready g4 w4(2)] fr by simp
        have args4: "args_ready args host handle w4"
          using args_ready_mono [OF args g4] fr by simp
        have rq4: "req_username ?rq = arg_username args" "req_secret ?rq = arg_secret args" using rq by simp_all
        show ?thesis
        proof (cases rule: fetch_key_spec [OF L w4(2) args4 i rq4 ready4, of P])
          case (1 e t err ds w')
          note w' = 1 [folded url_def]
          have "awaited J url (delivered P en1 fd en2) (es @ [Perform e t, Curl_global_cleanup] @ ds) err"
            by (rule awaited.Accepted [where deliver = "delivered P en1 fd en2", OF _ w'(6-8)])
              (use pol state accepted in simp)
          moreover have "await_key L J (dispatch P) fuel args rq i w = Some (Some err, w')"
            using run3 q c accepted w4(1) w'(1) by simp
          moreover note did_trans [OF does_did [OF d4] w'(2)] does_genuine [OF d4 w'(3)]
          ultimately show ?thesis using w'(4,5) w4(3)
            by (intro exI [of _ "Some err"] exI [of _ w']
                exI [of _ "es @ [Perform e t, Curl_global_cleanup] @ ds"]) simp
        next
          case (2 e t)
          have "await_key L J (dispatch P) fuel args rq i w = None"
            using run3 q c accepted w4(1) \<open>fetch_key L (dispatch P) args ?rq i w4 = None\<close> by simp
          moreover have "stuck_waiting J url (es @ [Perform e t, Curl_global_cleanup])"
            by (rule stuck_waiting.No_key) (use pol state accepted 2(3,4) url_def in simp_all)
          ultimately show ?thesis using safe does_genuine [OF d4 2(2)] by blast
        qed
      next
        case 3
        let ?fmt = "''Unexpected state for request %d: \"%s\"'' @ [LF]"
        have "format ?fmt [AInt i, AStr q] ?w3 \<noteq> None" using q c by simp
        then obtain w5 where w5: "logger LOG_ERROR ?fmt [AInt i, AStr q] ?w3 = Some w5"
          using logger_defined by blast
        have "holds ?g q state w5"
          using hold3 w5 by (rule holds_logger)
        then obtain w6 where w6: "free q w5 = Some w6" "world_wf w6" "heap w6 = ?g" "heap_only w5 w6"
          using holds_free by blast
        have "does L es w w6"
          using does_trans [OF d3 does_nothing [OF does_logger [OF w5] does_heap_only [OF w6(4)]]] by simp
        then have "did es w w6 \<and> genuine L es (ext w)" by (rule does_run)
        moreover have "awaited J url (delivered P en1 fd en2) es UL_ERR"
          using pol state 3 by (auto intro: awaited.Unexpected)
        ultimately show ?thesis using run3 q c 3 w5 w6 by fastforce
      qed
    qed
  qed
qed

section \<open>The whole exchange\<close>

definition settings_ready :: "ptr \<Rightarrow> arguments \<Rightarrow> string \<Rightarrow> string \<Rightarrow> 'e world \<Rightarrow> bool" where
  "settings_ready p args host handle w \<longleftrightarrow> arguments_of p w = Some args \<and> args_ready args host handle w"

lemma arguments_of_mono:
  "heap w \<subseteq>\<^sub>m heap w' \<Longrightarrow> arguments_of p w = Some a \<Longrightarrow> arguments_of p w' = Some a"
  by (auto simp: arguments_of_def split: option.splits obj.splits dest: deref_mono)

lemma init_https_client_ok:
  "\<exists>err w'. init_https_client L w = (err, w') \<and> heap w' = heap w \<and> brk w' = brk w \<and>
    g_hex_digest w' = g_hex_digest w \<and> does L [Curl_global_init] w w'"
proof -
  obtain s x where s: "lib_global_init L (ext w) = (s, x)" by (metis surj_pair)
  let ?w = "emit Curl_global_init (w\<lparr>ext := x\<rparr>)"
  have d: "does L [Curl_global_init] w ?w"
    using did_emit1 [of Curl_global_init w x] s by (simp add: does_def) (simp add: emit_def)
  have "does L [] ?w (libcurl_error L s ?w)"
    using did_emit [of "Print Stderr m" ?w for m] by (simp add: does_nil libcurl_error_def) (simp add: emit_def)
  from does_trans [OF d this] have "does L [Curl_global_init] w (libcurl_error L s ?w)" by simp
  with d show ?thesis
    by (cases "s = 0") (simp_all add: init_https_client_def s Let_def libcurl_error_def emit_def)
qed

text \<open>The part up to the answer to the first request.\<close>

lemma post_spec:
  fixes w :: "'e world"
  assumes L: "healthy L" and wf: "world_wf w" and set: "settings_ready a args host handle w"
  shows "\<exists>p e t w'. resp_inv (heap w) p (answer_body t) (received_headers (tr_data t)) w' \<and>
    does L [Curl_global_init, Perform e t] w w' \<and> answered L t \<and>
    asked e (requests_url host) (Some (request_body_text handle)) None \<and>
    status_of (Ptr p) w' = Some (tr_response_code t) \<and>
    (\<exists>rq. req_username rq = arg_username args \<and> req_secret rq = arg_secret args \<and> req_body rq = NULL \<and>
       request_key L J D fuel a w = check_created L J D fuel args rq (Ptr p) w')"
proof -
  let ?g = "heap w" and ?body = "request_body_text handle" and ?url = "requests_url host"
  have args: "args_ready args host handle w" and arg: "arguments_of a w = Some args"
    using set by (simp_all add: settings_ready_def)
  have mem: "\<forall>n. alloc_ok w n" and host: "cstr (arg_host args) w = Some host" "short host"
    and handle: "cstr (arg_key_handle args) w = Some handle" "short handle"
    using args by (simp_all add: args_ready_def)
  obtain p w1 where w1: "create_response w = Some (Ptr p, w1)" "resp_inv ?g p None [] w1" "heap_only w w1"
    using create_response_inv [OF wf] mem by blast
  have le1: "?g \<subseteq>\<^sub>m heap w1"
    using w1(1) wf mem by (auto simp: create_response_def malloc_struct_def new_block_def map_le_fresh)
  let ?fmt = "''Requesting the key \"%s\" from the host \"%s\"'' @ [LF]"
  have "format ?fmt [AStr (arg_key_handle args), AStr (arg_host args)] w1 \<noteq> None"
    using cstr_mono [OF le1 host(1)] cstr_mono [OF le1 handle(1)] by (simp add: printable)
  then obtain w2 where w2: "logger LOG_DEBUG ?fmt [AStr (arg_key_handle args), AStr (arg_host args)] w1 = Some w2"
      "resp_inv ?g p None [] w2" "does L [] w1 w2"
    unfolding does_nil using log_ok [OF _ w1(2)] by blast
  have d2: "does L [] w w2" using does_trans [OF does_heap_only [OF w1(3)] w2(3)] by simp
  have le2: "?g \<subseteq>\<^sub>m heap w2" using le1 logger_frame(1) [OF w2(1)] by simp
  have wf2: "world_wf w2" using resp_invD [OF w2(2)] by blast
  have mem2: "\<forall>n. alloc_ok w2 n" using mem does_frame(2) [OF d2] by simp
  note len = url_lengths [OF host(2) handle(2)]
  obtain b w3 where w3: "alloc_str ?body w2 = (Ptr b, w3)" "fresh_str ?body w2 (Ptr b) w3" "heap_only w2 w3"
    using alloc_str_memory [OF wf2 mem2] by blast
  have body: "get_key_request_body (arg_key_handle args) w2 = Some (Ptr b, w3)"
    using key_request_body_eq [OF wf2 cstr_mono [OF le2 handle(1)]] len(2) w3(1) by (simp add: int_max_def)
  note inv3 = resp_inv_fresh [OF w2(2) w3(2)]
  have le3: "?g \<subseteq>\<^sub>m heap w3"
    using le2 w3(2) wf2 by (auto simp: fresh_str_def intro: map_le_trans map_le_fresh world_wfD)
  have d3: "does L [] w w3" using does_trans [OF d2 does_heap_only [OF w3(3)]] by simp
  have wf3: "world_wf w3" and mem3: "\<forall>n. alloc_ok w3 n"
    using w3(2) mem does_frame(2) [OF d3] by (simp_all add: fresh_str_def)
  obtain c w4 where w4: "alloc_str ?url w3 = (Ptr c, w4)" "fresh_str ?url w3 (Ptr c) w4" "heap_only w3 w4"
    using alloc_str_memory [OF wf3 mem3] by blast
  have url: "get_key_request_url (arg_host args) w3 = Some (Ptr c, w4)"
    using key_request_url_eq [OF wf3 cstr_mono [OF le3 host(1)] len(1)] w4(1) by simp
  note inv4 = resp_inv_fresh [OF inv3(1) w4(2)]
  have le34: "heap w3 \<subseteq>\<^sub>m heap w4"
    using w4(2) wf3 by (auto simp: fresh_str_def intro: map_le_fresh world_wfD)
  note le4 = map_le_trans [OF le3 le34]
  obtain e0 w5 where w5: "init_https_client L w4 = (e0, w5)" "heap w5 = heap w4" "brk w5 = brk w4"
      "g_hex_digest w5 = g_hex_digest w4" "does L [Curl_global_init] w4 w5"
    using init_https_client_ok by blast
  have inv5: "resp_inv (?g(b \<mapsto> str_obj ?body, c \<mapsto> str_obj ?url)) p None [] w5"
    by (rule resp_inv_cong [OF inv4(1)]) (use w5 in simp_all)
  have d5: "does L [Curl_global_init] w w5"
    using does_trans [OF d3 does_nothing [OF does_heap_only [OF w4(3)] w5(5)]] by simp
  let ?rq = "\<lparr>req_body = Ptr b, req_port = arg_port args, req_secret = arg_secret args,
    req_skip_validation = (arg_validate args = No), req_url = Ptr c, req_username = arg_username args\<rparr>"
  let ?rq' = "?rq\<lparr>req_body := NULL, req_url := NULL\<rparr>"
  have str: "cstr (Ptr b) w5 = Some ?body" "cstr (Ptr c) w5 = Some ?url"
  proof -
    have "cstr (Ptr b) w3 = Some ?body"
      using w3(2) texts_no_nul(1) [OF handle(1)] by (auto elim!: fresh_str_cases)
    then show "cstr (Ptr b) w5 = Some ?body"
      using cstr_mono [OF le34] cstr_heap_cong [OF w5(2)] by simp
    show "cstr (Ptr c) w5 = Some ?url"
      using w4(2) texts_no_nul(2) [OF host(1)] cstr_heap_cong [OF w5(2)] by (auto elim!: fresh_str_cases)
  qed
  have "args_ready args host handle w5"
    by (rule args_ready_mono [OF args]) (use le4 w5(2) does_frame(2) [OF d5] in simp_all)
  then have "request_ready ?rq ?url (Some ?body) w5"
    by (rule request_readyI) (use str len(2) in \<open>simp_all add: setopt_string_def\<close>)
  from https_hmac_body_ok(1) [OF L inv5 this] obtain e t w6 where
    w6: "https_hmac_POST L ?rq (Ptr p) w5 = Some (transfer_err t, w6)"
      "resp_inv (?g(b \<mapsto> str_obj ?body, c \<mapsto> str_obj ?url)) p (answer_body t) (received_headers (tr_data t)) w6"
      "status_of (Ptr p) w6 = Some (tr_response_code t)" "does L [Perform e t] w5 w6"
      "asked e ?url (Some ?body) None" "answered L t"
    by blast
  note drop1 = resp_inv_drop [OF w6(2) inv4(2)]
  let ?w7 = "w6\<lparr>heap := (heap w6)(c := None)\<rparr>"
  note drop2 = resp_inv_drop [OF drop1(2) inv3(2)]
  let ?w8 = "?w7\<lparr>heap := (heap ?w7)(b := None)\<rparr>"
  have cb: "c \<noteq> b" using inv4(2) by auto
  have b6: "heap w6 b = Some (str_obj ?body)" using drop2(1) cb by simp
  have sw: "w6\<lparr>heap := (heap w6)(b := None)\<rparr>\<lparr>heap := (heap (w6\<lparr>heap := (heap w6)(b := None)\<rparr>))(c := None)\<rparr> = ?w8"
    using cb by (simp add: fun_upd_twist)
  have c6: "heap (w6\<lparr>heap := (heap w6)(b := None)\<rparr>) c = Some (str_obj ?url)"
    using drop1(1) cb by simp
  obtain r where r: "heap ?w8 p = Some (Response r)" using resp_invD [OF drop2(2)] by blast
  have "p \<noteq> b" "p \<noteq> c" using drop1(3) drop2(3) by auto
  then have "heap w6 p = Some (Response r)" using r by simp
  then have st: "resp_status r = tr_response_code t" using w6(3) by simp
  have arg1: "arguments_of a w1 = Some args" using arguments_of_mono [OF le1 arg] .
  have d8: "does L [Curl_global_init, Perform e t] w ?w8"
    using does_trans [OF d5 w6(4)] by simp
  have free2: "free (Ptr b) w6 = Some (w6\<lparr>heap := (heap w6)(b := None)\<rparr>)"
    "free (Ptr c) (w6\<lparr>heap := (heap w6)(b := None)\<rparr>) = Some ?w8"
    using free_Ptr [OF b6] free_Ptr [OF c6] sw by simp_all
  have status: "status_of (Ptr p) ?w8 = Some (tr_response_code t)" using r st by simp
  have run: "request_key L J D fuel a w = check_created L J D fuel args ?rq' (Ptr p) ?w8"
    by (simp only: request_key_def w1(1) arg1 w2(1) body url w5(1) w6(1) free2 Option.bind.simps
        prod.case ptr.distinct if_False Let_def)
  show ?thesis
    by (intro exI [of _ p] exI [of _ e] exI [of _ t] exI [of _ ?w8] exI [of _ ?rq'] conjI drop2(2) d8
        w6(5,6) status run) simp_all
qed

text \<open>
  The refinement: every run is a run of the protocol, delivers through the two modules, and leaves
  the heap as it was. When the fuel is used up, so many answers were \<^verbatim>\<open>PENDING\<close>.
\<close>

lemma free_after_log:
  assumes "logger level fmt as w = Some w1" "resp_inv g p body hs w"
  shows "\<exists>w'. free_response (Ptr p) w1 = Some w' \<and> heap w' = g \<and> world_wf w' \<and> does L [] w w'"
proof -
  obtain w' where "free_response (Ptr p) w1 = Some w'" "heap w' = g" "world_wf w'" "heap_only w1 w'"
    using free_response_inv [OF resp_inv_logger [OF assms]] by blast
  then show ?thesis using does_nothing [OF does_logger [OF assms(1)] does_heap_only] by blast
qed

lemma int_of_double_range: "int_of_double d = Some i \<Longrightarrow> - 2147483648 \<le> i \<and> i \<le> 2147483647"
  by (auto simp: int_of_double_def Let_def split: option.splits if_splits)

lemma id_in_range: "id_in J body = Some i \<Longrightarrow> - 2147483648 \<le> i \<and> i \<le> 2147483647"
  by (auto simp: id_in_def split: option.splits if_splits dest: int_of_double_range)

lemma created_undefined:
  assumes inv: "resp_inv g p (answer_body t) (received_headers (tr_data t)) w" and mem: "\<forall>n. alloc_ok w n"
    and hs: "c_strings (received_headers (tr_data t))"
      "list_all (\<lambda>h. length h \<le> int_max) (received_headers (tr_data t))"
    and status: "status_of (Ptr p) w = Some 201" and bad: "\<not> sane_answer J t"
  shows "check_created L J D fuel args rq (Ptr p) w = None"
proof -
  obtain r where r: "response_of (Ptr p) w = Some r" and st: "resp_status r = 201"
    using status by (auto simp: status_of_def)
  show ?thesis
  proof (cases "content_type_ok (received_headers (tr_data t))")
    case False
    then show ?thesis
      using r st by (simp add: check_created_def validate_content_type_undefined [OF inv mem hs])
  next
    case True
    with bad have i: "id_in J (answer_body t) = None" by (simp add: sane_answer_def)
    obtain w2 where w2: "validate_content_type (Ptr p) w = Some w2"
        "resp_inv g p (answer_body t) (received_headers (tr_data t)) w2"
      using validate_content_type_spec [OF inv mem hs True] by blast
    show ?thesis
      using r st w2(1) get_request_id_undefined [OF w2(2) i] by (simp add: check_created_def)
  qed
qed

lemma request_key_safe:
  fixes w :: "'e world"
  assumes L: "healthy L" and J: "json_ok J" and wf: "world_wf w"
    and set: "settings_ready a args host handle w"
    and ready: "modules_ready sd st en1 fd en2 w" and fuel: "0 < fuel"
    and safe: "\<And>es. request_key L J (dispatch P) fuel a w = None \<Longrightarrow> genuine L es (ext w) \<Longrightarrow>
      stuck J host handle es \<Longrightarrow> False"
  shows "\<exists>res w' es. request_key L J (dispatch P) fuel a w = Some (res, w') \<and> did es w w' \<and>
    genuine L es (ext w) \<and>
    (case res of
       None \<Rightarrow> \<exists>e t i es'. created J host handle e t i \<and> waiting J (show_url host i) fuel es' \<and>
         es = [Curl_global_init, Perform e t] @ es'
     | Some err \<Rightarrow> key_protocol J host handle (delivered P en1 fd en2) es err \<and>
         heap w' = heap w \<and> world_wf w')"
proof -
  let ?g = "heap w"
  from post_spec [OF L wf set, of J "dispatch P" fuel] obtain p e t w1 rq where
    inv: "resp_inv ?g p (answer_body t) (received_headers (tr_data t)) w1"
    and d: "does L [Curl_global_init, Perform e t] w w1" and t: "answered L t"
    and e: "asked e (requests_url host) (Some (request_body_text handle)) None"
    and status: "status_of (Ptr p) w1 = Some (tr_response_code t)"
    and rq: "req_username rq = arg_username args" "req_secret rq = arg_secret args" "req_body rq = NULL"
    and run: "request_key L J (dispatch P) fuel a w = check_created L J (dispatch P) fuel args rq (Ptr p) w1"
    by blast
  obtain r where r: "response_of (Ptr p) w1 = Some r" and st: "resp_status r = tr_response_code t"
    using status by (auto simp: status_of_def)
  show ?thesis
  proof (cases "tr_response_code t = 201")
    case False
    define fmt as where "fmt = (if resp_status r = 401 then ''Authentication against the server failed. '' @
        ''Maybe the user or secret are incorrect?'' @ [LF]
      else ''Communication with the server failed with code %ld.'' @ [LF])"
      and "as = (if resp_status r = 401 then [] else [AInt (resp_status r)])"
    have "format fmt as w1 \<noteq> None" by (simp add: fmt_def as_def)
    then obtain w2 where w2: "logger LOG_ERROR fmt as w1 = Some w2" using logger_defined by blast
    obtain w' where w': "free_response (Ptr p) w2 = Some w'" "heap w' = ?g" "world_wf w'" "does L [] w1 w'"
      using free_after_log [OF w2 inv] by blast
    have "request_key L J (dispatch P) fuel a w = Some (Some UL_ERR, w')"
      using run r w2 w'(1) False st by (auto simp: check_created_def fmt_def as_def split: if_splits)
    moreover
    have "does L [Curl_global_init, Perform e t] w w'" using does_trans [OF d w'(4)] by simp
    then have "did [Curl_global_init, Perform e t] w w' \<and> genuine L [Curl_global_init, Perform e t] (ext w)"
      by (rule does_run)
    moreover have "key_protocol J host handle (delivered P en1 fd en2) [Curl_global_init, Perform e t] UL_ERR"
      using e False by (rule key_protocol.Refused)
    ultimately show ?thesis using w'(2,3)
      by (intro exI [of _ "Some UL_ERR"] exI [of _ w'] exI [of _ "[Curl_global_init, Perform e t]"]) simp
  next
    case True
    have args: "args_ready args host handle w" using set by (simp add: settings_ready_def)
    then have mem: "\<forall>n. alloc_ok w n" by (simp add: args_ready_def)
    have mem1: "\<forall>n. alloc_ok w1 n" using mem does_frame(2) [OF d] by simp
    have fits: "list_all header_fits (tr_data t)" using answered_fits [OF L t] by (simp add: answer_fits_def)
    have ok: "sane_answer J t"
    proof (rule ccontr)
      assume bad: "\<not> sane_answer J t"
      have "request_key L J (dispatch P) fuel a w = None"
        using created_undefined [OF inv mem1 received_headers_ok [OF fits] _ bad] status True by (simp add: run)
      moreover have "genuine L [Curl_global_init, Perform e t] (ext w)" using d by (simp add: does_def)
      ultimately show False using safe stuck.Bad_answer [OF e True bad] by blast
    qed
    then obtain i where i: "id_in J (answer_body t) = Some i" by (auto simp: sane_answer_def)
    obtain w2 where w2: "validate_content_type (Ptr p) w1 = Some w2"
        "resp_inv ?g p (answer_body t) (received_headers (tr_data t)) w2" "does L [] w1 w2"
      using validate_content_type_spec [OF inv mem1 received_headers_ok [OF fits]] ok
      by (auto simp: sane_answer_def does_nil)
    obtain w3 where w3: "get_request_id J (Ptr p) w2 = Some (i, w3)"
        "resp_inv ?g p (answer_body t) (received_headers (tr_data t)) w3" "does L [] w2 w3"
      using get_request_id_spec [OF w2(2) i] by (auto simp: does_nil)
    obtain w4 where w4: "free_response (Ptr p) w3 = Some w4" "heap w4 = ?g" "world_wf w4" "heap_only w3 w4"
      using free_response_inv [OF w3(2)] by blast
    have d4: "does L [Curl_global_init, Perform e t] w w4"
      using does_trans [OF d does_nothing [OF w2(3) does_nothing [OF w3(3) does_heap_only [OF w4(4)]]]] by simp
    note fr = does_frame [OF d4]
    have le: "heap w \<subseteq>\<^sub>m heap w4" using w4(2) by simp
    have "args_ready args host handle w4" using args_ready_mono [OF args le] fr(2) by simp
    moreover have "modules_ready sd st en1 fd en2 w4"
      using modules_ready_mono [OF ready le w4(3)] fr by simp
    moreover have run4: "request_key L J (dispatch P) fuel a w = await_key L J (dispatch P) fuel args rq i w4"
      using run r True st w2(1) w3(1) w4(1) by (simp add: check_created_def)
    moreover have c: "created J host handle e t i" using e True i by (simp add: created_def)
    have "False" if "await_key L J (dispatch P) fuel args rq i w4 = None" "genuine L es (ext w4)"
      "stuck_waiting J (show_url host i) es" for es
    proof (rule safe)
      show "request_key L J (dispatch P) fuel a w = None" using run4 that(1) by simp
      show "genuine L ([Curl_global_init, Perform e t] @ es) (ext w)" by (rule does_genuine [OF d4 that(2)])
      show "stuck J host handle ([Curl_global_init, Perform e t] @ es)" by (rule stuck.Keyless [OF c that(3)])
    qed
    ultimately obtain res w' es where w': "await_key L J (dispatch P) fuel args rq i w4 = Some (res, w')"
      "did es w4 w'"
      "genuine L es (ext w4)" "case res of
         None \<Rightarrow> waiting J (show_url host i) fuel es
       | Some err \<Rightarrow> awaited J (show_url host i) (delivered P en1 fd en2) es err \<and> heap w' = heap w4 \<and> world_wf w'"
      using await_key_spec [OF L J w4(3) _ _ _ rq _ fuel, of host handle i sd st en1 fd en2 P]
        id_in_range [OF i] by blast
    have "request_key L J (dispatch P) fuel a w = Some (res, w')" using run4 w'(1) by simp
    moreover note did_trans [OF does_did [OF d4] w'(2)] does_genuine [OF d4 w'(3)]
    ultimately show ?thesis
      using c w'(4) w4(2) key_protocol.Created [OF c, of "delivered P en1 fd en2" es]
      by (intro exI [of _ res] exI [of _ w'] exI [of _ "[Curl_global_init, Perform e t] @ es"])
        (cases res; auto)
  qed
qed

text \<open>Without a word on the answers: the run is one of the protocol, or its trace so far is stuck.\<close>

lemma request_key_outcome:
  fixes w :: "'e world"
  assumes "healthy L" "json_ok J" "world_wf w" "settings_ready a args host handle w"
    "modules_ready sd st en1 fd en2 w" "0 < fuel"
  obtains (Returns) res w' es where "request_key L J (dispatch P) fuel a w = Some (res, w')" "did es w w'"
      "genuine L es (ext w)"
      "case res of
         None \<Rightarrow> \<exists>e t i es'. created J host handle e t i \<and> waiting J (show_url host i) fuel es' \<and>
           es = [Curl_global_init, Perform e t] @ es'
       | Some err \<Rightarrow> key_protocol J host handle (delivered P en1 fd en2) es err \<and>
           heap w' = heap w \<and> world_wf w'"
    | (Undefined) es where "request_key L J (dispatch P) fuel a w = None" "genuine L es (ext w)"
      "stuck J host handle es"
  using request_key_safe [OF assms, where P = P] by blast

text \<open>Answers the code can handle exclude the second case.\<close>

lemma stuck_insane:
  assumes S: "sane J L" and g: "genuine L es x" and "stuck J host handle es"
  shows False
  using assms(3)
proof (cases rule: stuck.cases)
  case (Bad_answer e t)
  then have "fst (round_trip L e (after L Curl_global_init x)) = t" using g by simp
  then have "sane_answer J t" using S by (auto simp: sane_def round_trip_def)
  with Bad_answer show ?thesis by simp
next
  case (Keyless e t i es')
  from Keyless(3) show ?thesis
  proof (cases rule: stuck_waiting.cases)
    case (No_key pre e1 t1)
    then obtain y where "fst (round_trip L e1 y) = t1"
      using g Keyless(1) genuine_answer [of L "[Curl_global_init, Perform e t] @ pre" e1 t1 "[Curl_global_cleanup]" x]
        polling_net [OF No_key(2)] by auto
    with sane_patched [OF S] No_key show ?thesis by blast
  qed
qed

lemma request_key_spec:
  fixes w :: "'e world"
  assumes "healthy L" "json_ok J" "sane J L" "world_wf w" "settings_ready a args host handle w"
    "modules_ready sd st en1 fd en2 w" "0 < fuel"
  shows "\<exists>res w' es. request_key L J (dispatch P) fuel a w = Some (res, w') \<and> did es w w' \<and>
    genuine L es (ext w) \<and>
    (case res of
       None \<Rightarrow> \<exists>e t i es'. created J host handle e t i \<and> waiting J (show_url host i) fuel es' \<and>
         es = [Curl_global_init, Perform e t] @ es'
     | Some err \<Rightarrow> key_protocol J host handle (delivered P en1 fd en2) es err \<and>
         heap w' = heap w \<and> world_wf w')"
  by (rule request_key_safe [OF assms(1,2,4-7)]) (rule stuck_insane [OF assms(3)])

end
