(* ===== verification/Sockets.thy ===== *)
theory Sockets
  imports Errors_Log
begin

text \<open>
  \<^verbatim>\<open>src/sockets.c\<close>: a socket in the file system that hands the key to one client. The system calls are
  parameters: each takes the state of the outside and returns its result.
\<close>

record 'e socket_calls =
  sys_socket :: "'e \<Rightarrow> int \<times> 'e"
  sys_bind :: "int \<Rightarrow> string \<Rightarrow> 'e \<Rightarrow> int \<times> 'e"
  sys_listen :: "int \<Rightarrow> 'e \<Rightarrow> int \<times> 'e"
  sys_accept :: "int \<Rightarrow> 'e \<Rightarrow> int \<times> 'e"
  sys_send :: "int \<Rightarrow> string \<Rightarrow> 'e \<Rightarrow> int \<times> 'e"
  sys_strerror :: "'e \<Rightarrow> string"

abbreviation (input) EXIT_SUCCESS :: int where "EXIT_SUCCESS \<equiv> 0"
abbreviation (input) EXIT_FAILURE :: int where "EXIT_FAILURE \<equiv> 1"

definition SOCKET_PATH :: string where "SOCKET_PATH = ''test.sock''"

definition perror :: "'e socket_calls \<Rightarrow> string \<Rightarrow> 'e world \<Rightarrow> 'e world" where
  "perror Y s w = emit (Print Stderr (s @ '': '' @ sys_strerror Y (ext w) @ [LF])) w"

definition cleanup_socket :: "'e world \<Rightarrow> 'e world" where
  "cleanup_socket w =
     (let w = emit (Unlink SOCKET_PATH) w
      in if g_socket_fd w \<ge> 0 then (emit (Close (g_socket_fd w)) w)\<lparr>g_socket_fd := - 1\<rparr> else w)"

text \<open>The mode of the socket is the decimal number 777.\<close>

definition init_socket :: "'e socket_calls \<Rightarrow> 'e world \<Rightarrow> int \<times> 'e world" where
  "init_socket Y w =
     (let (fd, x) = sys_socket Y (ext w);
          w = w\<lparr>ext := x, g_socket_fd := fd\<rparr>
      in if fd < 0 then (EXIT_FAILURE, perror Y ''Socket'' w)
         else
           let w = emit (Unlink SOCKET_PATH) w;
               w = emit (Fchmod fd 777) w;
               (bound, x) = sys_bind Y fd SOCKET_PATH (ext w);
               w = w\<lparr>ext := x\<rparr>
           in if bound < 0 then (EXIT_FAILURE, cleanup_socket (perror Y ''Bind'' w))
              else
                let (listening, x) = sys_listen Y fd (ext w);
                    w = w\<lparr>ext := x\<rparr>
                in if listening = - 1 then (EXIT_FAILURE, cleanup_socket (perror Y ''Listen'' w))
                   else (EXIT_SUCCESS, w))"

text \<open>\<open>ret\<close> is an \<^verbatim>\<open>int\<close>; a partial send counts as success, and the client's descriptor stays open.\<close>

definition socket_callback :: "'e socket_calls \<Rightarrow> string \<Rightarrow> nat \<Rightarrow> 'e world \<Rightarrow> (int, 'e) res" where
  "socket_callback Y key key_len w =
     (let (clientfd, x) = sys_accept Y (g_socket_fd w) (ext w);
          w = emit (Accept (g_socket_fd w)) (w\<lparr>ext := x\<rparr>)
      in if clientfd < 0 then Some (EXIT_FAILURE, cleanup_socket (perror Y ''Accept'' w))
         else if length key + 1 < key_len then None
         else
           let data = take key_len (key @ [NUL]);
               (sent, x) = sys_send Y clientfd data (ext w);
               w = emit (Send clientfd data) (w\<lparr>ext := x\<rparr>);
               ret = signed_take_bit 31 sent
           in if ret < 0 then Some (EXIT_FAILURE, cleanup_socket (perror Y ''Send: '' w))
              else Some (EXIT_SUCCESS, w))"

definition getKey ::
  "(nat \<Rightarrow> 'e \<Rightarrow> 'e) \<Rightarrow> (string \<Rightarrow> nat \<Rightarrow> 'e world \<Rightarrow> (int, 'e) res) \<Rightarrow> 'e world \<Rightarrow> (int, 'e) res" where
  "getKey sleeper result_cb w =
     result_cb ''12345678123456781234567812345678'' 32
       (emit (Sleep 10) (w\<lparr>ext := sleeper 10 (ext w)\<rparr>))"

end
