(* ===== verification/Main_Program.thy ===== *)
theory Main_Program
  imports Cli Exchange Sockets
begin

text \<open>
  \<^verbatim>\<open>src/main.c\<close>: the check of the settings and the composition of all components. The state the
  program starts in has an empty heap and no modules.
\<close>

definition start :: "(nat \<Rightarrow> bool) \<Rightarrow> 'e \<Rightarrow> 'e world" where
  "start allocs x =
     \<lparr>heap = (\<lambda>_. None), brk = 0, alloc_ok = allocs, trace = [], ext = x, g_is_debug = False,
      g_modules = NULL, g_module_count = 0, g_sub_parsers = NULL, g_sub_parser_inputs = NULL,
      g_sub_parser_count = 0, g_hex_digest = replicate 129 NUL, g_socket_fd = - 1\<rparr>"

definition complain :: "string \<Rightarrow> 'e world \<Rightarrow> 'e world" where
  "complain s w = emit (Print Stderr (s @ [LF])) w"

definition validate_args :: "ptr \<Rightarrow> 'e world \<Rightarrow> (int, 'e) res" where
  "validate_args arguments w = do {
     a \<leftarrow> arguments_of arguments w;
     Some (if arg_host a = NULL then (EXIT_FAILURE, complain ''No hostname given'' w)
           else if arg_port a = 0 then (EXIT_FAILURE, complain ''Invalid port given'' w)
           else if arg_key_handle a = NULL then (EXIT_FAILURE, complain ''No key handle given'' w)
           else if arg_secret a = NULL then (EXIT_FAILURE, complain ''No secret given'' w)
           else if arg_username a = NULL then (EXIT_FAILURE, complain ''No username given'' w)
           else (EXIT_SUCCESS, w))
   }"

text \<open>What is freed before the program ends.\<close>

definition tear_down :: "'e dispatch \<Rightarrow> ptr \<Rightarrow> 'e world \<Rightarrow> 'e world option" where
  "tear_down D arguments w = do {
     w \<leftarrow> free_args arguments w;
     w \<leftarrow> free_child_parsers w;
     (_, w) \<leftarrow> cleanup_modules D w;
     Some w
   }"

text \<open>
  \<^verbatim>\<open>main\<close>: its exit status, or \<open>None\<close> while the server still asks to wait. \<open>errno_text\<close> is
  \<^verbatim>\<open>strerror (errno)\<close>; the message of an error is used as a format. The result of \<^verbatim>\<open>handle_args\<close> is
  dropped.
\<close>

definition main ::
  "'e lib \<Rightarrow> cjson \<Rightarrow> 'e platform \<Rightarrow> (string \<Rightarrow> 'e \<Rightarrow> dictionary option) \<Rightarrow> string \<Rightarrow> nat \<Rightarrow>
   arg_event list \<Rightarrow> 'e world \<Rightarrow> (int option, 'e) res" where
  "main L J P iniparser_load errno_text fuel events w = do {
     let D = dispatch P;
     (arguments, w) \<leftarrow> create_args w;
     if arguments = NULL then Some (Some EXIT_FAILURE, w)
     else do {
       a \<leftarrow> arguments_of arguments w;
       w \<leftarrow> assign arguments (Arguments (a\<lparr>arg_port := 443, arg_validate := Yes\<rparr>)) w;
       (sd, w) \<leftarrow> get_mod_sd_socket w;
       (_, w) \<leftarrow> register_module sd w;
       (st, w) \<leftarrow> get_mod_stdout w;
       (_, w) \<leftarrow> register_module st w;
       (handled, w) \<leftarrow> handle_args D iniparser_load events arguments w;
       case handled of
         Inl code \<Rightarrow> Some (Some code, w)
       | Inr _ \<Rightarrow> do {
           (valid, w) \<leftarrow> validate_args arguments w;
           if valid \<noteq> EXIT_SUCCESS then do {
             w \<leftarrow> tear_down D arguments w;
             Some (Some EXIT_FAILURE, w)
           }
           else do {
             (err, w) \<leftarrow> initialize_modules D w;
             if err \<noteq> UL_OK then do {
               w \<leftarrow> tear_down D arguments w;
               w \<leftarrow> logger LOG_ERROR (ul_error errno_text (err_code err)) [] w;
               Some (Some EXIT_FAILURE, w)
             }
             else do {
               (requested, w) \<leftarrow> request_key L J D fuel arguments w;
               case requested of
                 None \<Rightarrow> Some (None, w)
               | Some err \<Rightarrow> do {
                   w \<leftarrow> tear_down D arguments w;
                   if err \<noteq> UL_OK then do {
                     w \<leftarrow> logger LOG_ERROR (ul_error errno_text (err_code err)) [] w;
                     Some (Some EXIT_FAILURE, w)
                   }
                   else Some (Some EXIT_SUCCESS, w)
                 }
             }
           }
         }
     }
   }"

end
