(* ===== verification/Key_Trace.thy ===== *)
theory Key_Trace
  imports Exchange
begin

text \<open>
  What the protocol relations of Exchange say about a trace: where the key can be handed
  over, which answer ends the polling, how many requests were made, and when the polling ends. The
  properties of the exchange are read off from these facts.
\<close>

section \<open>Handing over the key\<close>

text \<open>The events that fetch the key from the server or give it to somebody.\<close>

fun reveals :: "event \<Rightarrow> bool" where
  "reveals (Perform e t) \<longleftrightarrow> opt_customrequest e = Some ''PATCH''"
| "reveals (Fwrite s) \<longleftrightarrow> True"
| "reveals (Send fd s) \<longleftrightarrow> True"
| "reveals _ \<longleftrightarrow> False"

fun is_perform :: "event \<Rightarrow> bool" where
  "is_perform (Perform _ _) = True"
| "is_perform _ = False"

abbreviation secret :: "event list \<Rightarrow> bool" where
  "secret es \<equiv> list_all (\<lambda>x. \<not> reveals x) es"

lemma asked_no_patch: "asked e url body None \<Longrightarrow> \<not> reveals (Perform e t)"
  by (simp add: asked_def)

lemma polling_last:
  "polling J url es st \<Longrightarrow>
   \<exists>pre e t. es = pre @ [Perform e t] \<and> asked e url None None \<and> answer_state J t = st"
proof (induction rule: polling.induct)
  case (Answered e t)
  then show ?case by blast
next
  case (Pending e t es st)
  then obtain pre e' t' where "es = pre @ [Perform e' t']" "asked e' url None None" "answer_state J t' = st"
    by blast
  then show ?case
    by (intro exI [of _ "Perform e t # Sleep 1 # pre"] exI [of _ e'] exI [of _ t']) simp
qed

lemma polling_secret: "polling J url es st \<Longrightarrow> secret es"
  by (induction rule: polling.induct) (auto dest: asked_no_patch)

lemma polling_decided: "polling J url es st \<Longrightarrow> st \<noteq> Some ''PENDING''"
  by (induction rule: polling.induct) auto

lemma waiting_secret: "waiting J url n es \<Longrightarrow> secret es"
  by (induction rule: waiting.induct) (auto dest: asked_no_patch)

lemma waiting_count: "waiting J url n es \<Longrightarrow> length (filter is_perform es) = n"
  by (induction rule: waiting.induct) auto

lemma waiting_pending:
  "waiting J url n es \<Longrightarrow> Perform e t \<in> set es \<Longrightarrow>
   asked e url None None \<and> answer_state J t = Some ''PENDING''"
  by (induction rule: waiting.induct) auto

lemma polling_pending:
  "polling J url es st \<Longrightarrow> \<exists>n pre e t. waiting J url n pre \<and>
     es = (if n = 0 then [] else pre @ [Sleep 1]) @ [Perform e t] \<and> answer_state J t = st \<and>
     st \<noteq> Some ''PENDING''"
proof (induction rule: polling.induct)
  case (Answered e t)
  then show ?case by (intro exI [of _ 0] exI [of _ "[]"]) (auto intro: waiting.Out)
next
  case (Pending e t es st)
  then obtain n pre e' t' where IH: "waiting J url n pre"
    "es = (if n = 0 then [] else pre @ [Sleep 1]) @ [Perform e' t']" "answer_state J t' = st"
    "st \<noteq> Some ''PENDING''" by blast
  show ?case
  proof (cases n)
    case 0
    then show ?thesis using IH waiting.Last [OF Pending.hyps(1,2)]
      by (intro exI [of _ 1] exI [of _ "[Perform e t]"] exI [of _ e'] exI [of _ t']) simp
  next
    case (Suc m)
    then show ?thesis using IH waiting.More [OF Pending.hyps(1,2), of m pre]
      by (intro exI [of _ "Suc (Suc m)"] exI [of _ "Perform e t # Sleep 1 # pre"] exI [of _ e'] exI [of _ t'])
        simp
  qed
qed

section \<open>The deliveries\<close>

lemma delivered_results:
  assumes "delivered P en1 fd en2 k err es"
  shows "err \<in> {UL_OK, UL_ERR, UL_ERRNO}"
  using assms
  by (auto simp: delivered_def sd_socket_outcome_def stdout_outcome_def split: if_splits)

text \<open>A successful delivery wrote the whole key to the standard output, if that module is on.\<close>

lemma delivered_stdout:
  assumes "delivered P en1 fd True k UL_OK es"
  shows "\<exists>es1. es = es1 @ [Fwrite k]"
  using assms by (auto simp: delivered_def stdout_outcome_def split: if_splits)

text \<open>A platform whose output works: then the module for the standard output cannot fail.\<close>

definition reliable_output :: "'e platform \<Rightarrow> bool" where
  "reliable_output P \<longleftrightarrow> (\<forall>s x. fst (os_fwrite P s x) = length s) \<and> (\<forall>x. fst (os_fflush P x))"

lemma stdout_outcome_reliable:
  assumes "stdout_outcome P True k err es" "reliable_output P"
  shows "err = UL_OK \<and> es = [Fwrite k]"
  using assms by (auto simp: stdout_outcome_def reliable_output_def) (metis fst_conv order_refl take_all)+

lemma delivered_reliable:
  assumes "delivered P False fd True k err es" "reliable_output P"
  shows "err = UL_OK \<and> es = [Fwrite k]"
  using assms stdout_outcome_reliable by (fastforce simp: delivered_def sd_socket_outcome_def)

text \<open>The only bytes a delivery gives away are those of the key.\<close>

lemma delivered_bytes:
  assumes "delivered P en1 fd en2 k err es"
  shows "Fwrite s \<in> set es \<Longrightarrow> \<exists>n. s = take n k" and "Send c s \<in> set es \<Longrightarrow> s = k"
  using assms
  by (auto simp: delivered_def sd_socket_outcome_def stdout_outcome_def intro: exI [of _ "length k"]
      split: if_splits)

lemma delivered_no_perform:
  assumes "delivered P en1 fd en2 k err es"
  shows "filter is_perform es = []"
  using assms
  by (auto simp: delivered_def sd_socket_outcome_def stdout_outcome_def split: if_splits)

section \<open>Runs of the protocol\<close>

text \<open>The state of the request that decided over the run.\<close>

lemma awaited_shape:
  assumes "awaited J url deliver es err"
  obtains (Closed) pre e t rest where "es = pre @ [Perform e t] @ rest" "secret pre" "secret rest"
      "asked e url None None" "answer_state J t \<noteq> Some ''ACCEPTED''"
      "answer_state J t \<noteq> Some ''PENDING''" "list_all net pre"
      "err = (if answer_state J t = Some ''DENIED'' then UL_DENIED else UL_ERR)"
      "filter is_perform rest = []"
    | (Opened) pre e t e' t' ds where
      "es = pre @ [Perform e t, Perform e' t', Curl_global_cleanup] @ ds" "secret pre"
      "asked e url None None" "answer_state J t = Some ''ACCEPTED''"
      "asked e' url (Some fulfilled_body) (Some ''PATCH'')" "deliver (key_in t') err ds" "list_all net pre"
      "has_key t'"
  using assms
proof (cases rule: awaited.cases)
  case (No_state es')
  from polling_last [OF No_state(3)] obtain pre e t where "es' = pre @ [Perform e t]"
    "asked e url None None" "answer_state J t = None" by blast
  with polling_secret [OF No_state(3)] polling_net [OF No_state(3)] polling_decided [OF No_state(3)] No_state Closed [of pre e t "[Curl_global_cleanup]"]
  show ?thesis by simp
next
  case Denied
  from polling_last [OF Denied(2)] obtain pre e t where "es = pre @ [Perform e t]"
    "asked e url None None" "answer_state J t = Some ''DENIED''" by blast
  with polling_secret [OF Denied(2)] polling_net [OF Denied(2)] polling_decided [OF Denied(2)] Denied Closed [of pre e t "[]"] show ?thesis by simp
next
  case (Unexpected s)
  from polling_last [OF Unexpected(2)] obtain pre e t where "es = pre @ [Perform e t]"
    "asked e url None None" "answer_state J t = Some s" by blast
  with polling_secret [OF Unexpected(2)] polling_net [OF Unexpected(2)] polling_decided [OF Unexpected(2)] Unexpected Closed [of pre e t "[]"] show ?thesis by simp
next
  case (Accepted es' e' t' ds)
  from polling_last [OF Accepted(2)] obtain pre e t where "es' = pre @ [Perform e t]"
    "asked e url None None" "answer_state J t = Some ''ACCEPTED''" by blast
  with polling_secret [OF Accepted(2)] polling_net [OF Accepted(2)] polling_decided [OF Accepted(2)] Accepted Opened [of pre e t e' t' ds] show ?thesis by simp
qed

lemma protocol_shape:
  assumes "key_protocol J host handle deliver es err"
  obtains (Refused) e t where "es = [Curl_global_init, Perform e t]" "tr_response_code t \<noteq> 201"
      "asked e (requests_url host) (Some (request_body_text handle)) None" "err = UL_ERR"
    | (Created) e t i es' where "es = [Curl_global_init, Perform e t] @ es'" "created J host handle e t i"
      "awaited J (show_url host i) deliver es' err"
  using assms by (cases rule: key_protocol.cases) (use that in blast)+

lemma created_secret: "created J host handle e t i \<Longrightarrow> secret [Curl_global_init, Perform e t]"
  by (simp add: created_def asked_def)

section \<open>Runs of the code\<close>

text \<open>A run of \<^verbatim>\<open>request_key\<close> by its result: either the fuel is used up, or it is a run of the protocol.\<close>

lemma request_key_runE:
  fixes w :: "'e world"
  assumes "healthy L" "json_ok J" "world_wf w" "settings_ready a args host handle w"
    "modules_ready sd st en1 fd en2 w" "0 < fuel"
    and "request_key L J (dispatch P) fuel a w = Some (res, w')" "actions w' = actions w @ es"
  obtains (Fuel) e t i es' where "res = None" "es = [Curl_global_init, Perform e t] @ es'"
      "created J host handle e t i" "waiting J (show_url host i) fuel es'" "genuine L es (ext w)"
    | (Run) err where "res = Some err" "key_protocol J host handle (delivered P en1 fd en2) es err"
      "heap w' = heap w" "world_wf w'" "genuine L es (ext w)"
proof (cases rule: request_key_outcome [OF assms(1-6), of P])
  case (1 r x ev)
  then have "r = res" "x = w'" "ev = es" using assms(7,8) by (simp_all add: did_def)
  with 1 that show thesis by (cases res) auto
next
  case (2 ev)
  with assms(7) show thesis by simp
qed

lemma request_key_restores:
  fixes w :: "'e world"
  assumes ready: "healthy L" "json_ok J" "world_wf w" "settings_ready a args host handle w"
    "modules_ready sd st en1 fd en2 w" "0 < fuel"
    and run: "request_key L J (dispatch P) fuel a w = Some (Some err, w')"
  shows "heap w' = heap w \<and> world_wf w'"
  by (cases rule: request_key_outcome [OF ready, of P]) (use run in auto)

lemma request_key_total:
  fixes w :: "'e world"
  assumes "healthy L" "json_ok J" "sane J L" "world_wf w" "settings_ready a args host handle w"
    "modules_ready sd st en1 fd en2 w" "0 < fuel"
  shows "\<exists>res w' es. request_key L J (dispatch P) fuel a w = Some (res, w') \<and> actions w' = actions w @ es"
  using request_key_spec [OF assms, of P] by (fastforce simp: did_def)

text \<open>
  Whatever reveals the key comes after the answer that accepts the request, the request that this run has created,
  and it reveals nothing but the answer to a PATCH of that request.
\<close>

lemma protocol_acceptance:
  assumes run: "key_protocol J host handle (delivered P en1 fd en2) es err" and x: "x \<in> set es" "reveals x"
  shows "\<exists>e0 t0 i pre e t e' t' ds.
    es = [Curl_global_init, Perform e0 t0] @ pre @ [Perform e t, Perform e' t', Curl_global_cleanup] @ ds \<and>
    created J host handle e0 t0 i \<and> x \<in> set (Perform e' t' # ds) \<and> secret ([Curl_global_init, Perform e0 t0] @ pre) \<and>
    asked e (show_url host i) None None \<and> answer_state J t = Some ''ACCEPTED'' \<and>
    asked e' (show_url host i) (Some fulfilled_body) (Some ''PATCH'') \<and> filter is_perform ds = [] \<and>
    (\<forall>s. Fwrite s \<in> set ds \<longrightarrow> (\<exists>n. s = take n (key_in t'))) \<and> (\<forall>c s. Send c s \<in> set ds \<longrightarrow> s = key_in t')"
  using run
proof (cases rule: protocol_shape)
  case (Refused e t)
  then show ?thesis using x by (auto dest: asked_no_patch)
next
  case (Created e0 t0 i es')
  note start = created_secret [OF Created(2)]
  from Created(3) show ?thesis
  proof (cases rule: awaited_shape)
    case (Closed pre e' t' rest)
    then have "secret es" using start Created(1) asked_no_patch [OF Closed(4)] by simp
    with x show ?thesis by (auto simp: list_all_iff)
  next
    case (Opened pre e t e' t' ds)
    have "secret ([Curl_global_init, Perform e0 t0] @ pre @ [Perform e t])"
      using start Opened(2) asked_no_patch [OF Opened(3)] by simp
    then have "x \<in> set (Perform e' t' # ds)"
      using x Created(1) Opened(1) by (auto simp: list_all_iff)
    then show ?thesis
      using Created(1,2) Opened start delivered_bytes [OF Opened(6)] delivered_no_perform [OF Opened(6)]
      by (intro exI [of _ e0] exI [of _ t0] exI [of _ i] exI [of _ pre] exI [of _ e] exI [of _ t] exI [of _ e']
          exI [of _ t'] exI [of _ ds]) simp
  qed
qed

section \<open>How much the program asks\<close>

text \<open>The requests for the state that were answered PENDING.\<close>

fun pending :: "cjson \<Rightarrow> event \<Rightarrow> bool" where
  "pending J (Perform e t) \<longleftrightarrow> opt_postfields e = None \<and> answer_state J t = Some ''PENDING''"
| "pending J _ \<longleftrightarrow> False"

fun is_sleep :: "event \<Rightarrow> bool" where
  "is_sleep (Sleep _) = True"
| "is_sleep _ = False"

text \<open>A pause of one second: behind a request for the state that was answered PENDING, and before the next one.\<close>

definition pauses_at :: "cjson \<Rightarrow> string \<Rightarrow> event list \<Rightarrow> event list \<Rightarrow> bool" where
  "pauses_at J url pre post \<longleftrightarrow> (\<exists>pre' e t e' t' post'. pre = pre' @ [Perform e t] \<and> post = Perform e' t' # post' \<and>
     asked e url None None \<and> answer_state J t = Some ''PENDING'' \<and> asked e' url None None)"

lemma pauses_at_Cons: "pauses_at J url pre post \<Longrightarrow> pauses_at J url (x # pre) post"
  unfolding pauses_at_def by (metis append_Cons)

lemma polling_starts: "polling J url es st \<Longrightarrow> \<exists>e t es'. es = Perform e t # es' \<and> asked e url None None"
  by (erule polling.cases) blast+

lemma waiting_starts: "waiting J url (Suc n) es \<Longrightarrow> \<exists>e t es'. es = Perform e t # es' \<and> asked e url None None"
  by (erule waiting.cases) blast+

lemma pause_step:
  assumes first: "asked e url None None" "answer_state J t = Some ''PENDING''"
    and next_turn: "\<exists>e' t' es'. es = Perform e' t' # es' \<and> asked e' url None None"
    and IH: "\<And>pre. es = pre @ Sleep n # post \<Longrightarrow> n = 1 \<and> pauses_at J url pre post"
    and split: "Perform e t # Sleep 1 # es = pre @ Sleep n # post"
  shows "n = 1 \<and> pauses_at J url pre post"
proof (cases pre)
  case Nil
  with split show ?thesis by simp
next
  case (Cons x xs)
  show ?thesis
  proof (cases xs)
    case Nil
    then have "n = 1" "post = es" "pre = [] @ [Perform e t]" using split Cons by simp_all
    then show ?thesis using first next_turn unfolding pauses_at_def by blast
  next
    case (Cons y ys)
    with split \<open>pre = x # xs\<close> IH [of ys] show ?thesis by (auto intro: pauses_at_Cons)
  qed
qed

lemma polling_pauses: "polling J url es st \<Longrightarrow> es = pre @ Sleep n # post \<Longrightarrow> n = 1 \<and> pauses_at J url pre post"
proof (induction arbitrary: pre rule: polling.induct)
  case (Answered e t)
  then show ?case by (auto simp: Cons_eq_append_conv)
next
  case (Pending e t es st)
  show ?case by (rule pause_step [OF Pending.hyps(1,2) polling_starts [OF Pending.hyps(3)] Pending.IH Pending.prems])
qed

lemma waiting_pauses: "waiting J url n' es \<Longrightarrow> es = pre @ Sleep n # post \<Longrightarrow> n = 1 \<and> pauses_at J url pre post"
proof (induction arbitrary: pre rule: waiting.induct)
  case (Last e t)
  then show ?case by (auto simp: Cons_eq_append_conv)
next
  case (More e t m es)
  show ?case by (rule pause_step [OF More.hyps(1,2) waiting_starts [OF More.hyps(3)] More.IH More.prems])
qed simp

lemma polling_counts:
  "polling J url es st \<Longrightarrow> length (filter is_perform es) = Suc (length (filter (pending J) es)) \<and>
   length (filter is_sleep es) = length (filter (pending J) es)"
  by (induction rule: polling.induct) (auto simp: asked_def)

lemma waiting_counts:
  "waiting J url n es \<Longrightarrow> length (filter is_perform es) = length (filter (pending J) es) \<and>
   length (filter is_sleep es) \<le> length (filter (pending J) es)"
  by (induction rule: waiting.induct) (auto simp: asked_def)

lemma delivered_quiet:
  assumes "delivered P en1 fd en2 k err es"
  shows "filter (pending J) es = []" "filter is_sleep es = []"
  using assms
  by (auto simp: delivered_def sd_socket_outcome_def stdout_outcome_def split: if_splits)

lemma awaited_counts:
  assumes "awaited J url (delivered P en1 fd en2) es err"
  obtains ps rest st where "es = ps @ rest" "polling J url ps st" "filter (pending J) rest = []" "filter is_sleep rest = []"
    "length (filter is_perform rest) \<le> 1"
  using assms
proof (cases rule: awaited.cases)
  case (No_state ps)
  then show ?thesis using that [of ps "[Curl_global_cleanup]"] by simp
next
  case Denied
  then show ?thesis using that [of es "[]"] by simp
next
  case (Unexpected s)
  then show ?thesis using that [of es "[]"] by simp
next
  case (Accepted ps e t ds)
  have "opt_postfields e \<noteq> None" using Accepted(3) by (simp add: asked_def)
  then show ?thesis
    using that [of ps "[Perform e t, Curl_global_cleanup] @ ds"] Accepted(1,2) delivered_quiet [OF Accepted(5)]
      delivered_no_perform [OF Accepted(5)] by simp
qed

text \<open>A sleep in a list whose rest has none.\<close>

lemma pauses_at_append: "pauses_at J url pre post \<Longrightarrow> pauses_at J url pre (post @ rest)"
  unfolding pauses_at_def by (metis append_Cons)

lemma sleep_in_front:
  assumes "ps @ rest = pre @ Sleep n # post" "filter is_sleep rest = []"
  obtains us where "ps = pre @ Sleep n # us" "post = us @ rest"
proof -
  from assms(1) consider us where "pre = ps @ us" "us @ Sleep n # post = rest"
    | us where "ps = pre @ us" "us @ rest = Sleep n # post"
    by (auto simp: append_eq_append_conv2)
  then show thesis
  proof cases
    case 1
    with assms(2) show ?thesis by auto
  next
    case 2
    show ?thesis
    proof (cases us)
      case Nil
      then have "rest = Sleep n # post" using 2(2) by simp
      with assms(2) show ?thesis by simp
    next
      case (Cons u vs)
      then show ?thesis using 2 that by simp
    qed
  qed
qed

lemma awaited_pauses:
  assumes "awaited J url (delivered P en1 fd en2) es err" "es = pre @ Sleep n # post"
  shows "n = 1 \<and> pauses_at J url pre post"
proof -
  obtain ps rest st where r: "es = ps @ rest" "polling J url ps st" "filter is_sleep rest = []"
    using assms(1) by (rule awaited_counts)
  obtain us where us: "ps = pre @ Sleep n # us" "post = us @ rest"
    using sleep_in_front r(1,3) assms(2) by metis
  show ?thesis using polling_pauses [OF r(2) us(1)] us(2) pauses_at_append by blast
qed

text \<open>The counts of a whole run.\<close>

lemma waiting_asks:
  assumes c: "created J host handle e t i" and run: "waiting J (show_url host i) fuel es'"
  defines "es \<equiv> [Curl_global_init, Perform e t] @ es'"
  shows "length (filter is_perform es) \<le> 3 + length (filter (pending J) es)"
    "length (filter is_sleep es) \<le> length (filter (pending J) es)"
    "\<exists>e0 t0 rest. es = [Curl_global_init, Perform e0 t0] @ rest \<and>
      asked e0 (requests_url host) (Some (request_body_text handle)) None \<and>
      (\<forall>pre n post. rest = pre @ Sleep n # post \<longrightarrow>
        n = 1 \<and> (\<exists>i. created J host handle e0 t0 i \<and> pauses_at J (show_url host i) pre post))"
proof -
  have ask: "asked e (requests_url host) (Some (request_body_text handle)) None" using c by (simp add: created_def)
  then have post: "\<not> pending J (Perform e t)" by (simp add: asked_def)
  show "length (filter is_perform es) \<le> 3 + length (filter (pending J) es)"
    "length (filter is_sleep es) \<le> length (filter (pending J) es)"
    unfolding es_def using waiting_counts [OF run] post by simp_all
  have "\<forall>pre n post. es' = pre @ Sleep n # post \<longrightarrow>
      n = 1 \<and> (\<exists>i. created J host handle e t i \<and> pauses_at J (show_url host i) pre post)"
    using waiting_pauses [OF run] c by blast
  then show "\<exists>e0 t0 rest. es = [Curl_global_init, Perform e0 t0] @ rest \<and>
      asked e0 (requests_url host) (Some (request_body_text handle)) None \<and>
      (\<forall>pre n post. rest = pre @ Sleep n # post \<longrightarrow>
        n = 1 \<and> (\<exists>i. created J host handle e0 t0 i \<and> pauses_at J (show_url host i) pre post))"
    unfolding es_def using ask by blast
qed

lemma protocol_asks:
  assumes "key_protocol J host handle (delivered P en1 fd en2) es err"
  shows "length (filter is_perform es) \<le> 3 + length (filter (pending J) es)"
    "length (filter is_sleep es) = length (filter (pending J) es)"
    "\<exists>e0 t0 rest. es = [Curl_global_init, Perform e0 t0] @ rest \<and>
      asked e0 (requests_url host) (Some (request_body_text handle)) None \<and>
      (\<forall>pre n post. rest = pre @ Sleep n # post \<longrightarrow>
        n = 1 \<and> (\<exists>i. created J host handle e0 t0 i \<and> pauses_at J (show_url host i) pre post))"
proof -
  have "length (filter is_perform es) \<le> 3 + length (filter (pending J) es) \<and>
      length (filter is_sleep es) = length (filter (pending J) es) \<and>
      (\<exists>e0 t0 rest. es = [Curl_global_init, Perform e0 t0] @ rest \<and>
      asked e0 (requests_url host) (Some (request_body_text handle)) None \<and>
      (\<forall>pre n post. rest = pre @ Sleep n # post \<longrightarrow>
        n = 1 \<and> (\<exists>i. created J host handle e0 t0 i \<and> pauses_at J (show_url host i) pre post)))"
    using assms
  proof (cases rule: protocol_shape)
    case (Refused e t)
    then show ?thesis by (simp add: asked_def)
  next
    case (Created e t i es')
    have ask: "asked e (requests_url host) (Some (request_body_text handle)) None" using Created(2) by (simp add: created_def)
    then have post: "\<not> pending J (Perform e t)" by (simp add: asked_def)
    obtain ps rest st where r: "es' = ps @ rest" "polling J (show_url host i) ps st" "filter (pending J) rest = []"
      "filter is_sleep rest = []" "length (filter is_perform rest) \<le> 1"
      by (rule awaited_counts [OF Created(3)])
    have es: "es = [Curl_global_init, Perform e t] @ ps @ rest" using Created(1) r(1) by simp
    have "length (filter is_perform es) \<le> 3 + length (filter (pending J) es)"
      "length (filter is_sleep es) = length (filter (pending J) es)"
      unfolding es using polling_counts [OF r(2)] r(3-5) post by simp_all
    moreover have "\<forall>pre n post. es' = pre @ Sleep n # post \<longrightarrow>
        n = 1 \<and> (\<exists>i. created J host handle e t i \<and> pauses_at J (show_url host i) pre post)"
      using awaited_pauses [OF Created(3)] Created(2) by blast
    ultimately show ?thesis using Created(1) ask by blast
  qed
  then show "length (filter is_perform es) \<le> 3 + length (filter (pending J) es)"
    "length (filter is_sleep es) = length (filter (pending J) es)"
    "\<exists>e0 t0 rest. es = [Curl_global_init, Perform e0 t0] @ rest \<and>
      asked e0 (requests_url host) (Some (request_body_text handle)) None \<and>
      (\<forall>pre n post. rest = pre @ Sleep n # post \<longrightarrow>
        n = 1 \<and> (\<exists>i. created J host handle e0 t0 i \<and> pauses_at J (show_url host i) pre post))"
    by blast+
qed

section \<open>When the polling ends\<close>

text \<open>
  A server with patience \<open>m\<close>: each PENDING uses some of it up, and nothing else that libcurl, the
  clock or the time do to the outside brings it back.
\<close>

definition patience :: "cjson \<Rightarrow> 'e lib \<Rightarrow> ('e \<Rightarrow> nat) \<Rightarrow> bool" where
  "patience J L m \<longleftrightarrow>
     (\<forall>n x. m (lib_sleep L n x) \<le> m x) \<and> (\<forall>x. m (snd (lib_global_init L x)) \<le> m x) \<and>
     (\<forall>e x t y. round_trip L e x = (t, y) \<longrightarrow>
        m y \<le> m x \<and> (answer_state J t = Some ''PENDING'' \<longrightarrow> m y < m x))"

lemma patience_after:
  assumes "patience J L m"
  shows "m (after L ev x) \<le> m x"
  using assms by (cases ev) (auto simp: patience_def prod_eq_iff)

lemma patience_pending:
  assumes "patience J L m" "answer_state J (fst (round_trip L e x)) = Some ''PENDING''"
  shows "m (snd (round_trip L e x)) < m x"
  using assms unfolding patience_def by (metis prod.collapse)

lemma patience_waiting:
  "waiting J url n es \<Longrightarrow> patience J L m \<Longrightarrow> genuine L es x \<Longrightarrow> n \<le> m x"
proof (induction arbitrary: x rule: waiting.induct)
  case (Last e t)
  then show ?case using patience_pending [of J L m e x] by auto
next
  case (More e t n es)
  let ?y = "snd (round_trip L e x)"
  have t: "fst (round_trip L e x) = t" and es: "genuine L es (lib_sleep L 1 ?y)"
    using More.prems(2) by simp_all
  have "Suc n \<le> m (lib_sleep L 1 ?y)" using More.IH [OF More.prems(1) es] .
  also have "\<dots> \<le> m ?y" using More.prems(1) by (simp add: patience_def)
  also have "\<dots> < m x" using patience_pending [OF More.prems(1), of e x] t More.hyps(2) by simp
  finally show ?case by simp
qed simp

lemma patience_start:
  assumes "waiting J url n es" "patience J L m" "genuine L ([Curl_global_init, Perform e t] @ es) x"
  shows "n \<le> m x"
proof -
  let ?y = "snd (lib_global_init L x)"
  have "genuine L es (snd (round_trip L e ?y))" using assms(3) by simp
  from patience_waiting [OF assms(1,2) this] have "n \<le> m (snd (round_trip L e ?y))" .
  also have "\<dots> \<le> m ?y" using assms(2) unfolding patience_def by (metis prod.collapse)
  also have "\<dots> \<le> m x" using assms(2) by (simp add: patience_def)
  finally show ?thesis .
qed

text \<open>Against a server that never decides the polling does not end.\<close>

definition undecided :: "cjson \<Rightarrow> 'e lib \<Rightarrow> bool" where
  "undecided J L \<longleftrightarrow> (\<forall>e x t y. round_trip L e x = (t, y) \<longrightarrow>
     (if opt_postfields e = None then answer_state J t = Some ''PENDING'' else tr_response_code t = 201))"

lemma undecided_polling:
  "polling J url es st \<Longrightarrow> undecided J L \<Longrightarrow> \<not> genuine L es x"
proof (induction arbitrary: x rule: polling.induct)
  case (Answered e t)
  then show ?case unfolding undecided_def asked_def by (metis genuine.simps(2) net.simps(1) prod.collapse)
qed auto

lemma awaited_polling:
  assumes "awaited J url deliver es err"
  shows "\<exists>pre st rest. polling J url pre st \<and> es = pre @ rest"
  using assms by (cases rule: awaited.cases) (metis append_Nil2)+

lemma undecided_protocol:
  assumes U: "undecided J L" and g: "genuine L es x" and run: "key_protocol J host handle deliver es err"
  shows False
  using run
proof (cases rule: protocol_shape)
  case (Refused e t)
  then have t: "fst (round_trip L e (snd (lib_global_init L x))) = t" and b: "opt_postfields e \<noteq> None"
    using g by (simp_all add: asked_def)
  then have "tr_response_code t = 201"
    using U unfolding undecided_def by (metis prod.collapse)
  then show False using Refused(2) by simp
next
  case (Created e t i es')
  from awaited_polling [OF Created(3)] obtain pre st rest where "polling J (show_url host i) pre st" "es' = pre @ rest"
    by blast
  then show False
    using undecided_polling [OF _ U, of "show_url host i" pre st] g Created(1) polling_net
    by (auto simp: genuine_append)
qed

section \<open>Successful and denied runs\<close>

text \<open>
  The key that is handed over, by the body of the last answer. The line feed behind the body is cut
  off; a zero byte in the body ends the key, and the byte before it is what is cut off then.
\<close>

definition key_text :: "string \<Rightarrow> string" where
  "key_text k = (if NUL \<in> set k then butlast (takeWhile (\<lambda>c. c \<noteq> NUL) k) else k)"

lemma key_in_text: "answer_body t = Some k \<Longrightarrow> key_in t = key_text k"
  by (auto simp: key_in_def key_text_def c_text_def takeWhile_append takeWhile_eq_all_conv)

lemma denied_protocol:
  assumes run: "key_protocol J host handle (delivered P en1 fd en2) es UL_DENIED"
  shows "secret es \<and> (\<exists>pre e t i. es = pre @ [Perform e t] \<and> asked e (show_url host i) None None \<and>
    answer_state J t = Some ''DENIED'')"
  using run
proof (cases rule: protocol_shape)
  case (Created e t i es')
  from Created(3) show ?thesis
  proof (cases rule: awaited.cases)
    case Denied
    obtain pre e1 t1 where "es' = pre @ [Perform e1 t1]" "asked e1 (show_url host i) None None"
      "answer_state J t1 = Some ''DENIED''" using polling_last [OF Denied(1)] by blast
    then show ?thesis using polling_secret [OF Denied(1)] created_secret [OF Created(2)] Created(1)
      by (intro conjI exI [of _ "[Curl_global_init, Perform e t] @ pre"] exI [of _ e1] exI [of _ t1]) auto
  next
    case (Accepted es1 e1 t1 ds)
    then show ?thesis using delivered_results by blast
  qed
qed simp

lemma request_key_denied:
  fixes w :: "'e world"
  assumes ready: "healthy L" "json_ok J" "world_wf w" "settings_ready a args host handle w"
    "modules_ready sd st en1 fd en2 w" "0 < fuel"
    and run: "request_key L J (dispatch P) fuel a w = Some (Some UL_DENIED, w')" "actions w' = actions w @ es"
  shows "secret es \<and> (\<exists>pre e t i. es = pre @ [Perform e t] \<and> asked e (show_url host i) None None \<and>
    answer_state J t = Some ''DENIED'')"
proof (cases rule: request_key_runE [OF ready run])
  case (2 err)
  then show ?thesis using denied_protocol by blast
qed simp

lemma protocol_success:
  assumes prot: "key_protocol J host handle (delivered P en1 fd True) es UL_OK"
  shows "\<exists>e0 t0 i asks e t mid k.
    es = [Curl_global_init, Perform e0 t0] @ asks @ [Perform e t] @ mid @ [Fwrite (key_text k)] \<and>
    created J host handle e0 t0 i \<and> polling J (show_url host i) asks (Some ''ACCEPTED'') \<and>
    asked e (show_url host i) (Some fulfilled_body) (Some ''PATCH'') \<and> answer_body t = Some k \<and>
    filter is_perform mid = []"
  using prot
proof (cases rule: protocol_shape)
  case (Created e0 t0 i es')
  from Created(3) show ?thesis
  proof (cases rule: awaited.cases)
    case (Accepted asks e t ds)
    obtain es1 where ds: "ds = es1 @ [Fwrite (key_in t)]" using delivered_stdout [OF Accepted(5)] by blast
    obtain k where k: "answer_body t = Some k" using Accepted(4) by (auto simp: has_key_def)
    have "filter is_perform es1 = []" using delivered_no_perform [OF Accepted(5)] ds by simp
    moreover have "key_in t = key_text k" using key_in_text [OF k] .
    ultimately show ?thesis using Created(1,2) Accepted(1-3) ds k
      by (intro exI [of _ e0] exI [of _ t0] exI [of _ i] exI [of _ asks] exI [of _ e] exI [of _ t]
          exI [of _ "Curl_global_cleanup # es1"] exI [of _ k]) simp
  qed
qed simp

lemma request_key_success:
  fixes w :: "'e world"
  assumes ready: "healthy L" "json_ok J" "world_wf w" "settings_ready a args host handle w"
    "modules_ready sd st en1 fd True w" "0 < fuel"
    and run: "request_key L J (dispatch P) fuel a w = Some (Some UL_OK, w')" "actions w' = actions w @ es"
  shows "\<exists>pre e t mid i k. es = pre @ [Perform e t] @ mid @ [Fwrite (key_text k)] \<and>
    asked e (show_url host i) (Some fulfilled_body) (Some ''PATCH'') \<and> answer_body t = Some k \<and>
    filter is_perform mid = []"
proof (cases rule: request_key_runE [OF ready run])
  case (2 err)
  then obtain e0 t0 i asks e t mid k where
    "es = ([Curl_global_init, Perform e0 t0] @ asks) @ [Perform e t] @ mid @ [Fwrite (key_text k)]"
    "asked e (show_url host i) (Some fulfilled_body) (Some ''PATCH'')" "answer_body t = Some k" "filter is_perform mid = []"
    using protocol_success [of J host handle P en1 fd es] by auto
  then show ?thesis by blast
qed simp

section \<open>The fuel of the loop\<close>

lemma poll_fuel_mono:
  "poll L J fuel rq q w = Some (Some st, w') \<Longrightarrow> fuel \<le> fuel' \<Longrightarrow> poll L J fuel' rq q w = Some (Some st, w')"
proof (induction fuel arbitrary: fuel' q w)
  case (Suc fuel)
  then obtain n where n: "fuel' = Suc n" "fuel \<le> n" by (cases fuel') auto
  from Suc.prems(1) obtain w1 r w2 e w3 q1 w4 w5 where
    steps: "(if q \<noteq> NULL then do { w \<leftarrow> free q w; Some (sleep L 1 w) } else Some w) = Some w1"
      "create_response w1 = Some (r, w2)" "https_hmac_GET L rq r w2 = Some (e, w3)"
      "get_request_state J r w3 = Some (q1, w4)" "free_response r w4 = Some w5"
    and rest: "(if q1 = NULL then Some (Some NULL, w5)
        else do { s \<leftarrow> cstr q1 w5; if s = ''PENDING'' then poll L J fuel rq q1 w5 else Some (Some q1, w5) }) =
        Some (Some st, w')"
    unfolding poll.simps(2) by (elim bind_pairE bind_SomeE) rule
  show ?case
    unfolding n(1) poll.simps(2) steps Option.bind.simps prod.case
    using rest Suc.IH [OF _ n(2)] by (auto elim!: bind_SomeE split: if_splits)
qed simp

end
