(* ===== verification/Example_Server.thy ===== *)
theory Example_Server
  imports Main_Program Key_Trace
begin

text \<open>
  A concrete environment on which the hypotheses of the properties hold: libraries that work, a
  server that answers a request with \<^verbatim>\<open>PENDING\<close> twice and then accepts it, a state with settings and
  the two registered modules.
\<close>

section \<open>The libraries\<close>

definition demo_headers :: "callback_data list" where
  "demo_headers =
     [Header_data (''HTTP/1.1 200 OK'' @ [CR, LF]),
      Header_data (''Content-Type: application/json'' @ [CR, LF])]"

definition demo_answer :: "int \<Rightarrow> string \<Rightarrow> transfer" where
  "demo_answer code body =
     \<lparr>tr_data = demo_headers @ [Body_data (take 3 body), Body_data (drop 3 body)],
      tr_response_code = code, tr_status = 0\<rparr>"

definition created_json :: string where "created_json = ''{\"id\": 7}''"
definition pending_json :: string where "pending_json = ''{\"state\": \"PENDING\"}''"
definition accepted_json :: string where "accepted_json = ''{\"state\": \"ACCEPTED\"}''"
definition denied_json :: string where "denied_json = ''{\"state\": \"DENIED\"}''"
definition demo_key :: string where "demo_key = ''correct horse''"

definition demo_perform :: "easy \<Rightarrow> nat \<Rightarrow> transfer" where
  "demo_perform e n =
     (if opt_customrequest e = Some ''PATCH'' then demo_answer 200 demo_key
      else if opt_postfields e \<noteq> None then demo_answer 201 created_json
      else if n \<le> 2 then demo_answer 200 pending_json
      else demo_answer 200 accepted_json)"

text \<open>The state of the outside counts the transfers. The time is that of the example in RFC 7231.\<close>

definition server :: "(easy \<Rightarrow> nat \<Rightarrow> transfer) \<Rightarrow> nat lib" where
  "server f =
     \<lparr>lib_time = (\<lambda>n. (784111777, n)), lib_hmac = (\<lambda>k m. Some (replicate 64 CHR 0x5A)),
      lib_slist_append = (\<lambda>n xs s. Some (xs @ [s])), lib_global_init = (\<lambda>n. (0, n)),
      lib_easy_init = (\<lambda>n. (True, n)), lib_perform = (\<lambda>e n. (f e n, Suc n)),
      lib_strerror = (\<lambda>c. ''error''), lib_sleep = (\<lambda>s n. n)\<rparr>"

abbreviation demo_lib :: "nat lib" where "demo_lib \<equiv> server demo_perform"

text \<open>Servers that deny the request, that never decide, and that do not know the user.\<close>

definition denying :: "easy \<Rightarrow> nat \<Rightarrow> transfer" where
  "denying e n =
     (if opt_postfields e \<noteq> None then demo_answer 201 created_json
      else if n \<le> 1 then demo_answer 200 pending_json
      else demo_answer 200 denied_json)"

definition stalling :: "easy \<Rightarrow> nat \<Rightarrow> transfer" where
  "stalling e n = (if opt_postfields e \<noteq> None then demo_answer 201 created_json else demo_answer 200 pending_json)"

definition refusing :: "easy \<Rightarrow> nat \<Rightarrow> transfer" where
  "refusing e n = demo_answer 401 created_json"

definition json_number :: "rat \<Rightarrow> json_item" where
  "json_number r = \<lparr>item_is_number = True, item_is_string = False, item_double = Some r, item_string = None\<rparr>"

definition json_text :: "string \<Rightarrow> json_item" where
  "json_text s = \<lparr>item_is_number = False, item_is_string = True, item_double = None, item_string = Some s\<rparr>"

definition demo_json :: cjson where
  "demo_json =
     \<lparr>json_parse = (\<lambda>body.
        if body = Some (created_json @ [LF]) then Some [''id'' \<mapsto> json_number 7]
        else if body = Some (pending_json @ [LF]) then Some [''state'' \<mapsto> json_text ''PENDING'']
        else if body = Some (accepted_json @ [LF]) then Some [''state'' \<mapsto> json_text ''ACCEPTED'']
        else if body = Some (denied_json @ [LF]) then Some [''state'' \<mapsto> json_text ''DENIED'']
        else None),
      json_error = (\<lambda>body. None)\<rparr>"

definition demo_platform :: "nat platform" where
  "demo_platform =
     \<lparr>os_fwrite = (\<lambda>s n. (length s, n)), os_fflush = (\<lambda>n. (True, n)),
      os_listen_fds = (\<lambda>n. ((0, []), n)), os_accept = (\<lambda>fd n. (5, n)),
      os_send = (\<lambda>fd s n. (int (length s), n))\<rparr>"

section \<open>A state\<close>

definition demo_args :: arguments where
  "demo_args =
     \<lparr>arg_config_file = NULL, arg_key_handle = Lit ''disk'', arg_host = Lit ''unlocked.example'',
      arg_port = 443, arg_secret = Lit ''s3cret'', arg_username = Lit ''client'', arg_validate = Yes,
      arg_verbose = Unset\<rparr>"

definition demo_world :: "nat world" where
  "demo_world = (start (\<lambda>_. True) 0)
     \<lparr>heap := [0 \<mapsto> Arguments demo_args,
        1 \<mapsto> Module (sd_socket_module (Ptr 2) (Ptr 3) False),
        2 \<mapsto> Argp \<lparr>argp_options = sd_socket_options, argp_parser = Sd_socket_parser\<rparr>,
        3 \<mapsto> Sd_socket_state 0,
        4 \<mapsto> Module (stdout_module (Ptr 5) True),
        5 \<mapsto> Argp \<lparr>argp_options = stdout_options, argp_parser = Stdout_parser\<rparr>,
        6 \<mapsto> Ptr_array [Some (Ptr 1), Some (Ptr 4)]],
      brk := 7, g_modules := Ptr 6, g_module_count := 2\<rparr>"

section \<open>The hypotheses hold\<close>

lemma demo_clock: "\<exists>tm y. clock_at (server f) x tm y"
proof -
  have "gmtime 784111777 = Some \<lparr>tm_sec = 37, tm_min = 49, tm_hour = 8, tm_mday = 6, tm_mon = 10,
      tm_year = 94, tm_wday = 0\<rparr>" by code_simp
  then show ?thesis by (simp add: clock_at_def server_def)
qed

text \<open>A server whose answers have a short body that does not start with a terminator.\<close>

definition serves :: "(easy \<Rightarrow> nat \<Rightarrow> transfer) \<Rightarrow> bool" where
  "serves f \<longleftrightarrow> (\<forall>e n. \<exists>c b. f e n = demo_answer c b \<and> length b \<le> 1000 \<and> take 1 b \<noteq> [NUL])"

lemma servesE:
  assumes "serves f"
  obtains c b where "f e n = demo_answer c b" "length b \<le> 1000" "take 1 b \<noteq> [NUL]"
  using assms unfolding serves_def by blast

lemma server_simps [simp]:
  "lib_perform (server f) e n = (f e n, Suc n)" "lib_global_init (server f) n = (0, n)"
  "lib_sleep (server f) k n = n" "lib_easy_init (server f) n = (True, n)"
  "lib_time (server f) n = (784111777, n)"
  by (simp_all add: server_def)

lemma serves_answers: "serves demo_perform" "serves denying" "serves stalling" "serves refusing"
proof -
  have "\<exists>c' b'. demo_answer c b = demo_answer c' b' \<and> length b' \<le> 1000 \<and> take 1 b' \<noteq> [NUL]"
    if "b \<in> {created_json, pending_json, accepted_json, denied_json, demo_key}" for c b
    using that by (intro exI [of _ c] exI [of _ b])
      (auto simp: created_json_def pending_json_def accepted_json_def denied_json_def demo_key_def)
  then show "serves demo_perform" "serves denying" "serves stalling" "serves refusing"
    by (auto simp: serves_def demo_perform_def denying_def stalling_def refusing_def)
qed

lemma demo_body: "received_body (tr_data (demo_answer c b)) None = Some b"
  by (simp add: demo_answer_def demo_headers_def)

lemma demo_code [simp]: "tr_response_code (demo_answer c b) = c"
  by (simp add: demo_answer_def)

lemma demo_fits: "length b \<le> 1000 \<Longrightarrow> answer_fits (demo_answer c b)"
  by (simp add: answer_fits_def demo_answer_def demo_headers_def ptrdiff_max_def int_max_def)

lemma fits_server:
  assumes fits: "\<And>e n. answer_fits (f e n)"
  shows "healthy (server f)"
proof -
  have "answer_fits (fst (lib_perform (server f) e x))" for e x using fits by simp
  moreover have "lib_ok (server f)" by (simp add: lib_ok_def server_def)
  ultimately show ?thesis using demo_clock by (simp add: healthy_def) (simp add: server_def)
qed

lemma healthy_server: "serves f \<Longrightarrow> healthy (server f)"
  using demo_fits by (intro fits_server) (metis servesE)

lemma json_ok_demo: "json_ok demo_json"
  by (auto simp: json_ok_def demo_json_def json_number_def json_text_def ptrdiff_max_def split: if_splits)

lemma demo_content_type: "content_type_ok (received_headers (tr_data (demo_answer c b)))"
proof -
  have "content_type_ok (received_headers demo_headers)" by code_simp
  moreover have "received_headers (tr_data (demo_answer c b)) = received_headers demo_headers"
    by (simp add: demo_answer_def demo_headers_def)
  ultimately show ?thesis by simp
qed

lemma id_in_demo: "id_in demo_json (Some b) \<noteq> None"
  by (auto simp: id_in_def demo_json_def json_number_def json_text_def int_of_double_def Let_def)

lemma sane_server:
  assumes "serves f"
  shows "sane demo_json (server f)"
proof -
  have "sane_answer demo_json (demo_answer c b) \<and> has_key (demo_answer c b)" if "take 1 b \<noteq> [NUL]" for c b
    using that id_in_demo demo_content_type by (simp add: sane_answer_def has_key_def demo_body)
  then have "sane_answer demo_json (f e n) \<and> has_key (f e n)" for e n
    using servesE [OF assms, of e n] by metis
  then show ?thesis by (simp add: sane_def)
qed

lemma world_wf_demo: "world_wf demo_world"
  by (simp add: world_wf_def demo_world_def start_def)

lemma settings_ready_demo: "settings_ready (Ptr 0) demo_args ''unlocked.example'' ''disk'' demo_world"
  by (simp add: settings_ready_def args_ready_def arguments_of_def deref_def demo_world_def start_def
      demo_args_def)

lemma modules_ready_demo: "modules_ready (Ptr 1) (Ptr 4) False 0 True demo_world"
proof -
  have sd: "is_sd_socket (Ptr 1) False 0 demo_world"
    unfolding is_sd_socket_def
    by (intro exI [of _ 1] exI [of _ 2] exI [of _ 3]) (simp add: demo_world_def)
  have st: "is_stdout (Ptr 4) True demo_world"
    unfolding is_stdout_def
    by (intro exI [of _ 4] exI [of _ 5]) (simp add: demo_world_def)
  have "table [Ptr 1, Ptr 4] demo_world"
    by (simp add: table_def ptr_array_of_def deref_def demo_world_def)
  moreover have "separate [Ptr 1, Ptr 4] demo_world"
    by (simp add: owned_def module_of_def deref_def demo_world_def sd_socket_module_def stdout_module_def)
  ultimately show ?thesis
    using sd st world_wf_demo by (auto simp: modules_ready_def modules_inv_def module_ok_def)
qed

text \<open>Once with \<open>sane\<close>, for what needs the run to be defined, and once without.\<close>

lemmas demo_ready = healthy_server [OF serves_answers(1)] json_ok_demo
  sane_server [OF serves_answers(1)] world_wf_demo settings_ready_demo modules_ready_demo

lemmas denying_ready = healthy_server [OF serves_answers(2)] json_ok_demo
  sane_server [OF serves_answers(2)] world_wf_demo settings_ready_demo modules_ready_demo

lemmas stalling_ready = healthy_server [OF serves_answers(3)] json_ok_demo
  sane_server [OF serves_answers(3)] world_wf_demo settings_ready_demo modules_ready_demo

lemmas refusing_ready = healthy_server [OF serves_answers(4)] json_ok_demo
  sane_server [OF serves_answers(4)] world_wf_demo settings_ready_demo modules_ready_demo

lemmas demo_setting = healthy_server [OF serves_answers(1)] json_ok_demo world_wf_demo settings_ready_demo
  modules_ready_demo

lemmas denying_setting = healthy_server [OF serves_answers(2)] json_ok_demo world_wf_demo settings_ready_demo
  modules_ready_demo

lemmas stalling_setting = healthy_server [OF serves_answers(3)] json_ok_demo world_wf_demo settings_ready_demo
  modules_ready_demo

lemmas refusing_setting = healthy_server [OF serves_answers(4)] json_ok_demo world_wf_demo settings_ready_demo
  modules_ready_demo

section \<open>The runs\<close>

lemma demo_round_trip [simp]: "round_trip (server f) e n = (f e n, Suc n)"
  by (simp add: round_trip_def)

lemma demo_state:
  "answer_state demo_json (demo_answer c created_json) = None"
  "answer_state demo_json (demo_answer c pending_json) = Some ''PENDING''"
  "answer_state demo_json (demo_answer c accepted_json) = Some ''ACCEPTED''"
  "answer_state demo_json (demo_answer c denied_json) = Some ''DENIED''"
  "answer_state demo_json (demo_answer c demo_key) = None"
  by (simp_all add: demo_body state_in_def c_text_def demo_json_def created_json_def pending_json_def
      accepted_json_def denied_json_def demo_key_def json_number_def json_text_def)

lemma server_patience:
  assumes "\<And>e n. answer_state demo_json (f e n) = Some ''PENDING'' \<Longrightarrow> n \<le> 2"
  shows "patience demo_json (server f) (\<lambda>n. 3 - n)"
proof -
  have "n \<le> 2 \<Longrightarrow> 3 - Suc n < 3 - n" for n :: nat by linarith
  with assms have "answer_state demo_json (f e n) = Some ''PENDING'' \<Longrightarrow> 3 - Suc n < 3 - n" for e n
    by blast
  then show ?thesis unfolding patience_def by auto
qed

lemma demo_patience: "patience demo_json demo_lib (\<lambda>n. 3 - n)"
  by (rule server_patience) (auto simp: demo_perform_def demo_state split: if_splits)

lemma denying_patience: "patience demo_json (server denying) (\<lambda>n. 3 - n)"
  by (rule server_patience) (auto simp: denying_def demo_state split: if_splits)

lemma demo_reliable: "reliable_output demo_platform"
  by (simp add: reliable_output_def demo_platform_def)

lemma demo_answer_get:
  assumes "fst (round_trip demo_lib e n) = t" "asked e url None None"
  shows "answer_state demo_json t \<in> {Some ''PENDING'', Some ''ACCEPTED''}"
  using assms demo_state by (cases "n \<le> 2") (auto simp: demo_perform_def asked_def)

lemma denying_answer_get:
  assumes "fst (round_trip (server denying) e n) = t" "asked e url None None"
  shows "answer_state demo_json t \<in> {Some ''PENDING'', Some ''DENIED''}"
  using assms demo_state by (cases "n \<le> 1") (auto simp: denying_def asked_def)

text \<open>A run against a patient server ends; its first answer has the status 201.\<close>

lemma server_run:
  assumes f: "serves f" and m: "patience demo_json (server f) (\<lambda>n. 3 - n)"
    and post: "\<And>e n. opt_postfields e \<noteq> None \<Longrightarrow> opt_customrequest e = None \<Longrightarrow> tr_response_code (f e n) = 201"
  obtains err w' es e t i es' where
    "request_key (server f) demo_json (dispatch demo_platform) 5 (Ptr 0) demo_world = Some (Some err, w')"
    "actions w' = actions demo_world @ es" "es = [Curl_global_init, Perform e t] @ es'"
    "genuine (server f) es (ext demo_world)"
    "awaited demo_json (show_url ''unlocked.example'' i) (delivered demo_platform False 0 True) es' err"
proof -
  note ready = healthy_server [OF f] json_ok_demo sane_server [OF f]
    world_wf_demo settings_ready_demo modules_ready_demo
  obtain res w' es where run:
    "request_key (server f) demo_json (dispatch demo_platform) 5 (Ptr 0) demo_world = Some (res, w')"
    "actions w' = actions demo_world @ es"
    using request_key_total [OF ready, of 5 demo_platform] by auto
  have five: "0 < (5 :: nat)" by simp
  show ?thesis
  proof (cases rule: request_key_runE [OF ready(1,2,4-6) five run])
    case (1 e t i es')
    have "5 \<le> 3 - ext demo_world" by (rule patience_start [OF 1(4) m]) (use 1 in simp)
    then show ?thesis by simp
  next
    case (2 err)
    from 2(2) show ?thesis
    proof (cases rule: protocol_shape)
      case (Refused e t)
      then have "t = f e (ext demo_world)" "opt_postfields e \<noteq> None" "opt_customrequest e = None"
        using 2(5) by (auto simp: asked_def)
      then show ?thesis using Refused(2) post by simp
    next
      case (Created e t i es')
      then show ?thesis using that [of err w' es e t es' i] run 2(1,5) by simp
    qed
  qed
qed

text \<open>Against the accepting server the protocol ends with the delivery.\<close>

lemma demo_protocol:
  assumes prot: "key_protocol demo_json host handle (delivered demo_platform False fd True) es err"
    and g: "genuine demo_lib es x"
  shows "err = UL_OK \<and> Fwrite demo_key \<in> set es"
  using prot
proof (cases rule: protocol_shape)
  case (Refused e t)
  then have "t = demo_perform e x" "opt_postfields e \<noteq> None" "opt_customrequest e = None"
    using g by (auto simp: asked_def)
  then show ?thesis using Refused(2) by (simp add: demo_perform_def)
next
  case (Created e t i es')
  from Created(3) show ?thesis
  proof (cases rule: awaited_shape)
    case (Closed pre e1 t1 rest)
    then obtain y where "fst (round_trip demo_lib e1 y) = t1"
      using genuine_answer [of demo_lib "[Curl_global_init, Perform e t] @ pre" e1 t1 rest] g Created(1) by auto
    from demo_answer_get [OF this Closed(4)] Closed(5,6) show ?thesis by (auto simp: insert_iff)
  next
    case (Opened pre e1 t1 e2 t2 ds)
    then obtain y where "fst (round_trip demo_lib e2 y) = t2"
      using genuine_answer [of demo_lib "[Curl_global_init, Perform e t] @ pre @ [Perform e1 t1]" e2 t2] g Created(1)
      by auto
    then have "t2 = demo_answer 200 demo_key"
      using Opened(5) by (auto simp: demo_perform_def asked_def)
    then have "key_in t2 = demo_key"
      by (simp add: key_in_def demo_body c_text_def demo_key_def)
    then have "err = UL_OK \<and> ds = [Fwrite demo_key]"
      using delivered_reliable [OF _ demo_reliable] Opened(6) by simp
    then show ?thesis using Created(1) Opened(1) by simp
  qed
qed

lemma demo_run:
  obtains w' es where
    "request_key demo_lib demo_json (dispatch demo_platform) 5 (Ptr 0) demo_world = Some (Some UL_OK, w')"
    "actions w' = actions demo_world @ es" "Fwrite demo_key \<in> set es"
proof -
  have five: "0 < (5 :: nat)" by simp
  obtain res w' es where run:
    "request_key demo_lib demo_json (dispatch demo_platform) 5 (Ptr 0) demo_world = Some (res, w')"
    "actions w' = actions demo_world @ es"
    using request_key_total [OF demo_ready five] by blast
  show ?thesis
  proof (cases rule: request_key_runE [OF demo_setting five run])
    case (1 e t i es')
    have "5 \<le> 3 - ext demo_world" by (rule patience_start [OF 1(4) demo_patience]) (use 1 in simp)
    then show ?thesis by simp
  next
    case (2 err)
    then show ?thesis using demo_protocol [OF 2(2,5)] that run by simp
  qed
qed

text \<open>A server that accepts the request, and whose connection breaks before the key is sent.\<close>

definition broken_off :: transfer where
  "broken_off = \<lparr>tr_data = [], tr_response_code = 0, tr_status = 7\<rparr>"

definition dropping :: "easy \<Rightarrow> nat \<Rightarrow> transfer" where
  "dropping e n = (if opt_customrequest e = Some ''PATCH'' then broken_off else demo_perform e n)"

lemma dropping_healthy: "healthy (server dropping)"
proof -
  have "answer_fits (demo_perform e n)" for e n
    using servesE [OF serves_answers(1), of e n] demo_fits by metis
  moreover have "answer_fits broken_off" by (simp add: answer_fits_def broken_off_def ptrdiff_max_def)
  ultimately have "answer_fits (dropping e n)" for e n by (simp add: dropping_def)
  then show ?thesis by (rule fits_server)
qed

lemmas dropping_setting = dropping_healthy json_ok_demo world_wf_demo settings_ready_demo modules_ready_demo

lemma broken_off_state [simp]: "answer_state demo_json broken_off = None"
  by (simp add: broken_off_def state_in_def c_text_def demo_json_def)

lemma dropping_patience: "patience demo_json (server dropping) (\<lambda>n. 3 - n)"
  by (rule server_patience) (auto simp: dropping_def demo_perform_def demo_state split: if_splits)

lemma dropping_answers:
  assumes "fst (round_trip (server dropping) e n) = t"
  shows "asked e url None None \<Longrightarrow> answer_state demo_json t \<in> {Some ''PENDING'', Some ''ACCEPTED''}"
    and "asked e url2 body (Some ''PATCH'') \<Longrightarrow> \<not> has_key t"
    and "asked e url3 (Some body2) None \<Longrightarrow> tr_response_code t = 201"
  using assms demo_answer_get [of e n t url]
  by (auto simp: dropping_def asked_def has_key_def broken_off_def demo_perform_def)

lemma dropping_no_protocol:
  assumes prot: "key_protocol demo_json host handle deliver es err" and g: "genuine (server dropping) es x"
  shows False
  using prot
proof (cases rule: protocol_shape)
  case (Refused e t)
  then show False using g dropping_answers(3) [of e _ t] by auto
next
  case (Created e t i es')
  note answer = genuine_answer [of "server dropping" "[Curl_global_init, Perform e t] @ pre" for pre]
  from Created(3) show False
  proof (cases rule: awaited_shape)
    case (Closed pre e1 t1 rest)
    then obtain y where "fst (round_trip (server dropping) e1 y) = t1"
      using answer [of pre e1 t1 rest] g Created(1) by auto
    from dropping_answers(1) [OF this Closed(4)] Closed(5,6) show False by auto
  next
    case (Opened pre e1 t1 e2 t2 ds)
    then obtain y where "fst (round_trip (server dropping) e2 y) = t2"
      using answer [of "pre @ [Perform e1 t1]" e2 t2] g Created(1) by auto
    from dropping_answers(2) [OF this Opened(5)] Opened(8) show False by simp
  qed
qed

lemma dropping_run:
  "request_key (server dropping) demo_json (dispatch demo_platform) 5 (Ptr 0) demo_world = None"
proof -
  have five: "0 < (5 :: nat)" by simp
  show ?thesis
  proof (cases rule: request_key_outcome [OF dropping_setting five, of demo_platform])
    case (1 res w' es)
    show ?thesis
    proof (cases res)
      case None
      then obtain e t i es' where "waiting demo_json (show_url ''unlocked.example'' i) 5 es'"
        "es = [Curl_global_init, Perform e t] @ es'" using 1(4) by auto
      then have "5 \<le> 3 - ext demo_world" using patience_start [OF _ dropping_patience] 1(3) by blast
      then show ?thesis by simp
    next
      case (Some err)
      then show ?thesis using dropping_no_protocol [OF _ 1(3)] 1(4) by auto
    qed
  qed
qed

lemma denying_run:
  obtains w' es where
    "request_key (server denying) demo_json (dispatch demo_platform) 5 (Ptr 0) demo_world = Some (Some UL_DENIED, w')"
    "actions w' = actions demo_world @ es"
proof -
  have post: "opt_postfields e \<noteq> None \<Longrightarrow> opt_customrequest e = None \<Longrightarrow> tr_response_code (denying e n) = 201"
    for e n by (auto simp: denying_def)
  obtain err w' es e t i es' where
    run: "request_key (server denying) demo_json (dispatch demo_platform) 5 (Ptr 0) demo_world = Some (Some err, w')"
      "actions w' = actions demo_world @ es" "es = [Curl_global_init, Perform e t] @ es'"
    and g: "genuine (server denying) es (ext demo_world)"
    and aw: "awaited demo_json (show_url ''unlocked.example'' i) (delivered demo_platform False 0 True) es' err"
    by (rule server_run [OF serves_answers(2) denying_patience post]) assumption+
  have get: "answer_state demo_json t1 \<in> {Some ''PENDING'', Some ''DENIED''}"
    if "es' = pre @ [Perform e1 t1] @ rest" "list_all net pre" "asked e1 url None None" for pre e1 t1 rest url
    using genuine_answer [of "server denying" "[Curl_global_init, Perform e t] @ pre" e1 t1 rest] g run(3) that
      denying_answer_get [OF _ that(3)] by auto
  from aw have "err = UL_DENIED"
  proof (cases rule: awaited_shape)
    case (Closed pre e1 t1 rest)
    from get [OF Closed(1,7,4)] Closed(6,8) show ?thesis by auto
  next
    case (Opened pre e1 t1 e2 t2 ds)
    then have "es' = pre @ [Perform e1 t1] @ [Perform e2 t2, Curl_global_cleanup] @ ds" by simp
    from get [OF this Opened(7,3)] Opened(4) show ?thesis by simp
  qed
  then show ?thesis using that run(1,2) by blast
qed

lemma stalling_undecided: "undecided demo_json (server stalling)"
  unfolding undecided_def by (auto simp: stalling_def demo_state)

lemma stalling_run:
  obtains w' es where
    "request_key (server stalling) demo_json (dispatch demo_platform) 100 (Ptr 0) demo_world = Some (None, w')"
    "actions w' = actions demo_world @ es"
proof -
  have fuel: "0 < (100 :: nat)" by simp
  obtain res w' es where run:
    "request_key (server stalling) demo_json (dispatch demo_platform) 100 (Ptr 0) demo_world = Some (res, w')"
    "actions w' = actions demo_world @ es"
    using request_key_total [OF stalling_ready fuel] by blast
  show ?thesis
  proof (cases rule: request_key_runE [OF stalling_setting fuel run])
    case 1
    then show ?thesis using that run by simp
  next
    case (2 err)
    then show ?thesis using undecided_protocol [OF stalling_undecided] by blast
  qed
qed

lemma refusing_run:
  obtains res w' e t es where
    "request_key (server refusing) demo_json (dispatch demo_platform) 5 (Ptr 0) demo_world = Some (res, w')"
    "actions w' = actions demo_world @ [Curl_global_init, Perform e t] @ es" "tr_response_code t = 401"
proof -
  have fuel: "0 < (5 :: nat)" by simp
  obtain res w' es where run:
    "request_key (server refusing) demo_json (dispatch demo_platform) 5 (Ptr 0) demo_world = Some (res, w')"
    "actions w' = actions demo_world @ es"
    using request_key_total [OF refusing_ready fuel] by blast
  have "\<exists>e t es'. es = [Curl_global_init, Perform e t] @ es' \<and> genuine (server refusing) es (ext demo_world)"
  proof (cases rule: request_key_runE [OF refusing_setting fuel run])
    case (2 err)
    from 2(2) show ?thesis by (cases rule: protocol_shape) (use 2(5) in simp_all)
  qed blast
  then obtain e t es' where es: "es = [Curl_global_init, Perform e t] @ es'" "genuine (server refusing) es (ext demo_world)"
    by blast
  then have "tr_response_code t = 401" by (auto simp: refusing_def)
  with that run es show ?thesis by blast
qed

text \<open>The polling alone.\<close>

definition demo_request :: request where
  "demo_request = \<lparr>req_body = NULL, req_port = 443, req_secret = Lit ''s3cret'', req_skip_validation = False,
     req_url = Lit ''https://unlocked.example/api/requests/7'', req_username = Lit ''client''\<rparr>"

lemma demo_poll:
  obtains st w' where "poll demo_lib demo_json 5 demo_request NULL demo_world = Some (Some st, w')"
proof -
  let ?url = "''https://unlocked.example/api/requests/7''"
  have h: "holds (heap demo_world) NULL None demo_world" using world_wf_demo by simp
  have r: "request_ready demo_request ?url None (demo_world\<lparr>heap := heap demo_world\<rparr>)"
    by (simp add: request_ready_def demo_request_def demo_world_def start_def setopt_string_def)
  have five: "0 < (5 :: nat)" by simp
  obtain res w' es where run: "poll demo_lib demo_json 5 demo_request NULL demo_world = Some (res, w')"
    "does demo_lib es demo_world w'" "case res of None \<Rightarrow> waiting demo_json ?url 5 es | Some q \<Rightarrow> True"
    using poll_spec [OF demo_ready(1,2) h r five] by (auto simp: poll_events_def split: option.splits)
  show ?thesis
  proof (cases res)
    case None
    then have "5 \<le> 3 - ext demo_world"
      using run(3) by (auto intro: patience_waiting [OF _ demo_patience] does_run [OF run(2), THEN conjunct2])
    then show ?thesis by simp
  next
    case (Some st)
    with run(1) that show ?thesis by simp
  qed
qed

text \<open>A state with a fresh response, and a request.\<close>

definition demo_post :: request where
  "demo_post = \<lparr>req_body = Lit ''{\"key\": \"disk\"}'', req_port = 443, req_secret = Lit ''s3cret'',
     req_skip_validation = False, req_url = Lit ''https://unlocked.example/api/requests'',
     req_username = Lit ''client''\<rparr>"

definition empty_response :: response where
  "empty_response = \<lparr>resp_body = NULL, resp_body_len = 0, resp_headers = NULL, resp_status = 0\<rparr>"

definition answer_world :: "nat world" where
  "answer_world = demo_world\<lparr>brk := 8, heap := (heap demo_world)(7 \<mapsto> Response empty_response)\<rparr>"

lemma demo_create: "create_response demo_world = Some (Ptr 7, answer_world)"
  by (simp add: create_response_def malloc_struct_def new_block_def answer_world_def demo_world_def start_def
      empty_response_def assign_def deref_def)

lemma answer_world_inv: "resp_inv (heap demo_world) 7 None [] answer_world"
proof -
  have "brk demo_world = 7" "alloc_ok demo_world 7" by (simp_all add: demo_world_def start_def)
  then show ?thesis using create_response_inv [OF world_wf_demo] demo_create by simp
qed

lemma demo_memory: "memory_ok demo_lib demo_world"
  by (simp add: memory_ok_def server_def demo_world_def start_def)

text \<open>A response with a header.\<close>

definition content_header :: string where
  "content_header = ''Content-Type: Application/JSON'' @ [CR, LF]"

definition content_world :: "nat world" where
  "content_world = answer_world\<lparr>brk := 9,
     heap := (heap answer_world)(7 \<mapsto> Response (empty_response\<lparr>resp_headers := Ptr 8\<rparr>), 8 \<mapsto> Slist [content_header])\<rparr>"

lemma content_world_inv: "resp_inv (heap demo_world) 7 None [content_header] content_world"
  by (auto simp: resp_inv_def content_world_def answer_world_def demo_world_def start_def empty_response_def
      world_wf_def slist_of_def deref_def)

text \<open>A list of two headers.\<close>

definition names_world :: "nat world" where
  "names_world = answer_world\<lparr>brk := 9, heap := (heap answer_world)(8 \<mapsto> Slist [''Date: today'', ''Host: a''])\<rparr>"

lemma names_world_wf: "world_wf names_world"
  by (simp add: names_world_def answer_world_def demo_world_def start_def world_wf_def)

lemma demo_names: "join_names [''Date: today'', ''Host: a''] = ''Date Host''"
  by code_simp

end
