(* ===== verification/Registry.thy ===== *)
theory Registry
  imports Cli
begin

text \<open>
  The life of the modules: \<^verbatim>\<open>register_module\<close> appends to the table and to the arrays of the child
  parsers, whatever is in them, and moves them to larger blocks; \<^verbatim>\<open>main\<close> registers its two modules; the
  command line, the configuration and the initialisation change them; at the end they are freed with
  their tables. \<open>moved B B'\<close> says which blocks an operation allocates and frees.
\<close>

section \<open>Arrays that grow\<close>

definition array :: "ptr \<Rightarrow> ptr option list \<Rightarrow> 'e world \<Rightarrow> bool" where
  "array p ps w \<longleftrightarrow> (p = NULL \<and> ps = []) \<or> (\<exists>b. p = Ptr b \<and> heap w b = Some (Ptr_array ps))"

lemma array_ptr_array_of: "array p ps w \<Longrightarrow> ps \<noteq> [] \<Longrightarrow> ptr_array_of p w = Some ps"
  by (auto simp: array_def ptr_array_of_def deref_def)

lemma arrayD: "array p ps w \<Longrightarrow> b \<in> blocks_of p \<Longrightarrow> heap w b = Some (Ptr_array ps)"
  by (auto simp: array_def)

lemma array_cong: "array p ps w \<Longrightarrow> (\<And>b. b \<in> blocks_of p \<Longrightarrow> heap w' b = heap w b) \<Longrightarrow> array p ps w'"
  by (auto simp: array_def)

lemma array_free: "array p ps w \<Longrightarrow> free p w = Some (freed (blocks_of p) w)"
  by (auto simp: array_def free_def freed_def fun_eq_iff)

lemma freed_simps [simp]:
  "heap (freed B w) b = (if b \<in> B then None else heap w b)" "brk (freed B w) = brk w"
  "alloc_ok (freed B w) = alloc_ok w" "trace (freed B w) = trace w" "ext (freed B w) = ext w"
  "g_modules (freed B w) = g_modules w" "g_module_count (freed B w) = g_module_count w"
  "g_sub_parsers (freed B w) = g_sub_parsers w" "g_sub_parser_inputs (freed B w) = g_sub_parser_inputs w"
  "g_sub_parser_count (freed B w) = g_sub_parser_count w" "g_hex_digest (freed B w) = g_hex_digest w"
  "g_is_debug (freed B w) = g_is_debug w" "g_socket_fd (freed B w) = g_socket_fd w"
  by (simp_all add: freed_def)

lemma freed_freed [simp]: "freed A (freed B w) = freed (A \<union> B) w"
  by (simp add: freed_def fun_eq_iff)

lemma world_wf_freed [simp]: "world_wf w \<Longrightarrow> world_wf (freed B w)"
  by (simp add: world_wf_def)

text \<open>\<^verbatim>\<open>realloc\<close> to a larger array: the entries move to a fresh block, the old one is freed.\<close>

definition regrown :: "ptr \<Rightarrow> ptr option list \<Rightarrow> 'e world \<Rightarrow> 'e world" where
  "regrown p ps w = w\<lparr>brk := Suc (brk w),
     heap := (\<lambda>b. if b \<in> blocks_of p then None else heap w b)(brk w \<mapsto> Ptr_array ps)\<rparr>"

lemma realloc_ptr_array_grows:
  assumes wf: "world_wf w" and mem: "alloc_ok w (brk w)" and ps: "array p ps w"
    and n: "length ps \<le> n" "0 < n" "k * n \<le> ptrdiff_max"
  shows "realloc_ptr_array k p n w =
    Some (Ptr (brk w), regrown p (ps @ replicate (n - length ps) None) w)"
proof -
  have new: "new_ptr_array k n w = Some (Ptr (brk w),
      w\<lparr>brk := Suc (brk w), heap := (heap w)(brk w \<mapsto> Ptr_array (replicate n None))\<rparr>)"
    using mem n by (simp add: new_ptr_array_def new_block_def size_t_small)
  from ps show ?thesis unfolding array_def
  proof (elim disjE conjE exE)
    assume "p = NULL" "ps = []"
    then show ?thesis using new n by (simp add: realloc_ptr_array_def regrown_def)
  next
    fix b assume b: "p = Ptr b" "heap w b = Some (Ptr_array ps)"
    then have "b \<noteq> brk w" using wf by auto
    then show ?thesis
      using b new n by (simp add: realloc_ptr_array_def ptr_array_of_def deref_def regrown_def fun_eq_iff)
  qed
qed

lemma realloc_ptr_array_fails:
  assumes "\<not> alloc_ok w (brk w)" "array p ps w" "0 < n"
  shows "realloc_ptr_array k p n w = Some (NULL, w\<lparr>brk := Suc (brk w)\<rparr>)"
  using assms by (auto simp: realloc_ptr_array_def array_def new_ptr_array_def new_block_def ptr_array_of_def deref_def)

section \<open>The registry\<close>

text \<open>
  The table of the modules and the arrays of the child parsers with their inputs. The array of the
  parsers ends with an entry without a parser.
\<close>

definition parser_entries :: "(ptr \<times> ptr) list \<Rightarrow> ptr option list" where
  "parser_entries kids = (if kids = [] then [] else map (Some \<circ> fst) kids @ [Some NULL])"

definition registry :: "ptr list \<Rightarrow> (ptr \<times> ptr) list \<Rightarrow> 'e world \<Rightarrow> bool" where
  "registry mps kids w \<longleftrightarrow>
     unat (g_module_count w) = length mps \<and> g_sub_parser_count w = length kids \<and>
     array (g_modules w) (map Some mps) w \<and> array (g_sub_parsers w) (parser_entries kids) w \<and>
     array (g_sub_parser_inputs w) (map (Some \<circ> snd) kids) w \<and> NULL \<notin> fst ` set kids \<and>
     (mps = [] \<longleftrightarrow> g_modules w = NULL) \<and> (kids = [] \<longleftrightarrow> g_sub_parsers w = NULL) \<and>
     (kids = [] \<longleftrightarrow> g_sub_parser_inputs w = NULL) \<and>
     blocks_of (g_modules w) \<inter> blocks_of (g_sub_parsers w) = {} \<and>
     blocks_of (g_modules w) \<inter> blocks_of (g_sub_parser_inputs w) = {} \<and>
     blocks_of (g_sub_parsers w) \<inter> blocks_of (g_sub_parser_inputs w) = {}"

definition registry_blocks :: "'e world \<Rightarrow> nat set" where
  "registry_blocks w = blocks_of (g_modules w) \<union> blocks_of (g_sub_parsers w) \<union> blocks_of (g_sub_parser_inputs w)"

lemma registry_table: "registry mps kids w \<Longrightarrow> table mps w"
  using array_ptr_array_of by (auto simp: registry_def table_def)

lemma registry_start: "registry [] [] w \<longleftrightarrow>
  g_module_count w = 0 \<and> g_sub_parser_count w = 0 \<and> g_modules w = NULL \<and> g_sub_parsers w = NULL \<and>
  g_sub_parser_inputs w = NULL"
  by (auto simp: registry_def array_def parser_entries_def unat_eq_0)

lemma registry_cong:
  assumes "registry mps kids w" "\<And>b. b \<in> registry_blocks w \<Longrightarrow> heap w' b = heap w b"
    and "g_modules w' = g_modules w" "g_module_count w' = g_module_count w" "g_sub_parsers w' = g_sub_parsers w"
      "g_sub_parser_inputs w' = g_sub_parser_inputs w" "g_sub_parser_count w' = g_sub_parser_count w"
  shows "registry mps kids w'"
  using assms(1,3-) array_cong [of _ _ w w'] assms(2) unfolding registry_def registry_blocks_def
  by (auto 0 3)


text \<open>
  A change of the blocks \<open>B\<close>, which become \<open>B'\<close>: what is new was free, what is gone is free, and every
  other block is as it was.
\<close>

definition moved :: "nat set \<Rightarrow> nat set \<Rightarrow> 'e world \<Rightarrow> 'e world \<Rightarrow> bool" where
  "moved B B' w w' \<longleftrightarrow>
     world_wf w' \<and> alloc_ok w' = alloc_ok w \<and> (\<forall>b \<in> B' - B. heap w b = None) \<and>
     (\<forall>b. b \<notin> B' \<longrightarrow> heap w' b = (if b \<in> B then None else heap w b))"

lemma moved_refl [simp]: "moved B B w w \<longleftrightarrow> world_wf w"
  by (auto simp: moved_def)

lemma movedD:
  assumes "moved B B' w w'"
  shows "world_wf w'" "alloc_ok w' = alloc_ok w" "b \<in> B' \<Longrightarrow> b \<notin> B \<Longrightarrow> heap w b = None"
    "b \<notin> B' \<Longrightarrow> b \<in> B \<Longrightarrow> heap w' b = None" "b \<notin> B' \<Longrightarrow> b \<notin> B \<Longrightarrow> heap w' b = heap w b"
  using assms by (auto simp: moved_def)

lemma moved_trans [trans]: "moved B B' w w' \<Longrightarrow> moved B' B'' w' w'' \<Longrightarrow> moved B B'' w w''"
  unfolding moved_def by (auto split: if_splits)

lemma moved_more: "moved B B' w w' \<Longrightarrow> moved (B \<union> X) (B' \<union> X) w w'"
  unfolding moved_def by simp blast

lemma moved_keeps: "moved B B' w w' \<Longrightarrow> heap w b = Some x \<Longrightarrow> b \<notin> B \<Longrightarrow> heap w' b = Some x"
  by (auto simp: moved_def split: if_splits)

lemma moved_regrown:
  assumes "world_wf w" "array p ps w"
  shows "moved (blocks_of p) {brk w} w (regrown p qs w)"
  using assms by (auto simp: moved_def regrown_def world_wf_def array_def)

lemma regrown_simps [simp]:
  "brk (regrown p ps w) = Suc (brk w)" "alloc_ok (regrown p ps w) = alloc_ok w" "trace (regrown p ps w) = trace w"
  "ext (regrown p ps w) = ext w" "g_modules (regrown p ps w) = g_modules w"
  "g_module_count (regrown p ps w) = g_module_count w" "g_sub_parsers (regrown p ps w) = g_sub_parsers w"
  "g_sub_parser_inputs (regrown p ps w) = g_sub_parser_inputs w"
  "g_sub_parser_count (regrown p ps w) = g_sub_parser_count w" "g_hex_digest (regrown p ps w) = g_hex_digest w"
  "g_is_debug (regrown p ps w) = g_is_debug w" "g_socket_fd (regrown p ps w) = g_socket_fd w"
  by (simp_all add: regrown_def)

lemma heap_regrown:
  "heap (regrown p ps w) b = (if b = brk w then Some (Ptr_array ps) else if b \<in> blocks_of p then None else heap w b)"
  by (simp add: regrown_def)

text \<open>What stays the same when a module is registered, apart from the registry.\<close>

definition registering :: "'e world \<Rightarrow> 'e world \<Rightarrow> bool" where
  "registering w w' \<longleftrightarrow> alloc_ok w' = alloc_ok w \<and> trace w' = trace w \<and> ext w' = ext w \<and>
     g_hex_digest w' = g_hex_digest w \<and> g_is_debug w' = g_is_debug w \<and> g_socket_fd w' = g_socket_fd w"

lemma list_update_entries:
  "(map f kids @ replicate 1 a)[length kids := x] = map f kids @ [x]"
  "(map f kids @ [a, b])[length kids := x, Suc (length kids) := y] = map f kids @ [x, y]"
  by (simp_all add: list_update_append)

lemma set_entry_Ptr:
  "heap w b = Some (Ptr_array ps) \<Longrightarrow> i < length ps \<Longrightarrow>
   set_entry (Ptr b) i q w = Some (w\<lparr>heap := (heap w)(b \<mapsto> Ptr_array (ps[i := Some q]))\<rparr>)"
  by (simp add: set_entry_def ptr_array_of_def deref_def)

lemma register_child_parser_spec:
  assumes reg: "registry mps kids w" and m: "module_of mp w = Some m" "mod_argp m \<noteq> NULL"
    and wf: "world_wf w" and mem: "\<forall>n. alloc_ok w n" and few: "length kids \<le> 4294967296"
  shows "\<exists>w'. register_child_parser mp w = Some (None, w') \<and>
    registry mps (kids @ [(mod_argp m, mp)]) w' \<and> moved (registry_blocks w) (registry_blocks w') w w' \<and>
    registering w w'"
proof -
  let ?n = "length kids" and ?ps = "parser_entries kids" and ?is = "map (Some \<circ> snd) kids"
  let ?kids = "kids @ [(mod_argp m, mp)]"
  let ?b = "brk w" and ?c = "Suc (brk w)"
  note r = reg [unfolded registry_def]
  have arr: "array (g_sub_parsers w) ?ps w" "array (g_sub_parser_inputs w) ?is w" "array (g_modules w) (map Some mps) w"
    and cnt: "g_sub_parser_count w = ?n" using r by blast+
  have len: "length ?ps \<le> ?n + 2" by (simp add: parser_entries_def)
  define qs where "qs = ?ps @ replicate (?n + 2 - length ?ps) None"
  have qs: "length qs = ?n + 2" "qs[?n := Some (mod_argp m), Suc ?n := Some NULL] = parser_entries ?kids"
    by (auto simp: qs_def parser_entries_def list_update_append numeral_2_eq_2)
  define rs where "rs = ?is @ [None]"
  have rs: "length rs = ?n + 1" "rs[?n := Some mp] = map (Some \<circ> snd) ?kids"
    by (auto simp: rs_def list_update_append)
  define w1 where "w1 = (regrown (g_sub_parsers w) qs w)\<lparr>g_sub_parsers := Ptr ?b\<rparr>"
  have wf1: "world_wf w1" using wf by (auto simp: w1_def world_wf_def heap_regrown)
  have arr1: "array (g_sub_parser_inputs w) ?is w1"
  proof (rule array_cong [OF arr(2)])
    fix b assume b: "b \<in> blocks_of (g_sub_parser_inputs w)"
    then have "b < brk w" using arrayD [OF arr(2)] world_wf_less [OF wf] by blast
    moreover have "b \<notin> blocks_of (g_sub_parsers w)" using b r by blast
    ultimately show "heap w1 b = heap w b" by (simp add: w1_def heap_regrown)
  qed
  define w2 where "w2 = (regrown (g_sub_parser_inputs w) rs w1)\<lparr>g_sub_parser_inputs := Ptr ?c\<rparr>"
  have step1: "realloc_ptr_array 32 (g_sub_parsers w) (?n + 2) w = Some (Ptr ?b, regrown (g_sub_parsers w) qs w)"
    unfolding qs_def
    by (rule realloc_ptr_array_grows [OF wf _ arr(1) len]) (use mem few in \<open>simp_all add: ptrdiff_max_def\<close>)
  have step2: "realloc_ptr_array 8 (g_sub_parser_inputs w) (?n + 1) w1 =
      Some (Ptr ?c, regrown (g_sub_parser_inputs w) rs w1)"
    using realloc_ptr_array_grows [OF wf1 _ arr1, of "?n + 1" 8] mem few
    by (simp add: ptrdiff_max_def w1_def rs_def)
  have b1: "heap w1 ?b = Some (Ptr_array qs)" by (simp add: w1_def heap_regrown)
  have b2: "heap w2 ?b = Some (Ptr_array qs)" "heap w2 ?c = Some (Ptr_array rs)"
    using b1 arr1 r world_wf_less [OF wf] world_wf_fresh [OF wf] arr(2)
    by (auto simp: w2_def heap_regrown w1_def array_def)
  define w3 where "w3 = w2\<lparr>heap := (heap w2)(?b \<mapsto> Ptr_array (parser_entries ?kids),
      ?c \<mapsto> Ptr_array (map (Some \<circ> snd) ?kids)), g_sub_parser_count := ?n + 1\<rparr>"
  have stores: "set_entry (Ptr ?b) ?n (mod_argp m) w2 \<bind> (\<lambda>w. set_entry (Ptr ?b) (?n + 1) NULL w \<bind>
      (\<lambda>w. set_entry (Ptr ?c) ?n mp w \<bind> (\<lambda>w. Some (None, w\<lparr>g_sub_parser_count := ?n + 1\<rparr>)))) = Some (None, w3)"
    using b2 qs rs by (simp add: set_entry_Ptr w3_def del: map_append)
  have "register_child_parser mp w = Some (None, w3)"
    unfolding register_child_parser_def
    using m by (simp add: cnt step1 step2 Let_def w1_def [symmetric] w2_def [symmetric] stores del: One_nat_def add_2_eq_Suc')
  moreover have old: "b < brk w \<and> heap w3 b = heap w b" if "b \<in> blocks_of (g_modules w)" for b
  proof -
    have "b < brk w" using that arrayD [OF arr(3)] world_wf_less [OF wf] by blast
    moreover have "b \<notin> blocks_of (g_sub_parsers w)" "b \<notin> blocks_of (g_sub_parser_inputs w)"
      using that r by blast+
    ultimately show ?thesis by (simp add: w3_def w2_def w1_def heap_regrown)
  qed
  have new: "g_modules w3 = g_modules w" "g_module_count w3 = g_module_count w" "g_sub_parsers w3 = Ptr ?b"
      "g_sub_parser_inputs w3 = Ptr ?c" "g_sub_parser_count w3 = ?n + 1"
      "heap w3 ?b = Some (Ptr_array (parser_entries ?kids))" "heap w3 ?c = Some (Ptr_array (map (Some \<circ> snd) ?kids))"
    by (simp_all add: w3_def w2_def w1_def)
  have "registry mps ?kids w3"
    unfolding registry_def new
  proof (intro conjI)
    show "array (g_modules w) (map Some mps) w3" by (rule array_cong [OF arr(3)]) (simp add: old)
    show "blocks_of (g_modules w) \<inter> blocks_of (Ptr ?b) = {}" "blocks_of (g_modules w) \<inter> blocks_of (Ptr ?c) = {}"
      using old by fastforce+
    show "NULL \<notin> fst ` set ?kids" using r m by auto
  qed (use r new in \<open>auto simp: array_def\<close>)
  moreover have "moved (registry_blocks w) (registry_blocks w3) w w3"
    unfolding moved_def
  proof (intro conjI allI impI)
    show "world_wf w3" using wf by (auto simp: world_wf_def w3_def w2_def w1_def heap_regrown)
    show "\<forall>b \<in> registry_blocks w3 - registry_blocks w. heap w b = None"
      using new wf by (auto simp: registry_blocks_def world_wf_def)
    fix b assume "b \<notin> registry_blocks w3"
    then have b: "b \<notin> blocks_of (g_modules w)" "b \<noteq> ?b" "b \<noteq> ?c" using new by (auto simp: registry_blocks_def)
    then show "heap w3 b = (if b \<in> registry_blocks w then None else heap w b)"
      by (simp add: w3_def w2_def w1_def heap_regrown registry_blocks_def)
  qed (simp add: w3_def w2_def w1_def)
  moreover have "registering w w3"
    by (simp add: registering_def w3_def w2_def w1_def)
  ultimately show ?thesis by blast
qed

lemma registering_trans: "registering w w' \<Longrightarrow> registering w' w'' \<Longrightarrow> registering w w''"
  by (simp add: registering_def)

lemma unat_Suc_count:
  assumes "unat (c :: 32 word) = n" "n < 4294967295"
  shows "unat (c + 1) = n + 1"
proof -
  have "unat c + unat (1 :: 32 word) < 2 ^ LENGTH(32)" using assms by simp
  then show ?thesis using assms(1) by (simp only: unat_add_lem [THEN iffD1] unat_1)
qed

lemma module_of_deref: "module_of mp w = Some m \<longleftrightarrow> (\<exists>b. mp = Ptr b \<and> heap w b = Some (Module m))"
  by (auto simp: module_of_def deref_def split: ptr.splits option.splits obj.splits)

lemma registry_block_array:
  assumes "registry mps kids w" "b \<in> registry_blocks w"
  shows "\<exists>ps. heap w b = Some (Ptr_array ps)"
  using assms arrayD unfolding registry_def registry_blocks_def by blast

lemma register_module_spec:
  assumes reg: "registry mps kids w" and m: "module_of mp w = Some m" "mod_argp m \<noteq> NULL"
    and wf: "world_wf w" and mem: "\<forall>n. alloc_ok w n"
    and few: "length mps < 4294967295" "length kids \<le> 4294967296"
  shows "\<exists>w'. register_module mp w = Some (UL_OK, w') \<and>
    registry (mps @ [mp]) (kids @ [(mod_argp m, mp)]) w' \<and> moved (registry_blocks w) (registry_blocks w') w w' \<and>
    registering w w'"
proof -
  let ?n = "length mps" and ?b = "brk w"
  note r = reg [unfolded registry_def]
  have arr: "array (g_modules w) (map Some mps) w" "array (g_sub_parsers w) (parser_entries kids) w"
      "array (g_sub_parser_inputs w) (map (Some \<circ> snd) kids) w"
    and cnt: "unat (g_module_count w) = ?n" using r by blast+
  have suc: "unat (g_module_count w + 1) = ?n + 1" by (rule unat_Suc_count [OF cnt few(1)])
  define qs where "qs = map Some mps @ [None]"
  have qs: "length qs = ?n + 1" "qs[?n := Some mp] = map Some (mps @ [mp])"
    by (auto simp: qs_def list_update_append)
  define w1 where "w1 = (regrown (g_modules w) qs w)\<lparr>g_modules := Ptr ?b\<rparr>"
  have step: "realloc_ptr_array 8 (g_modules w) (?n + 1) w = Some (Ptr ?b, regrown (g_modules w) qs w)"
    using realloc_ptr_array_grows [OF wf _ arr(1), of "?n + 1" 8] mem few by (simp add: ptrdiff_max_def qs_def)
  have b1: "heap w1 ?b = Some (Ptr_array qs)" by (simp add: w1_def heap_regrown)
  define w2 where "w2 = w1\<lparr>heap := (heap w1)(?b \<mapsto> Ptr_array (map Some (mps @ [mp]))),
      g_module_count := g_module_count w + 1\<rparr>"
  have new: "g_modules w2 = Ptr ?b" "unat (g_module_count w2) = ?n + 1" "g_sub_parsers w2 = g_sub_parsers w"
      "g_sub_parser_inputs w2 = g_sub_parser_inputs w" "g_sub_parser_count w2 = g_sub_parser_count w"
      "heap w2 ?b = Some (Ptr_array (map Some (mps @ [mp])))"
    using suc by (simp_all add: w2_def w1_def)
  have old: "b < brk w \<and> heap w2 b = heap w b"
    if "b \<in> blocks_of (g_sub_parsers w) \<union> blocks_of (g_sub_parser_inputs w)" for b
  proof -
    have "b < brk w" using that arrayD [OF arr(2)] arrayD [OF arr(3)] world_wf_less [OF wf] by blast
    moreover have "b \<notin> blocks_of (g_modules w)" using that r by blast
    ultimately show ?thesis by (simp add: w2_def w1_def heap_regrown)
  qed
  have reg2: "registry (mps @ [mp]) kids w2"
    unfolding registry_def new
  proof (intro conjI)
    show "array (g_sub_parsers w) (parser_entries kids) w2" by (rule array_cong [OF arr(2)]) (simp add: old)
    show "array (g_sub_parser_inputs w) (map (Some \<circ> snd) kids) w2" by (rule array_cong [OF arr(3)]) (simp add: old)
    show "blocks_of (Ptr ?b) \<inter> blocks_of (g_sub_parsers w) = {}"
      "blocks_of (Ptr ?b) \<inter> blocks_of (g_sub_parser_inputs w) = {}" using old by fastforce+
    show "array (Ptr ?b) (map Some (mps @ [mp])) w2" using new by (simp add: array_def)
  qed (use r in \<open>simp | blast\<close>)+
  have mv: "moved (registry_blocks w) (registry_blocks w2) w w2"
    unfolding moved_def
  proof (intro conjI allI impI)
    show "world_wf w2" using wf by (auto simp: world_wf_def w2_def w1_def heap_regrown)
    show "\<forall>b \<in> registry_blocks w2 - registry_blocks w. heap w b = None"
      using new wf by (auto simp: registry_blocks_def world_wf_def)
    fix b assume "b \<notin> registry_blocks w2"
    then have b: "b \<notin> blocks_of (g_sub_parsers w)" "b \<notin> blocks_of (g_sub_parser_inputs w)" "b \<noteq> ?b"
      using new by (auto simp: registry_blocks_def)
    then show "heap w2 b = (if b \<in> registry_blocks w then None else heap w b)"
      by (simp add: w2_def w1_def heap_regrown registry_blocks_def)
  qed (simp add: w2_def w1_def)
  have wf2: "world_wf w2" by (rule movedD(1) [OF mv])
  have mem2: "\<forall>n. alloc_ok w2 n" using mem movedD(2) [OF mv] by simp
  have "module_of mp w2 = Some m"
    using m(1) registry_block_array [OF reg] moved_keeps [OF mv] unfolding module_of_deref by fastforce
  from register_child_parser_spec [OF reg2 this m(2) wf2 mem2 few(2)] obtain w3 where
    w3: "register_child_parser mp w2 = Some (None, w3)" "registry (mps @ [mp]) (kids @ [(mod_argp m, mp)]) w3"
      "moved (registry_blocks w2) (registry_blocks w3) w2 w3" "registering w2 w3" by blast
  have "set_entry (Ptr ?b) ?n mp w1 = Some (w1\<lparr>heap := (heap w1)(?b \<mapsto> Ptr_array (map Some (mps @ [mp])))\<rparr>)"
    using set_entry_Ptr [OF b1] qs by simp
  then have "register_module mp w = Some (UL_OK, w3)"
    unfolding register_module_def
    using w3(1) by (simp add: cnt suc step Let_def w1_def [symmetric] w2_def del: One_nat_def)
      (simp add: w1_def)
  moreover have "registering w w2" by (simp add: registering_def w2_def w1_def)
  ultimately show ?thesis using w3 moved_trans [OF mv] registering_trans by blast
qed

section \<open>The two modules\<close>

lemma owned_stdout:
  "heap w b = Some (Module (stdout_module (Ptr a) en)) \<Longrightarrow> owned (Ptr b) w = {b, a}"
  by (auto simp: owned_def stdout_module_def)

lemma owned_sd_socket:
  "heap w b = Some (Module (sd_socket_module (Ptr a) (Ptr s) en)) \<Longrightarrow> owned (Ptr b) w = {b, a, s}"
  by (auto simp: owned_def sd_socket_module_def)

definition same_statics :: "'e world \<Rightarrow> 'e world \<Rightarrow> bool" where
  "same_statics w w' \<longleftrightarrow> g_modules w' = g_modules w \<and> g_module_count w' = g_module_count w \<and>
     g_sub_parsers w' = g_sub_parsers w \<and> g_sub_parser_inputs w' = g_sub_parser_inputs w \<and>
     g_sub_parser_count w' = g_sub_parser_count w"

lemma get_mod_stdout_spec:
  assumes "world_wf w" "\<forall>n. alloc_ok w n"
  shows "\<exists>mp w'. get_mod_stdout w = Some (mp, w') \<and> is_stdout mp False w' \<and> moved {} (owned mp w') w w' \<and>
    registering w w' \<and> same_statics w w'"
proof -
  let ?b = "brk w" and ?a = "Suc (brk w)"
  let ?w' = "w\<lparr>brk := Suc ?a, heap := (heap w)(?a \<mapsto> Argp \<lparr>argp_options = stdout_options, argp_parser = Stdout_parser\<rparr>,
      ?b \<mapsto> Module (stdout_module (Ptr ?a) False))\<rparr>"
  have run: "get_mod_stdout w = Some (Ptr ?b, ?w')"
    using assms(2) by (simp add: get_mod_stdout_def stdout_init_argp_def malloc_struct_def new_block_def
        stdout_module_def Let_def fun_upd_twist)
  have own: "owned (Ptr ?b) ?w' = {?b, ?a}" by (rule owned_stdout) simp
  have "is_stdout (Ptr ?b) False ?w'"
    unfolding is_stdout_def by (intro exI [of _ ?b] exI [of _ ?a]) simp
  moreover have "moved {} (owned (Ptr ?b) ?w') w ?w'"
    unfolding own using assms(1) by (auto simp: moved_def world_wf_def)
  moreover have "registering w ?w'" "same_statics w ?w'" by (simp_all add: registering_def same_statics_def)
  ultimately show ?thesis using run by blast
qed

lemma get_mod_sd_socket_spec:
  assumes "world_wf w" "\<forall>n. alloc_ok w n"
  shows "\<exists>mp w'. get_mod_sd_socket w = Some (mp, w') \<and> is_sd_socket mp False 0 w' \<and> moved {} (owned mp w') w w' \<and>
    registering w w' \<and> same_statics w w'"
proof -
  let ?b = "brk w" and ?a = "Suc (brk w)" and ?s = "Suc (Suc (brk w))"
  let ?w' = "w\<lparr>brk := Suc ?s, heap := (heap w)
      (?a \<mapsto> Argp \<lparr>argp_options = sd_socket_options, argp_parser = Sd_socket_parser\<rparr>,
       ?s \<mapsto> Sd_socket_state 0, ?b \<mapsto> Module (sd_socket_module (Ptr ?a) (Ptr ?s) False))\<rparr>"
  have run: "get_mod_sd_socket w = Some (Ptr ?b, ?w')"
    using assms(2) by (simp add: get_mod_sd_socket_def sd_socket_init_argp_def init_state_def malloc_struct_def
        new_block_def sd_socket_module_def Let_def fun_upd_twist)
  have own: "owned (Ptr ?b) ?w' = {?b, ?a, ?s}" by (rule owned_sd_socket) simp
  have "is_sd_socket (Ptr ?b) False 0 ?w'"
    unfolding is_sd_socket_def by (intro exI [of _ ?b] exI [of _ ?a] exI [of _ ?s]) simp
  moreover have "moved {} (owned (Ptr ?b) ?w') w ?w'"
    unfolding own using assms(1) by (auto simp: moved_def world_wf_def)
  moreover have "registering w ?w'" "same_statics w ?w'" by (simp_all add: registering_def same_statics_def)
  ultimately show ?thesis using run by blast
qed

text \<open>The program's modules in the registry, with their parsers.\<close>

definition parsers_of :: "ptr \<Rightarrow> ptr \<Rightarrow> 'e world \<Rightarrow> (ptr \<times> ptr) list" where
  "parsers_of sd st w = [(argp_ptr sd w, sd), (argp_ptr st w, st)]"

definition plugged :: "ptr \<Rightarrow> ptr \<Rightarrow> bool \<Rightarrow> int \<Rightarrow> bool \<Rightarrow> 'e world \<Rightarrow> bool" where
  "plugged sd st en1 fd en2 w \<longleftrightarrow>
     registry [sd, st] (parsers_of sd st w) w \<and> world_wf w \<and>
     is_sd_socket sd en1 fd w \<and> is_stdout st en2 w"

definition program_blocks :: "ptr \<Rightarrow> ptr \<Rightarrow> 'e world \<Rightarrow> nat set" where
  "program_blocks sd st w = owned sd w \<union> owned st w \<union> registry_blocks w"

lemma owned_disjoint:
  assumes "is_sd_socket sd en1 fd w" "is_stdout st en2 w"
  shows "owned sd w \<inter> owned st w = {}"
proof -
  obtain b a s where b: "sd = Ptr b" "heap w b = Some (Module (sd_socket_module (Ptr a) (Ptr s) en1))"
    "heap w a = Some (Argp \<lparr>argp_options = sd_socket_options, argp_parser = Sd_socket_parser\<rparr>)"
    "heap w s = Some (Sd_socket_state fd)"
    using assms(1) by (auto simp: is_sd_socket_def)
  obtain c d where c: "st = Ptr c" "heap w c = Some (Module (stdout_module (Ptr d) en2))"
    "heap w d = Some (Argp \<lparr>argp_options = stdout_options, argp_parser = Stdout_parser\<rparr>)"
    using assms(2) by (auto simp: is_stdout_def)
  have "b \<noteq> c" using b c by (auto simp: stdout_module_def sd_socket_module_def)
  moreover have "a \<noteq> d" using b c by auto
  ultimately show ?thesis using b c by (auto simp: owned_sd_socket owned_stdout)
qed

lemma module_okI: "is_stdout mp en w \<Longrightarrow> module_ok mp w" "is_sd_socket mp en fd w \<Longrightarrow> module_ok mp w"
  by (auto simp: module_ok_def)

lemma plugged_inv: "plugged sd st en1 fd en2 w \<Longrightarrow> modules_inv [sd, st] w"
  using owned_disjoint [of sd en1 fd w st en2] by (auto simp: plugged_def modules_inv_def module_okI)

lemma plugged_ready: "plugged sd st en1 fd en2 w \<Longrightarrow> modules_ready sd st en1 fd en2 w"
  using plugged_inv [of sd st en1 fd en2 w] registry_table by (auto simp: modules_ready_def plugged_def)

text \<open>Blocks that hold neither text nor settings: all that the modules and the registry have.\<close>

fun is_solid :: "obj \<Rightarrow> bool" where
  "is_solid (Chars _) = False"
| "is_solid (Arguments _) = False"
| "is_solid (Response _) = False"
| "is_solid (Slist _) = False"
| "is_solid _ = True"

lemma program_blocks_solid:
  assumes p: "plugged sd st en1 fd en2 w" and b: "b \<in> program_blocks sd st w"
  shows "\<exists>x. heap w b = Some x \<and> is_solid x"
proof -
  have m: "is_sd_socket sd en1 fd w" "is_stdout st en2 w" "registry [sd, st] (parsers_of sd st w) w"
    using p by (simp_all add: plugged_def)
  from b consider "b \<in> owned sd w" | "b \<in> owned st w" | "b \<in> registry_blocks w"
    by (auto simp: program_blocks_def)
  then show ?thesis
  proof cases
    case 1
    then show ?thesis using m(1) by (auto simp: is_sd_socket_def owned_sd_socket)
  next
    case 2
    then show ?thesis using m(2) by (auto simp: is_stdout_def owned_stdout)
  next
    case 3
    from registry_block_array [OF m(3) this] show ?thesis by auto
  qed
qed

lemma is_stdout_cong: "is_stdout mp en w \<Longrightarrow> (\<And>b. b \<in> owned mp w \<Longrightarrow> heap w' b = heap w b) \<Longrightarrow>
  is_stdout mp en w' \<and> owned mp w' = owned mp w \<and> argp_ptr mp w' = argp_ptr mp w"
  by (auto simp: is_stdout_def owned_stdout argp_ptr_def stdout_module_def)

lemma is_sd_socket_cong: "is_sd_socket mp en fd w \<Longrightarrow> (\<And>b. b \<in> owned mp w \<Longrightarrow> heap w' b = heap w b) \<Longrightarrow>
  is_sd_socket mp en fd w' \<and> owned mp w' = owned mp w \<and> argp_ptr mp w' = argp_ptr mp w"
  by (auto simp: is_sd_socket_def owned_sd_socket argp_ptr_def sd_socket_module_def)

lemma plugged_cong:
  assumes p: "plugged sd st en1 fd en2 w" and eq: "\<And>b. b \<in> program_blocks sd st w \<Longrightarrow> heap w' b = heap w b"
    and wf: "world_wf w'" and st: "same_statics w w'"
  shows "plugged sd st en1 fd en2 w' \<and> program_blocks sd st w' = program_blocks sd st w \<and>
    parsers_of sd st w' = parsers_of sd st w"
proof -
  note g = st [unfolded same_statics_def]
  have 1: "is_sd_socket sd en1 fd w' \<and> owned sd w' = owned sd w \<and> argp_ptr sd w' = argp_ptr sd w"
    by (rule is_sd_socket_cong) (use p eq in \<open>simp_all add: plugged_def program_blocks_def\<close>)
  have 2: "is_stdout st en2 w' \<and> owned st w' = owned st w \<and> argp_ptr st w' = argp_ptr st w"
    by (rule is_stdout_cong) (use p eq in \<open>simp_all add: plugged_def program_blocks_def\<close>)
  have "registry [sd, st] (parsers_of sd st w) w'"
    by (rule registry_cong [of _ _ w]) (use p eq g in \<open>simp_all add: plugged_def program_blocks_def\<close>)
  with 1 2 wf g show ?thesis by (simp add: plugged_def program_blocks_def registry_blocks_def parsers_of_def)
qed

lemma plugged_moved:
  assumes p: "plugged sd st en1 fd en2 w" and mv: "moved B B' w w'" and st: "same_statics w w'"
    and B: "B \<inter> program_blocks sd st w = {}"
  shows "plugged sd st en1 fd en2 w' \<and> program_blocks sd st w' = program_blocks sd st w \<and>
    parsers_of sd st w' = parsers_of sd st w"
proof (rule plugged_cong [OF p _ movedD(1) [OF mv] st])
  fix b assume b: "b \<in> program_blocks sd st w"
  then obtain x where "heap w b = Some x" using program_blocks_solid [OF p] by blast
  then show "heap w' b = heap w b" using moved_keeps [OF mv] b B by auto
qed

lemma same_statics_refl [simp]: "same_statics w w"
  by (simp add: same_statics_def)

lemma same_statics_trans: "same_statics w w' \<Longrightarrow> same_statics w' w'' \<Longrightarrow> same_statics w w''"
  by (simp add: same_statics_def)

lemma same_statics_did: "did es w w' \<Longrightarrow> same_statics w w'"
  by (simp add: did_def same_statics_def)

lemma same_statics_heap_only: "heap_only w w' \<Longrightarrow> same_statics w w'"
  by (cases w; cases w'; simp add: heap_only_def same_statics_def)

text \<open>A change of one module keeps the other one, and the registry.\<close>

lemma plugged_sd:
  assumes p: "plugged sd st en1 fd en2 w" and only: "only_module sd w w'" and shape: "same_shape sd w w'"
    and sd: "is_sd_socket sd en' fd' w'" and st: "same_statics w w'"
  shows "plugged sd st en' fd' en2 w' \<and> program_blocks sd st w' = program_blocks sd st w \<and>
    parsers_of sd st w' = parsers_of sd st w"
proof -
  note q = p [unfolded plugged_def]
  have out: "heap w' b = heap w b" if "b \<notin> owned sd w" for b
    using only that by (simp add: only_module_def)
  have "is_stdout st en2 w' \<and> owned st w' = owned st w \<and> argp_ptr st w' = argp_ptr st w"
    by (rule is_stdout_cong) (use q out owned_disjoint in blast)+
  moreover have "registry [sd, st] (parsers_of sd st w) w'"
  proof (rule registry_cong [of _ _ w])
    fix b assume "b \<in> registry_blocks w"
    then obtain ps where "heap w b = Some (Ptr_array ps)" using q registry_block_array by blast
    then have "b \<notin> owned sd w" using owned_obj(2) q module_okI(2) by blast
    then show "heap w' b = heap w b" by (rule out)
  qed (use q st in \<open>simp_all add: same_statics_def\<close>)
  ultimately show ?thesis
    using sd shape only st
    by (simp add: plugged_def same_shape_def only_module_def program_blocks_def registry_blocks_def same_statics_def
        parsers_of_def)
qed

lemma plugged_st:
  assumes p: "plugged sd st en1 fd en2 w" and only: "only_module st w w'" and shape: "same_shape st w w'"
    and st: "is_stdout st en' w'" and ss: "same_statics w w'"
  shows "plugged sd st en1 fd en' w' \<and> program_blocks sd st w' = program_blocks sd st w \<and>
    parsers_of sd st w' = parsers_of sd st w"
proof -
  note q = p [unfolded plugged_def]
  have out: "heap w' b = heap w b" if "b \<notin> owned st w" for b
    using only that by (simp add: only_module_def)
  have "is_sd_socket sd en1 fd w' \<and> owned sd w' = owned sd w \<and> argp_ptr sd w' = argp_ptr sd w"
    by (rule is_sd_socket_cong) (use q out owned_disjoint in blast)+
  moreover have "registry [sd, st] (parsers_of sd st w) w'"
  proof (rule registry_cong [of _ _ w])
    fix b assume "b \<in> registry_blocks w"
    then obtain ps where "heap w b = Some (Ptr_array ps)" using q registry_block_array by blast
    then have "b \<notin> owned st w" using owned_obj(2) q module_okI(1) by blast
    then show "heap w' b = heap w b" by (rule out)
  qed (use q ss in \<open>simp_all add: same_statics_def\<close>)
  ultimately show ?thesis
    using st shape only ss
    by (simp add: plugged_def same_shape_def only_module_def program_blocks_def registry_blocks_def same_statics_def
        parsers_of_def)
qed

lemma moved_only_module:
  assumes "only_module mp w w'" "owned mp w \<subseteq> B" "alloc_ok w' = alloc_ok w"
  shows "moved B B w w'"
  using assms by (auto simp: moved_def only_module_def)

section \<open>The life of the modules\<close>

text \<open>
  From a state without modules to the two of the program: what \<^verbatim>\<open>main\<close> does first. The blocks that
  are new are those of the modules and of the registry.
\<close>

lemma is_sd_socket_module: "is_sd_socket mp en fd w \<Longrightarrow> \<exists>m. module_of mp w = Some m \<and> mod_argp m \<noteq> NULL \<and> argp_ptr mp w = mod_argp m"
  by (auto simp: is_sd_socket_def argp_ptr_def sd_socket_module_def)

lemma is_stdout_module: "is_stdout mp en w \<Longrightarrow> \<exists>m. module_of mp w = Some m \<and> mod_argp m \<noteq> NULL \<and> argp_ptr mp w = mod_argp m"
  by (auto simp: is_stdout_def argp_ptr_def stdout_module_def)

lemma registry_statics:
  assumes "registry mps kids w" "same_statics w w'" "moved B B' w w'" "B \<inter> registry_blocks w = {}"
  shows "registry mps kids w' \<and> registry_blocks w' = registry_blocks w"
proof -
  have "heap w' b = heap w b" if "b \<in> registry_blocks w" for b
    using registry_block_array [OF assms(1) that] moved_keeps [OF assms(3)] that assms(4) by fastforce
  then have "registry mps kids w'"
    by (rule registry_cong [OF assms(1)]) (use assms(2) in \<open>simp_all add: same_statics_def\<close>)
  then show ?thesis using assms(2) by (simp add: same_statics_def registry_blocks_def)
qed

lemma solid_frame:
  assumes mv: "moved (registry_blocks w) B' w w'" and reg: "registry mps kids w"
    and x: "heap w b = Some x" "\<And>ps. x \<noteq> Ptr_array ps"
  shows "heap w' b = heap w b"
  using registry_block_array [OF reg] x moved_keeps [OF mv] by fastforce

lemma modules_registered:
  assumes reg: "registry [] [] w" and wf: "world_wf w" and mem: "\<forall>n. alloc_ok w n"
  obtains sd w1 w2 st w3 w4 where
    "get_mod_sd_socket w = Some (sd, w1)" "register_module sd w1 = Some (UL_OK, w2)"
    "get_mod_stdout w2 = Some (st, w3)" "register_module st w3 = Some (UL_OK, w4)"
    "plugged sd st False 0 False w4" "moved {} (program_blocks sd st w4) w w4" "registering w w4"
proof -
  obtain sd w1 where w1: "get_mod_sd_socket w = Some (sd, w1)" "is_sd_socket sd False 0 w1"
      "moved {} (owned sd w1) w w1" "registering w w1" "same_statics w w1"
    using get_mod_sd_socket_spec [OF wf mem] by blast
  have reg1: "registry [] [] w1" and rb1: "registry_blocks w1 = {}"
    using registry_statics [OF reg w1(5,3)] reg [unfolded registry_start] by (auto simp: registry_blocks_def)
  obtain m1 where m1: "module_of sd w1 = Some m1" "mod_argp m1 \<noteq> NULL" "argp_ptr sd w1 = mod_argp m1"
    using is_sd_socket_module [OF w1(2)] by blast
  have mem1: "\<forall>n. alloc_ok w1 n" using mem w1(4) by (simp add: registering_def)
  obtain w2 where w2: "register_module sd w1 = Some (UL_OK, w2)" "registry [sd] [(argp_ptr sd w1, sd)] w2"
      "moved (registry_blocks w1) (registry_blocks w2) w1 w2" "registering w1 w2"
    using register_module_spec [OF reg1 m1(1,2) movedD(1) [OF w1(3)] mem1] m1(3) by auto
  have mem2: "\<forall>n. alloc_ok w2 n" using mem1 w2(4) by (simp add: registering_def)
  have sd2: "is_sd_socket sd False 0 w2 \<and> owned sd w2 = owned sd w1 \<and> argp_ptr sd w2 = argp_ptr sd w1"
    by (rule is_sd_socket_cong [OF w1(2)])
      (metis solid_frame [OF w2(3) reg1] owned_obj(1,2) module_okI(2) w1(2) not_Some_eq)
  obtain st w3 where w3: "get_mod_stdout w2 = Some (st, w3)" "is_stdout st False w3"
      "moved {} (owned st w3) w2 w3" "registering w2 w3" "same_statics w2 w3"
    using get_mod_stdout_spec [OF movedD(1) [OF w2(3)] mem2] by blast
  have reg3: "registry [sd] [(argp_ptr sd w2, sd)] w3" and rb3: "registry_blocks w3 = registry_blocks w2"
    using registry_statics [OF w2(2) w3(5,3)] sd2 by auto
  have sd3: "is_sd_socket sd False 0 w3 \<and> owned sd w3 = owned sd w2 \<and> argp_ptr sd w3 = argp_ptr sd w2"
    by (rule is_sd_socket_cong) (use sd2 in blast, metis sd2 moved_keeps [OF w3(3)] owned_obj(1) module_okI(2) empty_iff not_Some_eq)
  obtain m3 where m3: "module_of st w3 = Some m3" "mod_argp m3 \<noteq> NULL" "argp_ptr st w3 = mod_argp m3"
    using is_stdout_module [OF w3(2)] by blast
  have mem3: "\<forall>n. alloc_ok w3 n" using mem2 w3(4) by (simp add: registering_def)
  obtain w4 where w4: "register_module st w3 = Some (UL_OK, w4)"
      "registry [sd, st] [(argp_ptr sd w3, sd), (argp_ptr st w3, st)] w4"
      "moved (registry_blocks w3) (registry_blocks w4) w3 w4" "registering w3 w4"
    using register_module_spec [OF reg3 m3(1,2) movedD(1) [OF w3(3)] mem3] m3(3) sd3 by auto
  have sd4: "is_sd_socket sd False 0 w4 \<and> owned sd w4 = owned sd w3 \<and> argp_ptr sd w4 = argp_ptr sd w3"
    by (rule is_sd_socket_cong)
      (use sd3 in blast, metis sd3 solid_frame [OF w4(3) reg3] owned_obj(1,2) module_okI(2) not_Some_eq)
  have st4: "is_stdout st False w4 \<and> owned st w4 = owned st w3 \<and> argp_ptr st w4 = argp_ptr st w3"
    by (rule is_stdout_cong [OF w3(2)])
      (metis solid_frame [OF w4(3) reg3] owned_obj(1,2) module_okI(1) w3(2) not_Some_eq)
  have "plugged sd st False 0 False w4"
    using w4(2) sd4 st4 movedD(1) [OF w4(3)] by (simp add: plugged_def parsers_of_def)
  moreover have "moved {} (program_blocks sd st w4) w w4"
  proof -
    have "moved {} (registry_blocks w2 \<union> owned sd w1) w w2"
      using moved_trans [OF w1(3)] moved_more [OF w2(3), of "owned sd w1"] rb1 by simp
    also have "moved (registry_blocks w2 \<union> owned sd w1) (registry_blocks w3 \<union> owned sd w1 \<union> owned st w3) w2 w3"
      using moved_more [OF w3(3), of "registry_blocks w2 \<union> owned sd w1"] rb3 by (simp add: Un_ac)
    also have "moved (registry_blocks w3 \<union> owned sd w1 \<union> owned st w3) (registry_blocks w4 \<union> owned sd w1 \<union> owned st w3) w3 w4"
      using moved_more [OF w4(3), of "owned sd w1 \<union> owned st w3"] by (simp add: Un_ac)
    finally show ?thesis using sd2 sd3 sd4 st4 by (simp add: program_blocks_def Un_ac)
  qed
  moreover have "registering w w4"
    using registering_trans w1(4) w2(4) w3(4) w4(4) by blast
  ultimately show ?thesis using that w1(1) w2(1) w3(1) w4(1) by blast
qed

section \<open>The command line\<close>

lemma entries_array:
  "array p (map (Some \<circ> f) xs) w \<Longrightarrow> n \<le> length xs \<Longrightarrow> entries p n w = Some (map f (take n xs))"
proof (induction n)
  case (Suc n)
  then have "get_entry p n w = Some (f (xs ! n))"
    using array_ptr_array_of [OF Suc.prems(1)] by (force simp: get_entry_def)
  with Suc show ?case by (simp add: take_Suc_conv_app_nth)
qed simp

lemma scan_ptrs_entries: "NULL \<notin> set ps \<Longrightarrow> scan_ptrs (map Some ps @ [Some NULL]) = Some ps"
  by (induction ps) auto

lemma registry_children:
  assumes "registry mps kids w"
  shows "children_of w = Some (map fst kids)"
    and "entries (g_sub_parser_inputs w) (g_sub_parser_count w) w = Some (map snd kids)"
proof -
  note r = assms [unfolded registry_def]
  have "array (g_sub_parser_inputs w) (map (Some \<circ> snd) kids) w" using r by blast
  from entries_array [OF this, of "length kids"]
  show "entries (g_sub_parser_inputs w) (g_sub_parser_count w) w = Some (map snd kids)" using r by simp
  show "children_of w = Some (map fst kids)"
  proof (cases "kids = []")
    case True
    then show ?thesis using r by (simp add: children_of_def)
  next
    case False
    then have "ptr_array_of (g_sub_parsers w) w = Some (map Some (map fst kids) @ [Some NULL])" "g_sub_parsers w \<noteq> NULL"
      using r array_ptr_array_of [of "g_sub_parsers w" "parser_entries kids" w] by (auto simp: parser_entries_def)
    then show ?thesis using r scan_ptrs_entries [of "map fst kids"] by (simp add: children_of_def)
  qed
qed

text \<open>The option of a module sets its flag.\<close>

lemma set_flag_sd:
  assumes i: "is_sd_socket sd en fd w" and wf: "world_wf w"
  shows "\<exists>w'. sd_socket_parser 350 sd w = Some (0, w') \<and> only_module sd w w' \<and> heap_only w w' \<and>
    is_sd_socket sd True fd w' \<and> same_shape sd w w'"
proof -
  obtain b a s where b: "sd = Ptr b" "heap w b = Some (Module (sd_socket_module (Ptr a) (Ptr s) en))"
    "heap w a = Some (Argp \<lparr>argp_options = sd_socket_options, argp_parser = Sd_socket_parser\<rparr>)"
    "heap w s = Some (Sd_socket_state fd)"
    using i by (auto simp: is_sd_socket_def)
  let ?w' = "w\<lparr>heap := (heap w)(b \<mapsto> Module (sd_socket_module (Ptr a) (Ptr s) True))\<rparr>"
  have "sd_socket_parser 350 sd w = Some (0, ?w')"
    using b by (simp add: sd_socket_parser_def sd_socket_module_def)
  moreover have "only_module sd w ?w'"
    using b wf world_wf_less [OF wf b(2)] by (auto simp: only_module_def owned_def world_wf_def)
  moreover have "is_sd_socket sd True fd ?w'"
    unfolding is_sd_socket_def using b by (intro exI [of _ b] exI [of _ a] exI [of _ s]) auto
  moreover have "same_shape sd w ?w'"
    using b by (simp add: same_shape_def owned_def argp_ptr_def sd_socket_module_def)
  ultimately show ?thesis by (auto simp: heap_only_def)
qed

lemma set_flag_st:
  assumes i: "is_stdout st en w" and wf: "world_wf w"
  shows "\<exists>w'. stdout_parser 300 st w = Some (0, w') \<and> only_module st w w' \<and> heap_only w w' \<and>
    is_stdout st True w' \<and> same_shape st w w'"
proof -
  obtain b a where b: "st = Ptr b" "heap w b = Some (Module (stdout_module (Ptr a) en))"
    "heap w a = Some (Argp \<lparr>argp_options = stdout_options, argp_parser = Stdout_parser\<rparr>)"
    using i by (auto simp: is_stdout_def)
  let ?w' = "w\<lparr>heap := (heap w)(b \<mapsto> Module (stdout_module (Ptr a) True))\<rparr>"
  have "stdout_parser 300 st w = Some (0, ?w')"
    using b by (simp add: stdout_parser_def stdout_module_def)
  moreover have "only_module st w ?w'"
    using b wf world_wf_less [OF wf b(2)] by (auto simp: only_module_def owned_def world_wf_def)
  moreover have "is_stdout st True ?w'"
    unfolding is_stdout_def using b by (intro exI [of _ b] exI [of _ a]) auto
  moreover have "same_shape st w ?w'"
    using b by (simp add: same_shape_def owned_def argp_ptr_def stdout_module_def)
  ultimately show ?thesis by (auto simp: heap_only_def)
qed

text \<open>A step that changes the modules, and no block but theirs.\<close>

definition plugged_step :: "ptr \<Rightarrow> ptr \<Rightarrow> bool \<Rightarrow> int \<Rightarrow> bool \<Rightarrow> 'e world \<Rightarrow> 'e world \<Rightarrow> bool" where
  "plugged_step sd st en1 fd en2 w w' \<longleftrightarrow>
     plugged sd st en1 fd en2 w' \<and> program_blocks sd st w' = program_blocks sd st w \<and>
     parsers_of sd st w' = parsers_of sd st w \<and>
     moved (program_blocks sd st w) (program_blocks sd st w) w w' \<and> did [] w w'"

lemma plugged_step_refl: "plugged sd st en1 fd en2 w \<Longrightarrow> plugged_step sd st en1 fd en2 w w"
  by (simp add: plugged_step_def plugged_def)

lemma plugged_step_sd:
  assumes p: "plugged sd st en1 fd en2 w" and only: "only_module sd w w'" and shape: "same_shape sd w w'"
    and sd: "is_sd_socket sd en' fd' w'" and d: "did [] w w'"
  shows "plugged_step sd st en' fd' en2 w w'"
proof -
  have "moved (program_blocks sd st w) (program_blocks sd st w) w w'"
    by (rule moved_only_module [OF only]) (use d in \<open>auto simp: program_blocks_def did_def\<close>)
  with plugged_sd [OF p only shape sd same_statics_did [OF d]] d show ?thesis
    by (simp add: plugged_step_def)
qed

lemma plugged_step_st:
  assumes p: "plugged sd st en1 fd en2 w" and only: "only_module st w w'" and shape: "same_shape st w w'"
    and st: "is_stdout st en' w'" and d: "did [] w w'"
  shows "plugged_step sd st en1 fd en' w w'"
proof -
  have "moved (program_blocks sd st w) (program_blocks sd st w) w w'"
    by (rule moved_only_module [OF only]) (use d in \<open>auto simp: program_blocks_def did_def\<close>)
  with plugged_st [OF p only shape st same_statics_did [OF d]] d show ?thesis
    by (simp add: plugged_step_def)
qed

lemma plugged_step_trans:
  assumes "plugged_step sd st a b c w w'" "plugged_step sd st a' b' c' w' w''"
  shows "plugged_step sd st a' b' c' w w''"
  using assms moved_trans did_trans [of "[]" w w' "[]" w''] unfolding plugged_step_def by fastforce

lemma child_option:
  assumes p: "plugged sd st en1 fd en2 w" and kids: "kids = parsers_of sd st w"
  shows "\<exists>w'. call_child kids 350 w = Some (0, w') \<and> plugged_step sd st True fd en2 w w' \<and> heap_only w w'"
    and "\<exists>w'. call_child kids 300 w = Some (0, w') \<and> plugged_step sd st en1 fd True w w' \<and> heap_only w w'"
proof -
  note q = p [unfolded plugged_def]
  have a: "argp_of (argp_ptr sd w) w = Some \<lparr>argp_options = sd_socket_options, argp_parser = Sd_socket_parser\<rparr>"
    "argp_of (argp_ptr st w) w = Some \<lparr>argp_options = stdout_options, argp_parser = Stdout_parser\<rparr>"
    using q by (auto simp: is_sd_socket_def is_stdout_def argp_ptr_def argp_of_def deref_def sd_socket_module_def
        stdout_module_def)
  obtain w' where w': "sd_socket_parser 350 sd w = Some (0, w')" "only_module sd w w'" "heap_only w w'"
      "is_sd_socket sd True fd w'" "same_shape sd w w'"
    using set_flag_sd q by blast
  then show "\<exists>w'. call_child kids 350 w = Some (0, w') \<and> plugged_step sd st True fd en2 w w' \<and> heap_only w w'"
    using a plugged_step_sd [OF p w'(2,5,4) did_heap_only [OF w'(3)]] w'(3)
    by (simp add: kids parsers_of_def sd_socket_options_def call_parser_def)
  obtain w'' where w'': "stdout_parser 300 st w = Some (0, w'')" "only_module st w w''" "heap_only w w''"
      "is_stdout st True w''" "same_shape st w w''"
    using set_flag_st q by blast
  then show "\<exists>w'. call_child kids 300 w = Some (0, w') \<and> plugged_step sd st en1 fd True w w' \<and> heap_only w w'"
    using a plugged_step_st [OF p w''(2,5,4) did_heap_only [OF w''(3)]] w''(3)
    by (simp add: kids parsers_of_def sd_socket_options_def stdout_options_def call_parser_def)
qed

section \<open>Configuration, initialisation, clean-up\<close>

lemma parse_config_spec:
  assumes p: "plugged sd st en1 fd en2 w"
  shows "\<exists>w'. parse_config (dispatch P) ini w = Some (UL_OK, w') \<and>
    plugged_step sd st (configured (ini_boolean ini ''sd_socket:use_socket'' (- 1)) en1) fd
      (configured (ini_boolean ini ''stdout:use_stdout'' (- 1)) en2) w w' \<and> ext w' = ext w"
proof -
  note q = p [unfolded plugged_def]
  let ?e1 = "configured (ini_boolean ini ''sd_socket:use_socket'' (- 1)) en1"
  let ?e2 = "configured (ini_boolean ini ''stdout:use_stdout'' (- 1)) en2"
  have wf: "world_wf w" and i1: "is_sd_socket sd en1 fd w" using q by simp_all
  obtain w1 where w1: "parse_sd_socket_config sd ini w = Some (UL_OK, w1)" "only_module sd w w1" "heap_only w w1"
      "is_sd_socket sd ?e1 fd w1" "same_shape sd w w1"
    using parse_sd_socket_config_spec [OF i1 wf, of ini] by blast
  have p1: "plugged_step sd st ?e1 fd en2 w w1"
    by (rule plugged_step_sd [OF p w1(2,5,4) did_heap_only [OF w1(3)]])
  then have q1: "plugged sd st ?e1 fd en2 w1" by (simp add: plugged_step_def)
  note q1' = q1 [unfolded plugged_def]
  have wf1: "world_wf w1" and i2: "is_stdout st en2 w1" using q1' by simp_all
  obtain w2 where w2: "parse_stdout_config st ini w1 = Some (UL_OK, w2)" "only_module st w1 w2" "heap_only w1 w2"
      "is_stdout st ?e2 w2" "same_shape st w1 w2"
    using parse_stdout_config_spec [OF i2 wf1, of ini] by blast
  have p2: "plugged_step sd st ?e1 fd ?e2 w1 w2"
    by (rule plugged_step_st [OF q1 w2(2,5,4) did_heap_only [OF w2(3)]])
  obtain m1 where "module_of sd w = Some m1" "mod_parse_config m1 = Some Parse_sd_socket_config"
    using i1 by (auto simp: is_sd_socket_def sd_socket_module_def)
  moreover obtain m2 where "module_of st w1 = Some m2" "mod_parse_config m2 = Some Parse_stdout_config"
    using i2 by (auto simp: is_stdout_def stdout_module_def)
  ultimately have "walk (parse_config_step (dispatch P) ini) [sd, st] w = Some (UL_OK, w2)"
    using w1(1) w2(1) by (simp add: parse_config_step_def dispatch_def)
  moreover have "parse_config (dispatch P) ini w = walk (parse_config_step (dispatch P) ini) [sd, st] w"
    unfolding parse_config_def by (rule config.loop_is_walk) (use plugged_ready [OF p] in \<open>simp_all add: modules_ready_def\<close>)
  ultimately show ?thesis
    using plugged_step_trans [OF p1 p2] heap_only_frame(2) [OF w1(3)] heap_only_frame(2) [OF w2(3)] by auto
qed

lemma initialize_modules_spec:
  assumes p: "plugged sd st en1 fd en2 w" and P: "names_ok P"
    and n: "os_listen_fds P (ext w) = ((n, names), x)" and pos: "en1 \<Longrightarrow> 0 \<le> n"
  shows "\<exists>w'. initialize_modules (dispatch P) w = Some (sd_socket_init_err en1 n, w') \<and>
    plugged_step sd st en1 (if en1 \<and> n = 1 then SD_LISTEN_FDS_START else fd) en2 w w' \<and> ext w' = x"
proof -
  note q = p [unfolded plugged_def]
  have wf: "world_wf w" and i1: "is_sd_socket sd en1 fd w" using q by simp_all
  let ?fd = "if en1 \<and> n = 1 then SD_LISTEN_FDS_START else fd"
  obtain w1 where w1: "sd_socket_init P sd w = Some (sd_socket_init_err en1 n, w1)" "only_module sd w w1"
      "did [] w w1" "is_sd_socket sd en1 ?fd w1" "same_shape sd w w1" "ext w1 = x"
    using sd_socket_init_spec [OF i1 P wf n pos] by blast
  have p1: "plugged_step sd st en1 ?fd en2 w w1" by (rule plugged_step_sd [OF p w1(2,5,4,3)])
  then have "is_stdout st en2 w1" by (simp add: plugged_step_def plugged_def)
  then obtain m2 where "module_of st w1 = Some m2" "mod_init m2 = None"
    by (auto simp: is_stdout_def stdout_module_def)
  moreover obtain m1 where "module_of sd w = Some m1" "mod_init m1 = Some Sd_socket_init"
    using i1 by (auto simp: is_sd_socket_def sd_socket_module_def)
  ultimately have "walk (init_step (dispatch P)) [sd, st] w = Some (sd_socket_init_err en1 n, w1)"
    using w1(1) by (auto simp: init_step_def dispatch_def)
  moreover have "initialize_modules (dispatch P) w = walk (init_step (dispatch P)) [sd, st] w"
    by (rule initialize_modules_walk) (use plugged_ready [OF p] in \<open>simp add: modules_ready_def\<close>)
  ultimately show ?thesis using p1 w1(6) by auto
qed

text \<open>When systemd reports an error to an enabled module, the behaviour is undefined.\<close>

lemma initialize_modules_error:
  assumes p: "plugged sd st True fd en2 w" and P: "names_ok P"
    and n: "os_listen_fds P (ext w) = ((n, names), x)" "n < 0"
  shows "initialize_modules (dispatch P) w = None"
proof -
  have i: "is_sd_socket sd True fd w" using p by (simp add: plugged_def)
  then obtain m where "module_of sd w = Some m" "mod_init m = Some Sd_socket_init"
    by (auto simp: is_sd_socket_def sd_socket_module_def)
  then have "walk (init_step (dispatch P)) [sd, st] w = None"
    using sd_socket_init_error [OF i n(1) P n(2)] by (simp add: init_step_def dispatch_def)
  moreover have "initialize_modules (dispatch P) w = walk (init_step (dispatch P)) [sd, st] w"
    by (rule initialize_modules_walk) (use plugged_ready [OF p] in \<open>simp add: modules_ready_def\<close>)
  ultimately show ?thesis by simp
qed

lemma freed_empty [simp]: "freed {} w = w"
  by (simp add: freed_def)

lemma walk_cleanup:
  "modules_inv mps w \<Longrightarrow>
   walk (cleanup_step (dispatch P)) mps w = Some (UL_OK, freed (\<Union>mp \<in> set mps. owned mp w) w)"
proof (induction mps arbitrary: w)
  case (Cons mp mps)
  then have ok: "module_ok mp w" and wf: "world_wf w" by (simp_all add: modules_inv_def)
  then obtain m where m: "module_of mp w = Some m" by (auto simp: module_ok_def is_stdout_def is_sd_socket_def)
  let ?w = "freed (owned mp w) w"
  have inv: "modules_inv mps ?w" by (rule modules_inv_only [OF Cons.prems only_module_freed [OF wf]])
  have "owned q ?w = owned q w" if "q \<in> set mps" for q
  proof -
    have "module_ok q w" "owned mp w \<inter> owned q w = {}"
      using Cons.prems that by (auto simp: modules_inv_def list_all_iff)
    then have "b \<in> owned q w \<Longrightarrow> heap ?w b = heap w b" for b by auto
    then show ?thesis using module_ok_cong [of q w ?w] \<open>module_ok q w\<close> by blast
  qed
  then have "(\<Union>q \<in> set mps. owned q ?w) = (\<Union>q \<in> set mps. owned q w)" by (rule SUP_cong [OF refl])
  then show ?case using m cleanup_step_spec [OF ok m, of P] Cons.IH [OF inv] by (simp add: Un_commute)
qed simp

lemma cleanup_modules_spec:
  assumes tab: "table mps w" "g_modules w = Ptr b" "mps \<noteq> []" and inv: "modules_inv mps w"
  shows "cleanup_modules (dispatch P) w =
    Some (UL_OK, (freed (insert b (\<Union>mp \<in> set mps. owned mp w)) w)\<lparr>g_modules := NULL, g_module_count := 0\<rparr>)"
proof -
  let ?O = "\<Union>mp \<in> set mps. owned mp w"
  have b: "heap w b = Some (Ptr_array (map Some mps))"
    using tab by (auto simp: table_def ptr_array_of_def deref_def split: option.splits obj.splits)
  have "b \<notin> ?O" using b inv owned_obj(2) by (fastforce simp: modules_inv_def list_all_iff)
  then have "free (Ptr b) (freed ?O w) = Some (freed (insert b ?O) w)"
    using b by (simp add: free_def freed_def fun_eq_iff)
  moreover have "module_loop (cleanup_step (dispatch P)) 0 w = Some (UL_OK, freed ?O w)"
    using cleanup.loop_is_walk [OF tab(1) inv] walk_cleanup [OF inv] by simp
  ultimately show ?thesis using tab by (simp add: cleanup_modules_def)
qed

lemma free_child_parsers_spec:
  assumes "registry mps kids w"
  shows "free_child_parsers w =
    Some ((freed (blocks_of (g_sub_parsers w) \<union> blocks_of (g_sub_parser_inputs w)) w)\<lparr>g_sub_parser_count := 0\<rparr>)"
proof -
  note r = assms [unfolded registry_def]
  have a: "array (g_sub_parsers w) (parser_entries kids) w" "array (g_sub_parser_inputs w) (map (Some \<circ> snd) kids) w"
    "blocks_of (g_sub_parsers w) \<inter> blocks_of (g_sub_parser_inputs w) = {}" using r by blast+
  have i: "array (g_sub_parser_inputs w) (map (Some \<circ> snd) kids) (freed (blocks_of (g_sub_parsers w)) w)"
    by (rule array_cong [OF a(2)]) (use a(3) in auto)
  show ?thesis
    using array_free [OF a(1)] array_free [OF i] by (simp add: free_child_parsers_def Un_commute)
qed

text \<open>At the end nothing of the modules and of the registry is left.\<close>

lemma modules_torn_down:
  assumes p: "plugged sd st en1 fd en2 w"
  obtains w1 w2 where "free_child_parsers w = Some w1" "cleanup_modules (dispatch P) w1 = Some (UL_OK, w2)"
    "heap w2 = heap (freed (program_blocks sd st w) w)" "actions w2 = actions w" "ext w2 = ext w"
proof -
  note q = p [unfolded plugged_def]
  have reg: "registry [sd, st] (parsers_of sd st w) w" using q by simp
  let ?F = "blocks_of (g_sub_parsers w) \<union> blocks_of (g_sub_parser_inputs w)"
  let ?w1 = "(freed ?F w)\<lparr>g_sub_parser_count := 0\<rparr>"
  note r = reg [unfolded registry_def]
  have dis: "blocks_of (g_modules w) \<inter> ?F = {}" using r by blast
  have out: "heap ?w1 c = heap w c" if "c \<in> owned sd w \<or> c \<in> owned st w" for c
  proof -
    have "c \<notin> registry_blocks w"
      using that registry_block_array [OF reg] owned_obj(2) module_okI q by metis
    then show ?thesis by (simp add: registry_blocks_def)
  qed
  have sd: "is_sd_socket sd en1 fd ?w1 \<and> owned sd ?w1 = owned sd w \<and> argp_ptr sd ?w1 = argp_ptr sd w"
    by (rule is_sd_socket_cong) (use q out in blast)+
  have st: "is_stdout st en2 ?w1 \<and> owned st ?w1 = owned st w \<and> argp_ptr st ?w1 = argp_ptr st w"
    by (rule is_stdout_cong) (use q out in blast)+
  have wf: "world_wf ?w1" using q by (simp add: world_wf_def)
  have inv: "modules_inv [sd, st] ?w1"
    using sd st wf owned_disjoint [of sd en1 fd w st en2] q by (auto simp: modules_inv_def module_okI)
  obtain b where b: "g_modules w = Ptr b" "heap w b = Some (Ptr_array (map Some [sd, st]))"
    using r by (auto simp: array_def)
  have tab: "table [sd, st] ?w1"
    using r b dis by (auto simp: table_def ptr_array_of_def deref_def)
  have c: "cleanup_modules (dispatch P) ?w1 =
      Some (UL_OK, (freed (insert b (owned sd w \<union> owned st w)) ?w1)\<lparr>g_modules := NULL, g_module_count := 0\<rparr>)"
    using cleanup_modules_spec [OF tab _ _ inv, of b P] sd st b by simp
  let ?w2 = "(freed (insert b (owned sd w \<union> owned st w)) ?w1)\<lparr>g_modules := NULL, g_module_count := 0\<rparr>"
  show ?thesis
  proof (rule that [OF free_child_parsers_spec [OF reg] c])
    show "heap ?w2 = heap (freed (program_blocks sd st w) w)"
      using b by (auto simp: fun_eq_iff program_blocks_def registry_blocks_def)
  qed (simp_all add: freed_def actions_def)
qed

end
