(* ===== verification/Settings.thy ===== *)
theory Settings
  imports Registry
begin

text \<open>
  What \<^verbatim>\<open>src/cli.c\<close> does to the settings: the record \<open>settings\<close> is what a \<^verbatim>\<open>struct arguments\<close> means, \<open>settings_at\<close> ties
  the two together and says which blocks the structure owns. The locale \<open>settings_member\<close> is the contract of
  a member that is a string, interpreted for the five of them; the locale \<open>layering\<close> holds the laws of
  overriding one layer of settings by another. The specifications say that the parser, the configuration file and
  the merging implement \<open>told\<close>, \<open>config_settings\<close> and \<open>override\<close>, and what they allocate and free.
\<close>

section \<open>Settings\<close>

text \<open>The members of \<^verbatim>\<open>struct arguments\<close> that are strings.\<close>

datatype member = Config | Key | Host | Secret | User

lemma UNIV_member: "UNIV = {Config, Key, Host, Secret, User}"
  using member.exhaust by blast

fun get_member :: "member \<Rightarrow> arguments \<Rightarrow> ptr" where
  "get_member Config a = arg_config_file a"
| "get_member Key a = arg_key_handle a"
| "get_member Host a = arg_host a"
| "get_member Secret a = arg_secret a"
| "get_member User a = arg_username a"

fun set_member :: "member \<Rightarrow> ptr \<Rightarrow> arguments \<Rightarrow> arguments" where
  "set_member Config p a = a\<lparr>arg_config_file := p\<rparr>"
| "set_member Key p a = a\<lparr>arg_key_handle := p\<rparr>"
| "set_member Host p a = a\<lparr>arg_host := p\<rparr>"
| "set_member Secret p a = a\<lparr>arg_secret := p\<rparr>"
| "set_member User p a = a\<lparr>arg_username := p\<rparr>"

lemma get_set_member [simp]: "get_member m (set_member n p a) = (if m = n then p else get_member m a)"
  by (cases m; cases n) simp_all

lemma set_member_rest [simp]:
  "arg_port (set_member m p a) = arg_port a" "arg_validate (set_member m p a) = arg_validate a"
  "arg_verbose (set_member m p a) = arg_verbose a"
  by (cases m; simp)+

lemma get_member_rest [simp]:
  "get_member m (a\<lparr>arg_port := i\<rparr>) = get_member m a" "get_member m (a\<lparr>arg_validate := v\<rparr>) = get_member m a"
  "get_member m (a\<lparr>arg_verbose := v\<rparr>) = get_member m a"
  by (cases m; simp)+

text \<open>The settings the code means: texts instead of pointers.\<close>

record settings =
  texts :: "member \<Rightarrow> string option"
  port :: int
  validate :: tristate
  verbose :: tristate

definition no_settings :: settings where
  "no_settings = \<lparr>texts = (\<lambda>_. None), port = 0, validate = Unset, verbose = Unset\<rparr>"

text \<open>A later layer overrides an earlier one where it says something.\<close>

definition override :: "settings \<Rightarrow> settings \<Rightarrow> settings" where
  "override c d =
     \<lparr>texts = texts c ++ texts d, port = (if port d = 0 then port c else port d),
      validate = (if validate d = Unset then validate c else validate d),
      verbose = (if verbose d = Unset then verbose c else verbose d)\<rparr>"

locale layering =
  fixes over :: "'s \<Rightarrow> 's \<Rightarrow> 's" and nothing :: 's
  assumes over_assoc: "over (over a b) c = over a (over b c)"
    and over_nothing: "over a nothing = a"
    and nothing_over: "over nothing a = a"
    and over_over: "over (over a b) b = over a b"
begin

text \<open>Layers from the weakest to the strongest.\<close>

lemma layers: "foldl over a (bs @ [b]) = over (foldl over a bs) b"
  by simp

lemma layers_assoc: "foldl over a bs = over a (foldl over nothing bs)"
proof (induction bs arbitrary: a)
  case (Cons b bs)
  show ?case using Cons [of "over a b"] Cons [of b] by (simp add: nothing_over over_assoc)
qed (simp add: over_nothing)

lemma merging_twice: "over (over (over a b) c) c = over (over a b) c"
  by (rule over_over)

end

interpretation layers: layering override no_settings
  by unfold_locales
    (auto simp: override_def no_settings_def map_add_def fun_eq_iff split: option.splits)

section \<open>Where the settings are\<close>

definition text_at :: "ptr \<Rightarrow> string option \<Rightarrow> 'e world \<Rightarrow> bool" where
  "text_at p v w \<longleftrightarrow>
     (case v of None \<Rightarrow> p = NULL
      | Some s \<Rightarrow> \<exists>b. p = Ptr b \<and> heap w b = Some (str_obj s) \<and> NUL \<notin> set s \<and> length s < ptrdiff_max)"

definition own_strings :: "arguments \<Rightarrow> bool" where
  "own_strings a \<longleftrightarrow> (\<forall>m n. m \<noteq> n \<longrightarrow> get_member m a = NULL \<or> get_member m a \<noteq> get_member n a)"

definition string_blocks :: "arguments \<Rightarrow> nat set" where
  "string_blocks a = (\<Union>m. blocks_of (get_member m a))"

text \<open>
  The structure at \<open>args\<close> holds the settings \<open>c\<close>, and \<open>B\<close> are its blocks: the structure and its strings, each of
  which belongs to one member.
\<close>

definition settings_at :: "ptr \<Rightarrow> settings \<Rightarrow> nat set \<Rightarrow> 'e world \<Rightarrow> bool" where
  "settings_at args c B w \<longleftrightarrow>
     (\<exists>p a. args = Ptr p \<and> heap w p = Some (Arguments a) \<and> (\<forall>m. text_at (get_member m a) (texts c m) w) \<and>
        own_strings a \<and> B = insert p (string_blocks a) \<and>
        port c = arg_port a \<and> validate c = arg_validate a \<and> verbose c = arg_verbose a)"

lemma text_at_blocks: "text_at p v w \<Longrightarrow> b \<in> blocks_of p \<Longrightarrow> \<exists>s. v = Some s \<and> heap w b = Some (str_obj s)"
  by (auto simp: text_at_def split: option.splits)

lemma text_at_cong: "text_at p v w \<Longrightarrow> (\<And>b. b \<in> blocks_of p \<Longrightarrow> heap w' b = heap w b) \<Longrightarrow> text_at p v w'"
  by (auto simp: text_at_def split: option.splits)

lemma text_at_cstr: "text_at p (Some s) w \<Longrightarrow> cstr p w = Some s"
  by (auto simp: text_at_def)

lemma settings_atE:
  assumes "settings_at args c B w"
  obtains p a where "args = Ptr p" "heap w p = Some (Arguments a)" "arguments_of args w = Some a"
    "\<And>m. text_at (get_member m a) (texts c m) w" "own_strings a" "B = insert p (string_blocks a)"
    "p \<notin> string_blocks a" "port c = arg_port a" "validate c = arg_validate a" "verbose c = arg_verbose a"
proof -
  from assms obtain p a where a: "args = Ptr p" "heap w p = Some (Arguments a)"
    "\<And>m. text_at (get_member m a) (texts c m) w" "own_strings a" "B = insert p (string_blocks a)"
    "port c = arg_port a" "validate c = arg_validate a" "verbose c = arg_verbose a"
    by (auto simp: settings_at_def)
  moreover have "p \<notin> string_blocks a"
    using a(2,3) text_at_blocks by (fastforce simp: string_blocks_def)
  moreover have "arguments_of args w = Some a" using a by (simp add: arguments_of_def deref_def)
  ultimately show ?thesis using that by blast
qed

lemma settings_at_cong:
  assumes "settings_at args c B w" "\<And>b. b \<in> B \<Longrightarrow> heap w' b = heap w b"
  shows "settings_at args c B w'"
  using assms(1)
proof (cases rule: settings_atE)
  case (1 p a)
  have "text_at (get_member m a) (texts c m) w'" for m
    by (rule text_at_cong [OF 1(4)]) (use 1 assms(2) in \<open>auto simp: string_blocks_def\<close>)
  moreover have "heap w' p = Some (Arguments a)" using 1 assms(2) by simp
  ultimately show ?thesis using 1 by (auto simp: settings_at_def)
qed

lemma settings_block:
  assumes "settings_at args c B w" "b \<in> B"
  shows "\<exists>x. heap w b = Some x \<and> \<not> is_solid x"
  using assms(1)
proof (cases rule: settings_atE)
  case (1 p a)
  show ?thesis
  proof (cases "b = p")
    case False
    then obtain m where "b \<in> blocks_of (get_member m a)" using assms(2) 1 by (auto simp: string_blocks_def)
    from text_at_blocks [OF 1(4) this] show ?thesis by auto
  qed (use 1 in simp)
qed

lemma settings_moved:
  assumes "settings_at args c X w" "moved B B' w w'" "X \<inter> B = {}"
  shows "settings_at args c X w'"
proof (rule settings_at_cong [OF assms(1)])
  fix b assume "b \<in> X"
  then show "heap w' b = heap w b"
    using settings_block [OF assms(1)] moved_keeps [OF assms(2)] assms(3) by fastforce
qed

text \<open>Making and freeing.\<close>

lemma create_args_spec:
  assumes wf: "world_wf w" and mem: "alloc_ok w (brk w)"
  shows "\<exists>w'. create_args w = Some (Ptr (brk w), w') \<and> settings_at (Ptr (brk w)) no_settings {brk w} w' \<and>
    moved {} {brk w} w w' \<and> heap_only w w'"
proof -
  let ?w' = "w\<lparr>brk := Suc (brk w), heap := (heap w)(brk w \<mapsto> Arguments zero_arguments)\<rparr>"
  have "create_args w = Some (Ptr (brk w), ?w')" using mem by (simp add: create_args_def new_block_def)
  moreover have z: "get_member m zero_arguments = NULL" for m by (cases m) (simp_all add: zero_arguments_def)
  then have "settings_at (Ptr (brk w)) no_settings {brk w} ?w'"
    by (simp add: settings_at_def no_settings_def text_at_def own_strings_def string_blocks_def)
      (simp add: zero_arguments_def)
  moreover have "moved {} {brk w} w ?w'" using wf by (auto simp: moved_def world_wf_def)
  ultimately show ?thesis by (auto simp: heap_only_def)
qed

lemma free_field_text:
  assumes "text_at p v w"
  shows "free_field p w = Some (freed (blocks_of p) w)"
  using assms by (auto simp: text_at_def free_field_def free_def freed_def fun_eq_iff split: option.splits)

lemma free_args_spec:
  assumes "settings_at args c B w"
  shows "free_args args w = Some (freed B w)"
  using assms
proof (cases rule: settings_atE)
  case (1 p a)
  let ?b = "\<lambda>S. \<Union>m \<in> S. blocks_of (get_member m a)"
  have step: "free_field (get_member m a) (freed (?b S) w) = Some (freed (?b (insert m S)) w)" if "m \<notin> S" for m S
  proof -
    have "blocks_of (get_member m a) \<inter> ?b S = {}"
    proof -
      have "blocks_of (get_member m a) \<inter> blocks_of (get_member n a) = {}" if "m \<noteq> n" for n
        using 1(5) \<open>m \<noteq> n\<close> by (cases "get_member m a"; cases "get_member n a") (fastforce simp: own_strings_def)+
      then show ?thesis using \<open>m \<notin> S\<close> by fast
    qed
    then have "text_at (get_member m a) (texts c m) (freed (?b S) w)"
      by (intro text_at_cong [OF 1(4)]) auto
    then show ?thesis by (simp add: free_field_text)
  qed
  define F where "F S = freed (?b S) w" for S
  have steps: "free_field (arg_config_file a) w = Some (F {Config})"
    "free_field (arg_key_handle a) (F {Config}) = Some (F {Key, Config})"
    "free_field (arg_host a) (F {Key, Config}) = Some (F {Host, Key, Config})"
    "free_field (arg_secret a) (F {Host, Key, Config}) = Some (F {Secret, Host, Key, Config})"
    "free_field (arg_username a) (F {Secret, Host, Key, Config}) = Some (F {User, Secret, Host, Key, Config})"
    using step [of Config "{}"] step [of Key "{Config}"] step [of Host "{Key, Config}"]
      step [of Secret "{Host, Key, Config}"] step [of User "{Secret, Host, Key, Config}"]
    by (simp_all only: F_def get_member.simps insert_iff empty_iff member.distinct not_False_eq_True
        UN_empty freed_empty simp_thms)
  have all: "{User, Secret, Host, Key, Config} = UNIV" using UNIV_member by blast
  have "free (Ptr p) (freed (string_blocks a) w) = Some (freed B w)"
    using 1(2,6,7) by (auto simp: free_def freed_def fun_eq_iff)
  then show ?thesis
    using 1(1,3) by (simp add: free_args_def steps) (simp add: all F_def string_blocks_def)
qed

section \<open>Writing one string\<close>

lemma string_blocks_set:
  assumes "own_strings a"
  shows "string_blocks (set_member m (Ptr q) a) = insert q (string_blocks a - blocks_of (get_member m a))"
proof -
  have "blocks_of (get_member n a) \<inter> blocks_of (get_member m a) = {}" if "n \<noteq> m" for n
    using assms that by (cases "get_member n a"; cases "get_member m a") (fastforce simp: own_strings_def)+
  then show ?thesis unfolding string_blocks_def get_set_member
    by (auto split: if_splits) blast
qed

lemma own_strings_set:
  assumes "own_strings a" "q \<notin> string_blocks a"
  shows "own_strings (set_member m (Ptr q) a)"
proof -
  have q: "get_member n a \<noteq> Ptr q" for n
  proof
    assume "get_member n a = Ptr q"
    then have "q \<in> blocks_of (get_member n a)" by simp
    then show False using assms(2) by (auto simp: string_blocks_def)
  qed
  show ?thesis
    using assms(1) q q [symmetric] unfolding own_strings_def get_set_member by (auto split: if_splits)
qed

lemma write_member:
  assumes at: "settings_at args c B w" "args = Ptr p" "heap w p = Some (Arguments a)"
    and q: "q \<notin> B" "heap w' q = Some (str_obj s)" "NUL \<notin> set s" "length s < ptrdiff_max"
    and p: "heap w' p = Some (Arguments (set_member m (Ptr q) a))"
    and rest: "\<And>b. b \<in> B \<Longrightarrow> b \<noteq> p \<Longrightarrow> b \<notin> blocks_of (get_member m a) \<Longrightarrow> heap w' b = heap w b"
  shows "settings_at args (c\<lparr>texts := (texts c)(m \<mapsto> s)\<rparr>) (insert q (B - blocks_of (get_member m a))) w'"
  using at(1)
proof (cases rule: settings_atE)
  case (1 p' a')
  then have eq: "p' = p" "a' = a" using at(2,3) by auto
  note facts = 1 [unfolded eq]
  have "text_at (get_member n (set_member m (Ptr q) a)) (((texts c)(m \<mapsto> s)) n) w'" for n
  proof (cases "n = m")
    case False
    have dis: "blocks_of (get_member n a) \<inter> blocks_of (get_member m a) = {}"
      using facts(5) False by (cases "get_member n a"; cases "get_member m a") (fastforce simp: own_strings_def)+
    have "heap w' b = heap w b" if "b \<in> blocks_of (get_member n a)" for b
    proof (rule rest)
      show "b \<in> B" "b \<noteq> p" using that facts(6,7) by (auto simp: string_blocks_def)
      show "b \<notin> blocks_of (get_member m a)" using that dis by blast
    qed
    then show ?thesis using False facts(4) by (auto intro: text_at_cong)
  qed (use q in \<open>simp add: text_at_def\<close>)
  moreover have "own_strings (set_member m (Ptr q) a)"
    by (rule own_strings_set) (use facts(5,6) q in auto)
  moreover have "p \<notin> blocks_of (get_member m a)" using facts(7) by (auto simp: string_blocks_def)
  ultimately show ?thesis
    using p facts string_blocks_set [OF facts(5), of m q] at(2) by (auto simp: settings_at_def)
qed

lemma strdup_fresh:
  assumes "cstr p w = Some s" "length s < ptrdiff_max" "alloc_ok w (brk w)"
  shows "strdup p w = Some (Ptr (brk w), w\<lparr>brk := Suc (brk w), heap := (heap w)(brk w \<mapsto> str_obj s)\<rparr>)"
  using strdup_eq [OF assms(1,2)] assms(3) by (simp add: alloc_str_def)

text \<open>
  Blocks nothing points to any more, with the texts that are still in them. They stay as they are, as long as
  nobody frees them.
\<close>

definition lost :: "nat list \<Rightarrow> string list \<Rightarrow> 'e world \<Rightarrow> bool" where
  "lost bs ts w \<longleftrightarrow> distinct bs \<and> list_all2 (\<lambda>b t. heap w b = Some (str_obj t)) bs ts"

lemma lost_simps [simp]:
  "lost [] ts w \<longleftrightarrow> ts = []"
  "lost (b # bs) (t # ts) w \<longleftrightarrow> b \<notin> set bs \<and> heap w b = Some (str_obj t) \<and> lost bs ts w"
  "lost (b # bs) [] w \<longleftrightarrow> False"
  by (auto simp: lost_def)

lemma lost_block: "lost bs ts w \<Longrightarrow> b \<in> set bs \<Longrightarrow> \<exists>t. heap w b = Some (str_obj t)"
  by (fastforce simp: lost_def in_set_conv_nth list_all2_conv_all_nth)

lemma lost_append:
  "lost bs ts w \<Longrightarrow> lost cs us w \<Longrightarrow> set bs \<inter> set cs = {} \<Longrightarrow> lost (bs @ cs) (ts @ us) w"
  by (auto simp: lost_def intro: list_all2_appendI)

lemma lost_cong: "lost bs ts w \<Longrightarrow> (\<And>b. b \<in> set bs \<Longrightarrow> heap w' b = heap w b) \<Longrightarrow> lost bs ts w'"
  unfolding lost_def by (auto simp: list_all2_conv_all_nth)

lemma lost_frame:
  assumes "lost bs ts w" "moved B B' w w'" "set bs \<inter> B = {}"
  shows "lost bs ts w'" "set bs \<inter> B' = {}"
proof -
  have no: "b \<notin> B'" if "b \<in> set bs" for b
    using lost_block [OF assms(1) that] movedD(3) [OF assms(2), of b] assms(3) that by fastforce
  then show "set bs \<inter> B' = {}" by blast
  show "lost bs ts w'"
    by (rule lost_cong [OF assms(1)]) (use no assms(3) movedD(5) [OF assms(2)] in blast)
qed

text \<open>The text an option replaces.\<close>

definition old_text :: "member \<Rightarrow> settings \<Rightarrow> string list" where
  "old_text m c = (case texts c m of None \<Rightarrow> [] | Some t \<Rightarrow> [t])"

text \<open>
  What the three writers do. \<open>wrote m s c B w c' B' w'\<close>: the member \<open>m\<close> has the text \<open>s\<close>, in a block that was free;
  nothing else has changed. \<open>gone\<close> are the blocks that were freed.
\<close>

locale settings_member =
  fixes m :: member and sel :: "arguments \<Rightarrow> ptr" and upd :: "(ptr \<Rightarrow> ptr) \<Rightarrow> arguments \<Rightarrow> arguments"
  assumes sel: "sel a = get_member m a"
    and upd: "upd (\<lambda>_. p) a = set_member m p a"
begin

lemma merge_string_spec:
  assumes base: "settings_at base c B w" and new: "settings_at new d D w" and dis: "B \<inter> D = {}"
    and wf: "world_wf w" and mem: "\<forall>n. alloc_ok w n"
  shows "\<exists>w' B'. merge_string sel upd base new w = Some w' \<and> heap_only w w' \<and> moved B B' w w' \<and>
    settings_at base (c\<lparr>texts := (texts c)(m := (case texts d m of None \<Rightarrow> texts c m | Some s \<Rightarrow> Some s))\<rparr>) B' w'"
proof -
  obtain p a where a: "base = Ptr p" "heap w p = Some (Arguments a)" "text_at (get_member m a) (texts c m) w"
      "B = insert p (string_blocks a)" "p \<notin> string_blocks a"
    using base by (rule settings_atE) blast
  obtain p' a' where a': "new = Ptr p'" "heap w p' = Some (Arguments a')" "arguments_of new w = Some a'"
      "text_at (get_member m a') (texts d m) w" "D = insert p' (string_blocks a')"
    using new by (rule settings_atE) blast
  show ?thesis
  proof (cases "texts d m")
    case None
    then have "get_member m a' = NULL" using a'(4) by (simp add: text_at_def)
    then have "merge_string sel upd base new w = Some w" using a' by (simp add: merge_string_def sel)
    moreover have "c\<lparr>texts := (texts c)(m := texts c m)\<rparr> = c" by simp
    ultimately show ?thesis using base None wf by (intro exI [of _ w] exI [of _ B]) simp
  next
    case (Some s)
    let ?old = "blocks_of (get_member m a)"
    let ?w1 = "freed ?old w" and ?q = "brk w"
    obtain b where b: "get_member m a' = Ptr b" "heap w b = Some (str_obj s)" "NUL \<notin> set s" "length s < ptrdiff_max"
      using a'(4) Some by (auto simp: text_at_def)
    have "b \<in> D" using b(1) a'(5) by (auto simp: string_blocks_def intro: exI [of _ m])
    moreover have old: "?old \<subseteq> B" using a(4) by (auto simp: string_blocks_def)
    ultimately have "cstr (Ptr b) ?w1 = Some s" using b dis by (intro cstr_str_obj) auto
    from strdup_fresh [OF this b(4)] mem have
      dup: "strdup (Ptr b) ?w1 = Some (Ptr ?q, ?w1\<lparr>brk := Suc ?q, heap := (heap ?w1)(?q \<mapsto> str_obj s)\<rparr>)" by simp
    let ?w2 = "?w1\<lparr>brk := Suc ?q, heap := (heap ?w1)(?q \<mapsto> str_obj s)\<rparr>"
    have p: "p \<noteq> ?q" "p \<notin> ?old" using a(2,5) wf by (auto simp: string_blocks_def)
    let ?w' = "?w2\<lparr>heap := (heap ?w2)(p \<mapsto> Arguments (set_member m (Ptr ?q) a))\<rparr>"
    have "arguments_of base w = Some a" using a(1,2) by (simp add: arguments_of_def deref_def)
    then have run: "merge_string sel upd base new w = Some ?w'"
      using a'(3) b(1) a(1,2) p free_field_text [OF a(3)] dup by (simp add: merge_string_def sel upd)
    have qB: "?q \<notin> B" using settings_block [OF base] wf by fastforce
    have "settings_at base (c\<lparr>texts := (texts c)(m \<mapsto> s)\<rparr>) (insert ?q (B - ?old)) ?w'"
    proof (rule write_member [OF base a(1,2) qB])
      fix b assume "b \<in> B" "b \<noteq> p" "b \<notin> ?old"
      then show "heap ?w' b = heap w b" using qB by auto
    qed (use b p in auto)
    moreover have "moved B (insert ?q (B - ?old)) w ?w'"
      using wf a(4) old p world_wf_less [OF wf a(2)] by (auto simp: moved_def world_wf_def)
    moreover have "heap_only w ?w'" by (simp add: heap_only_def freed_def)
    ultimately show ?thesis using run Some by auto
  qed
qed

text \<open>
  The parser and the configuration file write a string without freeing an earlier one, which is lost then.
\<close>

lemma copy_spec:
  assumes at: "settings_at args c B w" and s: "NUL \<notin> set s" "length s < ptrdiff_max"
    and wf: "world_wf w" and mem: "\<forall>n. alloc_ok w n"
  shows "\<exists>w' B' bs. set_string upd (Lit s) args w = Some (Inr 0, w') \<and>
    config_string upd (Some s) args w = Some (False, w') \<and> heap_only w w' \<and> moved B (B' \<union> set bs) w w' \<and>
    settings_at args (c\<lparr>texts := (texts c)(m \<mapsto> s)\<rparr>) B' w' \<and> lost bs (old_text m c) w' \<and> set bs \<subseteq> B - B'"
proof -
  obtain p a where a: "args = Ptr p" "heap w p = Some (Arguments a)" "text_at (get_member m a) (texts c m) w"
      "B = insert p (string_blocks a)" "p \<notin> string_blocks a"
    using at by (rule settings_atE) blast
  let ?q = "brk w" and ?old = "blocks_of (get_member m a)"
  let ?w1 = "w\<lparr>brk := Suc ?q, heap := (heap w)(?q \<mapsto> str_obj s)\<rparr>"
  have dup: "strdup (Lit s) w = Some (Ptr ?q, ?w1)"
    by (rule strdup_fresh) (use s mem in auto)
  have p: "p \<noteq> ?q" using a(2) wf by auto
  let ?w' = "?w1\<lparr>heap := (heap ?w1)(p \<mapsto> Arguments (set_member m (Ptr ?q) a))\<rparr>"
  have "arguments_of args ?w1 = Some a" using a(1,2) p by (simp add: arguments_of_def deref_def)
  then have run: "set_string upd (Lit s) args w = Some (Inr 0, ?w')"
      "config_string upd (Some s) args w = Some (False, ?w')"
    using a(1,2) p dup by (simp_all add: set_string_def config_string_def upd)
  have qB: "?q \<notin> B" using settings_block [OF at] wf by fastforce
  have old: "?old \<subseteq> B" "p \<notin> ?old" using a(4,5) by (auto simp: string_blocks_def)
  have "settings_at args (c\<lparr>texts := (texts c)(m \<mapsto> s)\<rparr>) (insert ?q (B - ?old)) ?w'"
    by (rule write_member [OF at a(1,2) qB]) (use s p qB in auto)
  moreover have "moved B (insert ?q B) w ?w'"
    using wf a(4) world_wf_less [OF wf a(2)] by (auto simp: moved_def world_wf_def)
  moreover have "heap_only w ?w'" by (simp add: heap_only_def)
  moreover obtain bs where bs: "set bs = ?old" "lost bs (old_text m c) ?w'"
  proof (cases "texts c m")
    case None
    then show ?thesis using that [of "[]"] a(3) by (simp add: text_at_def old_text_def)
  next
    case (Some t)
    then obtain b where b: "get_member m a = Ptr b" "heap w b = Some (str_obj t)" using a(3) by (auto simp: text_at_def)
    then have "b \<noteq> ?q" "b \<noteq> p" using wf old by auto
    then show ?thesis using that [of "[b]"] b Some by (simp add: old_text_def)
  qed
  moreover have "insert ?q (B - ?old) \<union> set bs = insert ?q B" using old bs by auto
  ultimately show ?thesis using run old qB
    by (intro exI [of _ ?w'] exI [of _ "insert ?q (B - ?old)"] exI [of _ bs]) auto
qed

end

interpretation config_file: settings_member Config arg_config_file arg_config_file_update
  by unfold_locales simp_all
interpretation key_handle: settings_member Key arg_key_handle arg_key_handle_update
  by unfold_locales simp_all
interpretation host: settings_member Host arg_host arg_host_update
  by unfold_locales simp_all
interpretation secret: settings_member Secret arg_secret arg_secret_update
  by unfold_locales simp_all
interpretation username: settings_member User arg_username arg_username_update
  by unfold_locales simp_all

section \<open>Merging\<close>

lemma write_value:
  assumes at: "settings_at args c B w" "args = Ptr p" "heap w p = Some (Arguments a)"
    and a': "\<And>m. get_member m a' = get_member m a" and wf: "world_wf w"
  defines "w' \<equiv> w\<lparr>heap := (heap w)(p \<mapsto> Arguments a')\<rparr>"
  shows "settings_at args (c\<lparr>port := arg_port a', validate := arg_validate a', verbose := arg_verbose a'\<rparr>) B w' \<and>
    moved B B w w' \<and> heap_only w w'"
  using at(1)
proof (cases rule: settings_atE)
  case (1 p' b)
  then have eq: "p' = p" "b = a" using at(2,3) by auto
  note facts = 1 [unfolded eq]
  have "text_at (get_member m a') (texts c m) w'" for m
    unfolding a' by (rule text_at_cong [OF facts(4)]) (use facts(7) in \<open>auto simp: string_blocks_def w'_def\<close>)
  moreover have "own_strings a'" "string_blocks a' = string_blocks a"
    using facts(5) by (simp_all add: own_strings_def string_blocks_def a')
  moreover have "moved B B w w'"
    using wf facts world_wf_less [OF wf facts(2)] by (auto simp: moved_def w'_def world_wf_def)
  ultimately show ?thesis
    using facts at(2) by (auto simp: settings_at_def w'_def heap_only_def)
qed

definition merging ::
  "ptr \<Rightarrow> settings \<Rightarrow> nat set \<Rightarrow> ptr \<Rightarrow> settings \<Rightarrow> nat set \<Rightarrow> 'e world \<Rightarrow> bool" where
  "merging base c B new d D w \<longleftrightarrow>
     settings_at base c B w \<and> settings_at new d D w \<and> B \<inter> D = {} \<and> world_wf w \<and> (\<forall>n. alloc_ok w n)"

lemma merging_step:
  assumes "merging base c B new d D w" "settings_at base c' B' w'" "moved B B' w w'"
  shows "merging base c' B' new d D w'"
proof -
  have D: "settings_at new d D w" "B \<inter> D = {}" using assms(1) by (simp_all add: merging_def)
  have "B' \<inter> D = {}"
    using settings_block [OF D(1)] movedD(3) [OF assms(3)] D(2) by fastforce
  moreover have "settings_at new d D w'" by (rule settings_moved [OF D(1) assms(3)]) (use D(2) in blast)
  ultimately show ?thesis
    using assms(1,2) movedD(1,2) [OF assms(3)] by (simp add: merging_def)
qed

text \<open>The steps of \<^verbatim>\<open>merge_config\<close> on the settings, one for each member.\<close>

definition put_text :: "member \<Rightarrow> settings \<Rightarrow> settings \<Rightarrow> settings" where
  "put_text m d c = c\<lparr>texts := (texts c)(m := (case texts d m of None \<Rightarrow> texts c m | Some s \<Rightarrow> Some s))\<rparr>"

definition put_port :: "settings \<Rightarrow> settings \<Rightarrow> settings" where
  "put_port d c = c\<lparr>port := (if port d = 0 then port c else port d)\<rparr>"

definition put_validate :: "settings \<Rightarrow> settings \<Rightarrow> settings" where
  "put_validate d c = c\<lparr>validate := (if validate d = Unset then validate c else validate d)\<rparr>"

definition put_verbose :: "settings \<Rightarrow> settings \<Rightarrow> settings" where
  "put_verbose d c = c\<lparr>verbose := (if verbose d = Unset then verbose c else verbose d)\<rparr>"

lemma put_simps:
  "texts (put_text m d c) n = (if n = m then (case texts d m of None \<Rightarrow> texts c m | Some s \<Rightarrow> Some s) else texts c n)"
  "texts (put_port d c) = texts c" "texts (put_validate d c) = texts c" "texts (put_verbose d c) = texts c"
  "port (put_text m d c) = port c" "port (put_port d c) = (if port d = 0 then port c else port d)"
  "port (put_validate d c) = port c" "port (put_verbose d c) = port c"
  "validate (put_text m d c) = validate c" "validate (put_port d c) = validate c"
  "validate (put_validate d c) = (if validate d = Unset then validate c else validate d)"
  "validate (put_verbose d c) = validate c"
  "verbose (put_text m d c) = verbose c" "verbose (put_port d c) = verbose c"
  "verbose (put_validate d c) = verbose c"
  "verbose (put_verbose d c) = (if verbose d = Unset then verbose c else verbose d)"
  by (simp_all add: put_text_def put_port_def put_validate_def put_verbose_def)

lemma settings_eqI:
  "(\<And>m. texts c m = texts d m) \<Longrightarrow> port c = port d \<Longrightarrow> validate c = validate d \<Longrightarrow> verbose c = verbose d \<Longrightarrow>
   c = (d :: settings)"
  by (cases c; cases d) auto

lemma override_steps:
  "override c d = put_verbose d (put_validate d (put_text User d (put_text Secret d
     (put_port d (put_text Host d (put_text Key d (put_text Config d c)))))))"
proof (rule settings_eqI)
  fix m
  show "texts (override c d) m = texts (put_verbose d (put_validate d (put_text User d (put_text Secret d
     (put_port d (put_text Host d (put_text Key d (put_text Config d c)))))))) m"
    unfolding put_simps by (cases m) (simp_all add: override_def map_add_def)
qed (simp_all add: put_simps override_def)

context settings_member
begin

lemma merge_string_step:
  assumes "merging base c B new d D w"
  obtains w' B' where "merge_string sel upd base new w = Some w'" "heap_only w w'" "moved B B' w w'"
    "merging base (put_text m d c) B' new d D w'"
  using merge_string_spec [of base c B w new d D] assms merging_step [OF assms] unfolding merging_def put_text_def
  by metis

end

lemma merge_value_step:
  assumes mg: "merging base c B new d D w"
    and lens: "\<And>v a n. get_member n (upd (\<lambda>_. v) a) = get_member n a"
    and put: "\<And>a n. port c = arg_port a \<Longrightarrow> validate c = arg_validate a \<Longrightarrow> verbose c = arg_verbose a \<Longrightarrow>
      port d = arg_port n \<Longrightarrow> validate d = arg_validate n \<Longrightarrow> verbose d = arg_verbose n \<Longrightarrow>
      c' = (if sel n = unset then c else c\<lparr>port := arg_port (upd (\<lambda>_. sel n) a),
       validate := arg_validate (upd (\<lambda>_. sel n) a), verbose := arg_verbose (upd (\<lambda>_. sel n) a)\<rparr>)"
  obtains w' where "merge_value sel upd unset base new w = Some w'" "heap_only w w'" "moved B B w w'"
    "merging base c' B new d D w'"
proof -
  have m: "settings_at base c B w" "settings_at new d D w" "world_wf w" using mg by (simp_all add: merging_def)
  obtain p a where a: "base = Ptr p" "heap w p = Some (Arguments a)" "arguments_of base w = Some a"
      "port c = arg_port a" "validate c = arg_validate a" "verbose c = arg_verbose a"
    using m(1) by (rule settings_atE) blast
  obtain n where n: "arguments_of new w = Some n" "port d = arg_port n" "validate d = arg_validate n"
      "verbose d = arg_verbose n"
    using m(2) by (rule settings_atE) blast
  note c' = put [OF a(4-6) n(2-4)]
  show ?thesis
  proof (cases "sel n = unset")
    case True
    then have "merge_value sel upd unset base new w = Some w" using n by (simp add: merge_value_def)
    then show ?thesis using that [of w] True mg m c' by simp
  next
    case False
    let ?a = "upd (\<lambda>_. sel n) a"
    let ?w' = "w\<lparr>heap := (heap w)(p \<mapsto> Arguments ?a)\<rparr>"
    have "merge_value sel upd unset base new w = Some ?w'" using n a False by (simp add: merge_value_def)
    moreover from write_value [OF m(1) a(1,2) lens m(3)]
    have w': "settings_at base (c\<lparr>port := arg_port ?a, validate := arg_validate ?a, verbose := arg_verbose ?a\<rparr>) B ?w'"
      "moved B B w ?w'" "heap_only w ?w'" by blast+
    ultimately show ?thesis
      using that [of ?w'] False merging_step [OF mg w'(1,2)] c' by simp
  qed
qed

text \<open>\<^verbatim>\<open>merge_config\<close> is the overriding of the settings.\<close>

lemma merge_config_spec:
  assumes mg: "merging base c B new d D w"
  obtains w' B' where "merge_config base new w = Some w'" "heap_only w w'" "moved B B' w w'"
    "merging base (override c d) B' new d D w'"
proof -
  obtain w1 B1 where w1: "merge_string arg_config_file arg_config_file_update base new w = Some w1" "heap_only w w1"
      "moved B B1 w w1" "merging base (put_text Config d c) B1 new d D w1"
    by (rule config_file.merge_string_step [OF mg])
  obtain w2 B2 where w2: "merge_string arg_key_handle arg_key_handle_update base new w1 = Some w2" "heap_only w1 w2"
      "moved B1 B2 w1 w2" "merging base (put_text Key d (put_text Config d c)) B2 new d D w2"
    by (rule key_handle.merge_string_step [OF w1(4)])
  let ?c3 = "put_text Host d (put_text Key d (put_text Config d c))"
  obtain w3 B3 where w3: "merge_string arg_host arg_host_update base new w2 = Some w3" "heap_only w2 w3"
      "moved B2 B3 w2 w3" "merging base ?c3 B3 new d D w3"
    by (rule host.merge_string_step [OF w2(4)])
  obtain w4 where w4: "merge_value arg_port arg_port_update 0 base new w3 = Some w4" "heap_only w3 w4"
      "moved B3 B3 w3 w4" "merging base (put_port d ?c3) B3 new d D w4"
    by (rule merge_value_step [OF w3(4), of arg_port_update "put_port d ?c3" arg_port 0])
      (auto simp: put_port_def intro: settings_eqI)
  obtain w5 B5 where w5: "merge_string arg_secret arg_secret_update base new w4 = Some w5" "heap_only w4 w5"
      "moved B3 B5 w4 w5" "merging base (put_text Secret d (put_port d ?c3)) B5 new d D w5"
    by (rule secret.merge_string_step [OF w4(4)])
  let ?c6 = "put_text User d (put_text Secret d (put_port d ?c3))"
  obtain w6 B6 where w6: "merge_string arg_username arg_username_update base new w5 = Some w6" "heap_only w5 w6"
      "moved B5 B6 w5 w6" "merging base ?c6 B6 new d D w6"
    by (rule username.merge_string_step [OF w5(4)])
  obtain w7 where w7: "merge_value arg_validate arg_validate_update Unset base new w6 = Some w7" "heap_only w6 w7"
      "moved B6 B6 w6 w7" "merging base (put_validate d ?c6) B6 new d D w7"
    by (rule merge_value_step [OF w6(4), of arg_validate_update "put_validate d ?c6" arg_validate Unset])
      (auto simp: put_validate_def intro: settings_eqI)
  obtain w8 where w8: "merge_value arg_verbose arg_verbose_update Unset base new w7 = Some w8" "heap_only w7 w8"
      "moved B6 B6 w7 w8" "merging base (put_verbose d (put_validate d ?c6)) B6 new d D w8"
    by (rule merge_value_step [OF w7(4), of arg_verbose_update "put_verbose d (put_validate d ?c6)" arg_verbose Unset])
      (auto simp: put_verbose_def intro: settings_eqI)
  have "merge_config base new w = Some w8"
    by (simp add: merge_config_def w1(1) w2(1) w3(1) w4(1) w5(1) w6(1) w7(1) w8(1))
  moreover have "heap_only w w8"
    using w1(2) w2(2) w3(2) w4(2) w5(2) w6(2) w7(2) w8(2) by (meson heap_only_trans)
  moreover have "moved B B6 w w8"
    using w1(3) w2(3) w3(3) w4(3) w5(3) w6(3) w7(3) w8(3) by (meson moved_trans)
  ultimately show ?thesis using that w8(4) unfolding override_steps by blast
qed

end
