(* ===== verification/Command_Line.thy ===== *)
theory Command_Line
  imports Settings
begin

text \<open>
  From the command line to the settings of a run: what argp hands to the parsers of \<^verbatim>\<open>src/cli.c\<close>, the
  configuration file, and the merging of the three layers by \<^verbatim>\<open>handle_args\<close>; and what becomes of the memory. An
  option that is given again replaces a text without freeing it: \<open>lost\<close> keeps account of these blocks.
\<close>

section \<open>The command line\<close>

text \<open>What an option means.\<close>

definition member_of :: "int \<Rightarrow> member option" where
  "member_of key =
     (if key = 99 then Some Config else if key = 104 then Some Host else if key = 107 then Some Key
      else if key = 115 then Some Secret else if key = 117 then Some User else None)"

fun told :: "settings \<Rightarrow> arg_event \<Rightarrow> settings" where
  "told c (Opt key (Some s)) =
     (case member_of key of
        Some m \<Rightarrow> c\<lparr>texts := (texts c)(m \<mapsto> s)\<rparr>
      | None \<Rightarrow> if key = 112 then c\<lparr>port := atol s\<rparr> else c)"
| "told c (Opt key None) =
     (if key = 256 then c\<lparr>validate := No\<rparr> else if key = 257 then c\<lparr>verbose := Yes\<rparr> else c)"
| "told c _ = c"

text \<open>
  What argp hands over: options of the tables, with a value if and only if they take one, and other arguments;
  anything else on the line ends the program. A line is accepted if it has nothing but options.
\<close>

fun known_option :: "arg_event \<Rightarrow> bool" where
  "known_option (Opt key (Some s)) \<longleftrightarrow>
     NUL \<notin> set s \<and> length s < ptrdiff_max \<and> (member_of key \<noteq> None \<or> key = 112)"
| "known_option (Opt key None) \<longleftrightarrow> key \<in> {256, 257, 300, 350}"
| "known_option _ \<longleftrightarrow> False"

fun argp_event :: "arg_event \<Rightarrow> bool" where
  "argp_event (Opt key arg) \<longleftrightarrow> known_option (Opt key arg)"
| "argp_event _ \<longleftrightarrow> True"

definition argp_events :: "arg_event list \<Rightarrow> bool" where
  "argp_events evs \<longleftrightarrow> list_all argp_event evs"

definition accepted :: "arg_event list \<Rightarrow> bool" where
  "accepted evs \<longleftrightarrow> list_all known_option evs"

lemma accepted_simps [simp]:
  "accepted []" "accepted (ev # evs) \<longleftrightarrow> known_option ev \<and> accepted evs"
  by (simp_all add: accepted_def)

text \<open>The texts an option and a line replace.\<close>

fun replaced :: "settings \<Rightarrow> arg_event \<Rightarrow> string list" where
  "replaced c (Opt key (Some s)) = (case member_of key of None \<Rightarrow> [] | Some m \<Rightarrow> old_text m c)"
| "replaced c _ = []"

fun replaced_texts :: "settings \<Rightarrow> arg_event list \<Rightarrow> string list" where
  "replaced_texts c [] = []"
| "replaced_texts c (ev # evs) = replaced c ev @ replaced_texts (told c ev) evs"

text \<open>The texts a line gives, by their members. If none is given twice, none is replaced.\<close>

fun text_options :: "arg_event list \<Rightarrow> member list" where
  "text_options [] = []"
| "text_options (Opt key (Some s) # evs) = (case member_of key of None \<Rightarrow> [] | Some m \<Rightarrow> [m]) @ text_options evs"
| "text_options (ev # evs) = text_options evs"

lemma replaced_texts_none:
  "distinct (text_options evs) \<Longrightarrow> \<forall>m \<in> set (text_options evs). texts c m = None \<Longrightarrow> replaced_texts c evs = []"
proof (induction evs arbitrary: c rule: text_options.induct)
  case (2 key s evs)
  show ?case
  proof (cases "member_of key")
    case None
    then show ?thesis using 2 by simp
  next
    case (Some m)
    then have "replaced_texts (c\<lparr>texts := (texts c)(m \<mapsto> s)\<rparr>) evs = []" using 2 by (intro "2.IH") auto
    then show ?thesis using Some "2.prems" by (simp add: old_text_def)
  qed
qed (simp_all split: option.splits)

lemma nothing_replaced: "distinct (text_options evs) \<Longrightarrow> replaced_texts no_settings evs = []"
  by (rule replaced_texts_none) (simp_all add: no_settings_def)

text \<open>
  How a line ends the program: with the status of the first exit of argp, wherever it is, or else with \<^verbatim>\<open>EX_USAGE\<close>
  if there is an argument that is not an option.
\<close>

fun first_stop :: "arg_event list \<Rightarrow> int option" where
  "first_stop [] = None"
| "first_stop (Stop code # evs) = Some code"
| "first_stop (ev # evs) = first_stop evs"

definition line_exit :: "arg_event list \<Rightarrow> int option" where
  "line_exit evs =
     (case first_stop evs of Some code \<Rightarrow> Some code | None \<Rightarrow> if list_ex is_arg evs then Some EX_USAGE else None)"

lemma accepted_iff: "accepted evs \<longleftrightarrow> argp_events evs \<and> line_exit evs = None"
proof -
  have "accepted evs \<longleftrightarrow> argp_events evs \<and> first_stop evs = None \<and> \<not> list_ex is_arg evs"
    by (induction evs rule: first_stop.induct) (auto simp: argp_events_def)
  then show ?thesis by (auto simp: line_exit_def split: option.splits)
qed

lemma permuted_accepted: "accepted evs \<Longrightarrow> permuted evs = evs"
proof -
  assume "accepted evs"
  then have "list_all (\<lambda>e. \<not> is_arg e) evs" unfolding accepted_def
    by (rule list.pred_mono_strong) (erule known_option.elims; simp)
  then show ?thesis by (simp add: permuted_def list_all_iff filter_True filter_False)
qed

lemma parse_opt_member:
  assumes "member_of key = Some m"
  shows "parse_opt key arg input w = set_string
    (case m of Config \<Rightarrow> arg_config_file_update | Key \<Rightarrow> arg_key_handle_update | Host \<Rightarrow> arg_host_update
     | Secret \<Rightarrow> arg_secret_update | User \<Rightarrow> arg_username_update) arg input w"
  using assms by (auto simp: member_of_def parse_opt_def split: if_splits)

lemma copy_member:
  assumes "settings_at args c B w" "NUL \<notin> set s" "length s < ptrdiff_max" "world_wf w" "\<forall>n. alloc_ok w n"
  shows "\<exists>w' B' bs. set_string
    (case m of Config \<Rightarrow> arg_config_file_update | Key \<Rightarrow> arg_key_handle_update | Host \<Rightarrow> arg_host_update
     | Secret \<Rightarrow> arg_secret_update | User \<Rightarrow> arg_username_update) (Lit s) args w = Some (Inr 0, w') \<and>
    heap_only w w' \<and> moved B (B' \<union> set bs) w w' \<and> settings_at args (c\<lparr>texts := (texts c)(m \<mapsto> s)\<rparr>) B' w' \<and>
    lost bs (old_text m c) w' \<and> set bs \<subseteq> B - B'"
proof (cases m)
  case Config
  then show ?thesis using config_file.copy_spec [OF assms] by auto
next
  case Key
  then show ?thesis using key_handle.copy_spec [OF assms] by auto
next
  case Host
  then show ?thesis using host.copy_spec [OF assms] by auto
next
  case Secret
  then show ?thesis using secret.copy_spec [OF assms] by auto
next
  case User
  then show ?thesis using username.copy_spec [OF assms] by auto
qed

lemma parse_opt_spec:
  assumes at: "settings_at input c B w" and wf: "world_wf w" and mem: "\<forall>n. alloc_ok w n"
    and ev: "known_option (Opt key arg)" "key \<noteq> 300" "key \<noteq> 350"
  shows "\<exists>w' B' bs. parse_opt key (case arg of None \<Rightarrow> NULL | Some s \<Rightarrow> Lit s) input w = Some (Inr 0, w') \<and>
    heap_only w w' \<and> moved B (B' \<union> set bs) w w' \<and> settings_at input (told c (Opt key arg)) B' w' \<and>
    lost bs (replaced c (Opt key arg)) w' \<and> set bs \<subseteq> B - B'"
proof -
  obtain p a where a: "input = Ptr p" "heap w p = Some (Arguments a)" "arguments_of input w = Some a"
      "port c = arg_port a" "validate c = arg_validate a" "verbose c = arg_verbose a"
    using at by (rule settings_atE) blast
  have written: ?thesis
    if "parse_opt key (case arg of None \<Rightarrow> NULL | Some s \<Rightarrow> Lit s) input w =
        Some (Inr 0, w\<lparr>heap := (heap w)(p \<mapsto> Arguments a')\<rparr>)" "\<And>m. get_member m a' = get_member m a"
      "told c (Opt key arg) = c\<lparr>port := arg_port a', validate := arg_validate a', verbose := arg_verbose a'\<rparr>"
      "replaced c (Opt key arg) = []" for a'
    using that write_value [OF at a(1,2) that(2) wf]
    by (intro exI [of _ "w\<lparr>heap := (heap w)(p \<mapsto> Arguments a')\<rparr>"] exI [of _ B] exI [of _ "[]"]) simp
  show ?thesis
  proof (cases arg)
    case (Some s)
    show ?thesis
    proof (cases "member_of key")
      case None
      then have key: "key = 112" and s: "NUL \<notin> set s" using ev Some by simp_all
      show ?thesis
        by (rule written [of "a\<lparr>arg_port := atol s\<rparr>"])
          (use a s Some None key in \<open>auto simp: parse_opt_def intro: settings_eqI\<close>)
    next
      case (Some m)
      with \<open>arg = Some s\<close> show ?thesis
        using copy_member [OF at _ _ wf mem, of s m] ev parse_opt_member [OF Some, of "Lit s" input w] by auto
    qed
  next
    case None
    then consider "key = 256" | "key = 257" using ev by auto
    then show ?thesis
    proof cases
      case 1
      show ?thesis
        by (rule written [of "a\<lparr>arg_validate := No\<rparr>"])
          (use a None 1 in \<open>auto simp: parse_opt_def intro: settings_eqI\<close>)
    next
      case 2
      show ?thesis
        by (rule written [of "a\<lparr>arg_verbose := Yes\<rparr>"])
          (use a None 2 in \<open>auto simp: parse_opt_def intro: settings_eqI\<close>)
    qed
  qed
qed

text \<open>The state while the arguments are read: the settings, the modules, and no block in both.\<close>

lemma settings_program_disjoint:
  assumes "settings_at args c B w" "plugged sd st en1 fd en2 w"
  shows "B \<inter> program_blocks sd st w = {}"
  using settings_block [OF assms(1)] program_blocks_solid [OF assms(2)] by fastforce

lemma plugged_settings_step:
  assumes p: "plugged sd st en1 fd en2 w" and at: "settings_at args c B w"
    and mv: "moved B B' w w'" and ho: "heap_only w w'"
  shows "plugged sd st en1 fd en2 w'"
    "program_blocks sd st w' = program_blocks sd st w" "parsers_of sd st w' = parsers_of sd st w"
  using plugged_moved [OF p mv same_statics_heap_only [OF ho] settings_program_disjoint [OF at p]] by simp_all

lemma known_option_key:
  "known_option (Opt key arg) \<Longrightarrow> key \<noteq> 300 \<Longrightarrow> key \<noteq> 350 \<Longrightarrow> key \<in> set (map opt_key options)"
  by (cases arg) (auto simp: options_def member_of_def split: option.splits if_splits)

lemma known_option_module:
  "known_option (Opt key arg) \<Longrightarrow> key = 300 \<or> key = 350 \<Longrightarrow>
   arg = None \<and> told c (Opt key arg) = c \<and> replaced c (Opt key arg) = [] \<and> key \<notin> set (map opt_key options)"
  by (cases arg) (auto simp: options_def member_of_def split: option.splits if_splits)

text \<open>A step of the program on its settings and its modules, with the blocks it has.\<close>

definition program_step ::
  "ptr \<Rightarrow> ptr \<Rightarrow> ptr \<Rightarrow> settings \<Rightarrow> nat set \<Rightarrow> nat set \<Rightarrow> bool \<Rightarrow> int \<Rightarrow> bool \<Rightarrow> 'e world \<Rightarrow> 'e world \<Rightarrow> bool" where
  "program_step args sd st c B B' en1 fd en2 w w' \<longleftrightarrow>
     settings_at args c B' w' \<and> plugged sd st en1 fd en2 w' \<and> did [] w w' \<and> ext w' = ext w \<and>
     program_blocks sd st w' = program_blocks sd st w \<and> parsers_of sd st w' = parsers_of sd st w \<and>
     moved (B \<union> program_blocks sd st w) (B' \<union> program_blocks sd st w) w w'"

lemma program_step_trans:
  assumes "program_step args sd st c B B' en1 fd en2 w w'" "program_step args sd st c' B' B'' en1' fd' en2' w' w''"
  shows "program_step args sd st c' B B'' en1' fd' en2' w w''"
  using assms moved_trans did_trans [of "[]" w w' "[]" w''] unfolding program_step_def by fastforce

lemma program_step_settings:
  assumes p: "plugged sd st en1 fd en2 w" and at: "settings_at args c B w"
    and mv: "moved B B' w w'" and ho: "heap_only w w'" and at': "settings_at args c' B' w'"
  shows "program_step args sd st c' B B' en1 fd en2 w w'"
  using plugged_settings_step [OF p at mv ho] at' did_heap_only [OF ho] moved_more [OF mv] heap_only_frame(2) [OF ho]
  by (simp add: program_step_def)

lemma program_step_modules:
  assumes p: "plugged sd st en1 fd en2 w" and at: "settings_at args c B w"
    and step: "plugged_step sd st en1' fd' en2' w w'" and x: "ext w' = ext w"
  shows "program_step args sd st c B B en1' fd' en2' w w'"
proof -
  have mv: "moved (program_blocks sd st w) (program_blocks sd st w) w w'" using step by (simp add: plugged_step_def)
  have "settings_at args c B w'"
    by (rule settings_moved [OF at mv settings_program_disjoint [OF at p]])
  then show ?thesis
    using step x moved_more [OF mv, of B] by (simp add: program_step_def plugged_step_def Un_commute)
qed

lemma program_step_memory:
  "program_step args sd st c B B' en1 fd en2 w w' \<Longrightarrow> \<forall>n. alloc_ok w n \<Longrightarrow> \<forall>n. alloc_ok w' n"
  by (simp add: program_step_def did_def)

text \<open>
  The same for the parser, which can lose blocks: \<open>bs\<close> are those it has lost, with the texts \<open>ts\<close>.
\<close>

definition line_step ::
  "ptr \<Rightarrow> ptr \<Rightarrow> ptr \<Rightarrow> settings \<Rightarrow> nat set \<Rightarrow> nat set \<Rightarrow> nat list \<Rightarrow> string list \<Rightarrow> bool \<Rightarrow> int \<Rightarrow> bool \<Rightarrow>
   'e world \<Rightarrow> 'e world \<Rightarrow> bool" where
  "line_step args sd st c B B' bs ts en1 fd en2 w w' \<longleftrightarrow>
     settings_at args c B' w' \<and> plugged sd st en1 fd en2 w' \<and> heap_only w w' \<and>
     program_blocks sd st w' = program_blocks sd st w \<and> parsers_of sd st w' = parsers_of sd st w \<and>
     moved (B \<union> program_blocks sd st w) (B' \<union> set bs \<union> program_blocks sd st w) w w' \<and>
     lost bs ts w' \<and> set bs \<inter> (B' \<union> program_blocks sd st w) = {}"

lemma line_stepD:
  assumes "line_step args sd st c B B' bs ts en1 fd en2 w w'"
  shows "settings_at args c B' w'" "plugged sd st en1 fd en2 w'" "heap_only w w'"
    "program_blocks sd st w' = program_blocks sd st w" "parsers_of sd st w' = parsers_of sd st w"
    "moved (B \<union> program_blocks sd st w) (B' \<union> set bs \<union> program_blocks sd st w) w w'"
    "lost bs ts w'" "set bs \<inter> (B' \<union> program_blocks sd st w) = {}"
  using assms by (simp_all add: line_step_def)

lemma line_step_trans:
  assumes "line_step args sd st c B B' bs ts en1 fd en2 w w'"
    "line_step args sd st c' B' B'' cs us en1' fd' en2' w' w''"
  shows "line_step args sd st c' B B'' (bs @ cs) (ts @ us) en1' fd' en2' w w''"
proof -
  note s1 = line_stepD [OF assms(1)] and s2 = line_stepD [OF assms(2), unfolded line_stepD(4) [OF assms(1)]]
  let ?P = "program_blocks sd st w"
  note l = lost_frame [OF s1(7) s2(6) s1(8)]
  have "moved (B \<union> ?P) (B'' \<union> set (bs @ cs) \<union> ?P) w w''"
    using moved_trans [OF s1(6)] moved_more [OF s2(6), of "set bs"] by (simp add: Un_ac)
  moreover have "set (bs @ cs) \<inter> (B'' \<union> ?P) = {}" using l(2) s2(8) by auto
  moreover have "lost (bs @ cs) (ts @ us) w''" by (rule lost_append [OF l(1) s2(7)]) (use l(2) in blast)
  ultimately show ?thesis
    using s1(4,5) s2(1,2,4,5) heap_only_trans [OF s1(3) s2(3)] by (simp add: line_step_def)
qed

lemma line_step_settings:
  assumes p: "plugged sd st en1 fd en2 w" and at: "settings_at args c B w"
    and mv: "moved B (B' \<union> set bs) w w'" and ho: "heap_only w w'" and at': "settings_at args c' B' w'"
    and l: "lost bs ts w'" "set bs \<subseteq> B - B'"
  shows "line_step args sd st c' B B' bs ts en1 fd en2 w w'"
  using plugged_settings_step [OF p at mv ho] at' ho l moved_more [OF mv] settings_program_disjoint [OF at p]
  by (auto simp: line_step_def)

lemma line_step_modules:
  assumes p: "plugged sd st en1 fd en2 w" and at: "settings_at args c B w"
    and step: "plugged_step sd st en1' fd' en2' w w'" and ho: "heap_only w w'"
  shows "line_step args sd st c B B [] [] en1' fd' en2' w w'"
proof -
  have mv: "moved (program_blocks sd st w) (program_blocks sd st w) w w'" using step by (simp add: plugged_step_def)
  have "settings_at args c B w'"
    by (rule settings_moved [OF at mv settings_program_disjoint [OF at p]])
  then show ?thesis
    using step ho moved_more [OF mv, of B] by (simp add: line_step_def plugged_step_def Un_commute)
qed

lemma line_step_memory:
  "line_step args sd st c B B' bs ts en1 fd en2 w w' \<Longrightarrow> \<forall>n. alloc_ok w n \<Longrightarrow> \<forall>n. alloc_ok w' n"
  using heap_only_frame(3) by (fastforce simp: line_step_def)

text \<open>One event.\<close>

lemma argp_run_step:
  assumes known: "known_option ev" and at: "settings_at input c B w" and p: "plugged sd st en1 fd en2 w"
    and mem: "\<forall>n. alloc_ok w n"
  obtains w1 B1 bs where
    "line_step input sd st (told c ev) B B1 bs (replaced c ev) (en1 \<or> ev = Opt 350 None) fd (en2 \<or> ev = Opt 300 None) w w1"
    "\<And>evs. argp_run (parsers_of sd st w) input (ev # evs) w = argp_run (parsers_of sd st w1) input evs w1"
proof -
  obtain key arg where ev: "ev = Opt key arg" using known by (cases ev) auto
  have wf: "world_wf w" using p by (simp add: plugged_def)
  consider "key = 350" | "key = 300" | "key \<noteq> 300" "key \<noteq> 350" by blast
  then show thesis
  proof cases
    case 1
    note m = known_option_module [OF known [unfolded ev], of c]
    obtain w' where w': "call_child (parsers_of sd st w) 350 w = Some (0, w')" "plugged_step sd st True fd en2 w w'" "heap_only w w'"
      using child_option(1) [OF p refl] by blast
    have st: "line_step input sd st c B B [] [] True fd en2 w w'" by (rule line_step_modules [OF p at w'(2,3)])
    show thesis
      by (rule that [of B "[]" w']) (use st w'(1) m 1 ev line_stepD(5) [OF st] in auto)
  next
    case 2
    note m = known_option_module [OF known [unfolded ev], of c]
    obtain w' where w': "call_child (parsers_of sd st w) 300 w = Some (0, w')" "plugged_step sd st en1 fd True w w'" "heap_only w w'"
      using child_option(2) [OF p refl] by blast
    have st: "line_step input sd st c B B [] [] en1 fd True w w'" by (rule line_step_modules [OF p at w'(2,3)])
    show thesis
      by (rule that [of B "[]" w']) (use st w'(1) m 2 ev line_stepD(5) [OF st] in auto)
  next
    case 3
    note known' = known [unfolded ev]
    obtain w' B' bs where w': "parse_opt key (case arg of None \<Rightarrow> NULL | Some s \<Rightarrow> Lit s) input w = Some (Inr 0, w')"
        "heap_only w w'" "moved B (B' \<union> set bs) w w'" "settings_at input (told c (Opt key arg)) B' w'"
        "lost bs (replaced c (Opt key arg)) w'" "set bs \<subseteq> B - B'"
      using parse_opt_spec [OF at wf mem known' 3] by blast
    note st = line_step_settings [OF p at w'(3,2,4,5,6)]
    show thesis
      by (rule that [of B' bs w']) (use st w'(1) known_option_key [OF known' 3] 3 ev line_stepD(5) [OF st] in auto)
  qed
qed

lemma argp_run_spec:
  assumes "accepted evs" "settings_at input c B w" "plugged sd st en1 fd en2 w" "\<forall>n. alloc_ok w n"
  shows "\<exists>w' B' bs. (\<forall>rest. argp_run (parsers_of sd st w) input (evs @ rest) w = argp_run (parsers_of sd st w') input rest w') \<and>
    line_step input sd st (foldl told c evs) B B' bs (replaced_texts c evs) (en1 \<or> Opt 350 None \<in> set evs) fd
      (en2 \<or> Opt 300 None \<in> set evs) w w'"
  using assms
proof (induction evs arbitrary: c B w en1 en2)
  case Nil
  then have "line_step input sd st c B B [] [] en1 fd en2 w w"
    by (simp add: line_step_def plugged_def)
  then show ?case by (intro exI [of _ w] exI [of _ B] exI [of _ "[]"]) simp
next
  case (Cons ev evs)
  obtain w1 B1 bs where w1:
    "line_step input sd st (told c ev) B B1 bs (replaced c ev) (en1 \<or> ev = Opt 350 None) fd (en2 \<or> ev = Opt 300 None) w w1"
    "\<And>evs. argp_run (parsers_of sd st w) input (ev # evs) w = argp_run (parsers_of sd st w1) input evs w1"
    by (rule argp_run_step [OF _ Cons.prems(2-4), of ev]) (use Cons.prems(1) in simp_all)
  note s1 = line_stepD [OF w1(1)]
  from Cons.IH [OF _ s1(1,2) line_step_memory [OF w1(1) Cons.prems(4)]] Cons.prems(1) obtain w2 B2 cs where
    w2: "\<forall>rest. argp_run (parsers_of sd st w1) input (evs @ rest) w1 = argp_run (parsers_of sd st w2) input rest w2"
      "line_step input sd st (foldl told (told c ev) evs) B1 B2 cs (replaced_texts (told c ev) evs)
        ((en1 \<or> ev = Opt 350 None) \<or> Opt 350 None \<in> set evs) fd ((en2 \<or> ev = Opt 300 None) \<or> Opt 300 None \<in> set evs) w1 w2"
    by auto
  have flags: "en1 \<or> Opt 350 None \<in> set (ev # evs) \<longleftrightarrow> (en1 \<or> ev = Opt 350 None) \<or> Opt 350 None \<in> set evs"
    "en2 \<or> Opt 300 None \<in> set (ev # evs) \<longleftrightarrow> (en2 \<or> ev = Opt 300 None) \<or> Opt 300 None \<in> set evs"
    by auto
  show ?case
    unfolding flags foldl_Cons replaced_texts.simps
    by (intro exI [of _ w2] exI [of _ B2] exI [of _ "bs @ cs"] conjI line_step_trans [OF w1(1) w2(2)])
      (simp add: w1(2) w2(1))
qed

lemma argp_parse_run:
  assumes p: "plugged sd st en1 fd en2 w"
  shows "argp_parse evs input w = argp_run (parsers_of sd st w) input (permuted evs) w"
proof -
  have "registry [sd, st] (parsers_of sd st w) w" using p by (simp add: plugged_def)
  note kids = registry_children [OF this]
  show ?thesis using kids by (simp add: argp_parse_def parse_opt_def zip_map_fst_snd)
qed

lemma argp_parse_spec:
  assumes ok: "accepted evs" and at: "settings_at input no_settings B w"
    and p: "plugged sd st en1 fd en2 w" and mem: "\<forall>n. alloc_ok w n"
  obtains w' B' bs where "argp_parse evs input w = Some (None, w')"
    "line_step input sd st (foldl told no_settings evs) B B' bs (replaced_texts no_settings evs)
      (en1 \<or> Opt 350 None \<in> set evs) fd (en2 \<or> Opt 300 None \<in> set evs) w w'"
proof -
  from argp_run_spec [OF ok at p mem] obtain w' B' bs where w':
    "\<forall>rest. argp_run (parsers_of sd st w) input (evs @ rest) w = argp_run (parsers_of sd st w') input rest w'"
    "line_step input sd st (foldl told no_settings evs) B B' bs (replaced_texts no_settings evs)
      (en1 \<or> Opt 350 None \<in> set evs) fd (en2 \<or> Opt 300 None \<in> set evs) w w'" by blast
  have "argp_parse evs input w = Some (None, w')"
    using w'(1) [rule_format, of "[]"] by (simp add: argp_parse_run [OF p] permuted_accepted [OF ok])
  then show thesis using w'(2) by (rule that)
qed

section \<open>The configuration file\<close>

definition ini_ok :: "dictionary \<Rightarrow> bool" where
  "ini_ok ini \<longleftrightarrow> (\<forall>k s. ini_string ini k = Some s \<longrightarrow> NUL \<notin> set s \<and> length s < ptrdiff_max)"

fun config_text :: "dictionary \<Rightarrow> member \<Rightarrow> string option" where
  "config_text ini Config = None"
| "config_text ini Key = ini_string ini ''unlocked:key_handle''"
| "config_text ini Host = ini_string ini ''unlocked:host''"
| "config_text ini Secret = ini_string ini ''unlocked:secret''"
| "config_text ini User = ini_string ini ''unlocked:username''"

definition config_settings :: "dictionary \<Rightarrow> settings" where
  "config_settings ini =
     \<lparr>texts = config_text ini, port = ini_long ini ''unlocked:port'' 0,
      validate = config_validate (ini_boolean ini ''unlocked:validate'' (- 1)), verbose = Unset\<rparr>"

context settings_member
begin

lemma config_string_step:
  assumes p: "plugged sd st en1 fd en2 w" and at: "settings_at args c B w" and mem: "\<forall>n. alloc_ok w n"
    and v: "\<And>s. v = Some s \<Longrightarrow> NUL \<notin> set s \<and> length s < ptrdiff_max" and none: "texts c m = None"
  obtains w' B' where "config_string upd v args w = Some (False, w')"
    "program_step args sd st (c\<lparr>texts := (texts c)(m := v)\<rparr>) B B' en1 fd en2 w w'"
proof (cases v)
  case None
  have "c\<lparr>texts := (texts c)(m := None)\<rparr> = c" using none by (intro settings_eqI) simp_all
  then show ?thesis
    using that [of w B] None p at by (simp add: config_string_def program_step_def plugged_def)
next
  case (Some s)
  then have s: "NUL \<notin> set s" "length s < ptrdiff_max" using v by blast+
  have wf: "world_wf w" using p by (simp add: plugged_def)
  obtain w' B' bs where "config_string upd (Some s) args w = Some (False, w')" "heap_only w w'"
      "moved B (B' \<union> set bs) w w'" "settings_at args (c\<lparr>texts := (texts c)(m \<mapsto> s)\<rparr>) B' w'" "lost bs (old_text m c) w'"
    using copy_spec [OF at s wf mem] by blast
  then have w': "config_string upd (Some s) args w = Some (False, w')" "heap_only w w'" "moved B B' w w'"
      "settings_at args (c\<lparr>texts := (texts c)(m \<mapsto> s)\<rparr>) B' w'"
    using none by (cases bs; simp add: old_text_def)+
  show ?thesis
    by (rule that [of w' B']) (use Some w'(1) program_step_settings [OF p at w'(3,2,4)] in simp_all)
qed

end

lemma program_stepD:
  assumes "program_step args sd st c B B' en1 fd en2 w w'"
  shows "settings_at args c B' w'" "plugged sd st en1 fd en2 w'" "ext w' = ext w" "did [] w w'"
  using assms by (simp_all add: program_step_def)

lemma parse_config_file_spec:
  assumes name: "cstr path w = Some name" and ini: "loader name (ext w) = Some ini" "ini_ok ini"
    and at: "settings_at args no_settings B w" and p: "plugged sd st en1 fd en2 w" and mem: "\<forall>n. alloc_ok w n"
  obtains w' B' where "parse_config_file (dispatch P) loader path args w = Some (UL_OK, w')"
    "program_step args sd st (config_settings ini) B B'
      (configured (ini_boolean ini ''sd_socket:use_socket'' (- 1)) en1) fd
      (configured (ini_boolean ini ''stdout:use_stdout'' (- 1)) en2) w w'"
proof -
  have ok: "NUL \<notin> set s \<and> length s < ptrdiff_max" if "ini_string ini k = Some s" for k s
    using ini(2) that by (auto simp: ini_ok_def)
  let ?host = "ini_string ini ''unlocked:host''" and ?key = "ini_string ini ''unlocked:key_handle''"
  let ?secret = "ini_string ini ''unlocked:secret''" and ?user = "ini_string ini ''unlocked:username''"
  let ?c1 = "no_settings\<lparr>texts := (texts no_settings)(Host := ?host)\<rparr>"
  let ?c2 = "?c1\<lparr>texts := (texts ?c1)(Key := ?key)\<rparr>"
  let ?c3 = "?c2\<lparr>port := ini_long ini ''unlocked:port'' 0\<rparr>"
  let ?c4 = "?c3\<lparr>texts := (texts ?c3)(Secret := ?secret)\<rparr>"
  let ?c5 = "?c4\<lparr>texts := (texts ?c4)(User := ?user)\<rparr>"
  let ?v = "config_validate (ini_boolean ini ''unlocked:validate'' (- 1))"
  have none: "texts no_settings m = None" for m by (simp add: no_settings_def)
  obtain w1 B1 where w1: "config_string arg_host_update ?host args w = Some (False, w1)"
      "program_step args sd st ?c1 B B1 en1 fd en2 w w1"
    by (rule host.config_string_step [OF p at mem ok]) (auto simp: none)
  note s1 = program_stepD [OF w1(2)] and m1 = program_step_memory [OF w1(2) mem]
  obtain w2 B2 where w2: "config_string arg_key_handle_update ?key args w1 = Some (False, w2)"
      "program_step args sd st ?c2 B1 B2 en1 fd en2 w1 w2"
    by (rule key_handle.config_string_step [OF s1(2,1) m1 ok]) (auto simp: none)
  note s2 = program_stepD [OF w2(2)] and m2 = program_step_memory [OF w2(2) m1]
  obtain p2 a2 where a2: "args = Ptr p2" "heap w2 p2 = Some (Arguments a2)" "arguments_of args w2 = Some a2"
      "port ?c2 = arg_port a2" "validate ?c2 = arg_validate a2" "verbose ?c2 = arg_verbose a2"
    using s2(1) by (rule settings_atE) blast
  let ?a2 = "a2\<lparr>arg_port := ini_long ini ''unlocked:port'' 0\<rparr>"
  let ?w3 = "w2\<lparr>heap := (heap w2)(p2 \<mapsto> Arguments ?a2)\<rparr>"
  have wf2: "world_wf w2" using s2(2) by (simp add: plugged_def)
  have eq3: "?c2\<lparr>port := arg_port ?a2, validate := arg_validate ?a2, verbose := arg_verbose ?a2\<rparr> = ?c3"
    using a2 by (intro settings_eqI) simp_all
  from write_value [OF s2(1) a2(1,2), of ?a2] wf2 have w3: "settings_at args ?c3 B2 ?w3" "moved B2 B2 w2 ?w3" "heap_only w2 ?w3"
    unfolding eq3 by simp_all
  have step3: "program_step args sd st ?c3 B2 B2 en1 fd en2 w2 ?w3"
    by (rule program_step_settings [OF s2(2,1) w3(2,3,1)])
  note s3 = program_stepD [OF step3] and m3 = program_step_memory [OF step3 m2]
  obtain w4 B4 where w4: "config_string arg_secret_update ?secret args ?w3 = Some (False, w4)"
      "program_step args sd st ?c4 B2 B4 en1 fd en2 ?w3 w4"
    by (rule secret.config_string_step [OF s3(2,1) m3 ok]) (auto simp: none)
  note s4 = program_stepD [OF w4(2)] and m4 = program_step_memory [OF w4(2) m3]
  obtain w5 B5 where w5: "config_string arg_username_update ?user args w4 = Some (False, w5)"
      "program_step args sd st ?c5 B4 B5 en1 fd en2 w4 w5"
    by (rule username.config_string_step [OF s4(2,1) m4 ok]) (auto simp: none)
  note s5 = program_stepD [OF w5(2)]
  obtain p5 a5 where a5: "args = Ptr p5" "heap w5 p5 = Some (Arguments a5)" "arguments_of args w5 = Some a5"
      "port ?c5 = arg_port a5" "validate ?c5 = arg_validate a5" "verbose ?c5 = arg_verbose a5"
    using s5(1) by (rule settings_atE) blast
  let ?a5 = "a5\<lparr>arg_validate := ?v\<rparr>"
  let ?w6 = "w5\<lparr>heap := (heap w5)(p5 \<mapsto> Arguments ?a5)\<rparr>"
  have wf5: "world_wf w5" using s5(2) by (simp add: plugged_def)
  have eq6: "?c5\<lparr>port := arg_port ?a5, validate := arg_validate ?a5, verbose := arg_verbose ?a5\<rparr> = config_settings ini"
  proof (rule settings_eqI)
    fix m
    show "texts (?c5\<lparr>port := arg_port ?a5, validate := arg_validate ?a5, verbose := arg_verbose ?a5\<rparr>) m =
        texts (config_settings ini) m"
      by (cases m) (simp_all add: config_settings_def none)
  qed (use a5 in \<open>simp_all add: config_settings_def no_settings_def\<close>)
  from write_value [OF s5(1) a5(1,2), of ?a5] wf5 have
    w6: "settings_at args (config_settings ini) B5 ?w6" "moved B5 B5 w5 ?w6" "heap_only w5 ?w6"
    unfolding eq6 by simp_all
  have step6: "program_step args sd st (config_settings ini) B5 B5 en1 fd en2 w5 ?w6"
    by (rule program_step_settings [OF s5(2,1) w6(2,3,1)])
  note s6 = program_stepD [OF step6]
  obtain w7 where w7: "parse_config (dispatch P) ini ?w6 = Some (UL_OK, w7)"
    "plugged_step sd st (configured (ini_boolean ini ''sd_socket:use_socket'' (- 1)) en1) fd
      (configured (ini_boolean ini ''stdout:use_stdout'' (- 1)) en2) ?w6 w7" "ext w7 = ext ?w6"
    using parse_config_spec [OF s6(2)] by blast
  note step7 = program_step_modules [OF s6(2,1) w7(2,3)]
  have x: "ext w5 = ext w" using s1(3) s2(3) s3(3) s4(3) s5(3) by simp
  have "parse_config_file (dispatch P) loader path args w = Some (UL_OK, w7)"
    using name ini(1) w1(1) w2(1) w4(1) w5(1) w7(1) a2(1-3) a5(1-3)
    by (simp add: parse_config_file_def)
  then show ?thesis
    using that program_step_trans [OF w1(2) program_step_trans [OF w2(2) program_step_trans [OF step3
      program_step_trans [OF w4(2) program_step_trans [OF w5(2) program_step_trans [OF step6 step7]]]]]] by blast
qed

section \<open>The three layers\<close>

text \<open>Settings that are not part of a step stay.\<close>

lemma program_step_frame:
  assumes q: "settings_at q d D w" and st: "program_step args sd st c B B' en1 fd en2 w w'"
    and p: "plugged sd st e1 f e2 w" and dis: "D \<inter> B = {}"
  shows "settings_at q d D w' \<and> D \<inter> B' = {}"
proof -
  let ?P = "program_blocks sd st w"
  have mv: "moved (B \<union> ?P) (B' \<union> ?P) w w'" using st by (simp add: program_step_def)
  have d: "D \<inter> (B \<union> ?P) = {}" using dis settings_program_disjoint [OF q p] by blast
  have "D \<inter> B' = {}"
    using settings_block [OF q] movedD(3) [OF mv] d by fastforce
  then show ?thesis using settings_moved [OF q mv d] by simp
qed

lemma program_step_moved:
  "program_step args sd st c B B' en1 fd en2 w w' \<Longrightarrow>
   moved (B \<union> program_blocks sd st w) (B' \<union> program_blocks sd st w) w w'"
  by (simp add: program_step_def)

lemma moved_frame:
  assumes q: "settings_at q d D w" and mv: "moved B B' w w'" and dis: "D \<inter> B = {}"
  shows "settings_at q d D w'" "D \<inter> B' = {}"
  using settings_moved [OF q mv dis] settings_block [OF q] movedD(3) [OF mv] dis by fastforce+

lemma moved_same_heap:
  "moved B B' w w' \<Longrightarrow> heap w'' = heap w' \<Longrightarrow> alloc_ok w'' = alloc_ok w' \<Longrightarrow> world_wf w'' \<Longrightarrow> moved B B' w w''"
  by (simp add: moved_def)

lemma moved_freed: "world_wf w \<Longrightarrow> moved B {} w (freed B w)"
  by (simp add: moved_def)

lemma did_freed [simp]: "did [] w (freed B w)"
  by (simp add: freed_def)

lemma same_statics_freed [simp]: "same_statics w (freed B w)"
  by (simp add: same_statics_def)

text \<open>The layers of a run: the command line and, if it names one, the configuration file.\<close>

definition command_line :: "arg_event list \<Rightarrow> settings" where
  "command_line evs = foldl told no_settings evs"

definition loaded :: "(string \<Rightarrow> 'e \<Rightarrow> dictionary option) \<Rightarrow> arg_event list \<Rightarrow> 'e \<Rightarrow> dictionary option option" where
  "loaded loader evs x = map_option (\<lambda>name. loader name x) (texts (command_line evs) Config)"

fun file_settings :: "dictionary option \<Rightarrow> settings" where
  "file_settings None = no_settings"
| "file_settings (Some ini) = config_settings ini"

fun file_flag :: "dictionary option \<Rightarrow> string \<Rightarrow> bool \<Rightarrow> bool" where
  "file_flag None name en = en"
| "file_flag (Some ini) name en = configured (ini_boolean ini name (- 1)) en"

definition use_socket :: "dictionary option \<Rightarrow> arg_event list \<Rightarrow> bool" where
  "use_socket f evs = file_flag f ''sd_socket:use_socket'' (Opt 350 None \<in> set evs)"

definition use_stdout :: "dictionary option \<Rightarrow> arg_event list \<Rightarrow> bool" where
  "use_stdout f evs = file_flag f ''stdout:use_stdout'' (Opt 300 None \<in> set evs)"

lemma config_phase:
  assumes cli: "settings_at q (command_line evs) C w" and at: "settings_at r no_settings B w" and dis: "C \<inter> B = {}"
    and p: "plugged sd st en1 fd en2 w" and mem: "\<forall>n. alloc_ok w n"
    and f: "loaded loader evs (ext w) = map_option Some f" "\<And>ini. f = Some ini \<Longrightarrow> ini_ok ini"
  obtains c w' B' where "arguments_of q w = Some c"
    "(if arg_config_file c \<noteq> NULL then parse_config_file (dispatch P) loader (arg_config_file c) r w
      else Some (UL_OK, w)) = Some (UL_OK, w')"
    "program_step r sd st (file_settings f) B B' (file_flag f ''sd_socket:use_socket'' en1) fd
       (file_flag f ''stdout:use_stdout'' en2) w w'"
proof -
  obtain c where c: "arguments_of q w = Some c" "text_at (get_member Config c) (texts (command_line evs) Config) w"
    using cli by (rule settings_atE) blast
  show ?thesis
  proof (cases f)
    case None
    then have "arg_config_file c = NULL" using c(2) f(1) by (auto simp: loaded_def text_at_def split: option.splits)
    then show ?thesis using that [of c w B] c(1) None at p by (simp add: program_step_def plugged_def)
  next
    case (Some ini)
    then obtain name where name: "texts (command_line evs) Config = Some name" "loader name (ext w) = Some ini"
      using f(1) by (auto simp: loaded_def)
    have path: "cstr (arg_config_file c) w = Some name" "arg_config_file c \<noteq> NULL"
      using c(2) name(1) text_at_cstr by (force simp: text_at_def)+
    obtain w' B' where "parse_config_file (dispatch P) loader (arg_config_file c) r w = Some (UL_OK, w')"
      "program_step r sd st (config_settings ini) B B'
        (configured (ini_boolean ini ''sd_socket:use_socket'' (- 1)) en1) fd
        (configured (ini_boolean ini ''stdout:use_stdout'' (- 1)) en2) w w'"
      by (rule parse_config_file_spec [where loader = loader, OF path(1) name(2) f(2) [OF Some] at p mem])
    then show ?thesis using that [of c w' B'] c(1) Some path(2) by simp
  qed
qed

lemma line_step_frame:
  assumes q: "settings_at q d D w" and st: "line_step args sd st c B B' bs ts en1 fd en2 w w'"
    and p: "plugged sd st e1 f e2 w" and dis: "D \<inter> B = {}"
  shows "settings_at q d D w'" "D \<inter> B' = {}" "D \<inter> set bs = {}"
proof -
  have "D \<inter> (B \<union> program_blocks sd st w) = {}" using dis settings_program_disjoint [OF q p] by blast
  from moved_frame [OF q line_stepD(6) [OF st] this]
  show "settings_at q d D w'" "D \<inter> B' = {}" "D \<inter> set bs = {}" by blast+
qed

text \<open>The two temporary structures at the start of \<^verbatim>\<open>handle_args\<close>.\<close>

lemma structures_created:
  assumes p: "plugged sd st en1 fd en2 w" and mem: "\<forall>n. alloc_ok w n"
  obtains q r Q R w1 w2 where "create_args w = Some (q, w1)" "create_args w1 = Some (r, w2)" "q \<noteq> NULL" "r \<noteq> NULL"
    "settings_at q no_settings {Q} w2" "settings_at r no_settings {R} w2" "Q \<noteq> R" "moved {} {Q, R} w w2" "heap_only w w2"
    "plugged sd st en1 fd en2 w2" "program_blocks sd st w2 = program_blocks sd st w" "\<forall>n. alloc_ok w2 n"
proof -
  have wf: "world_wf w" using p by (simp add: plugged_def)
  obtain w1 where w1: "create_args w = Some (Ptr (brk w), w1)" "settings_at (Ptr (brk w)) no_settings {brk w} w1"
      "moved {} {brk w} w w1" "heap_only w w1"
    using create_args_spec [OF wf] mem by blast
  have mem1: "\<forall>n. alloc_ok w1 n" using mem movedD(2) [OF w1(3)] by simp
  obtain w2 where w2: "create_args w1 = Some (Ptr (brk w1), w2)" "settings_at (Ptr (brk w1)) no_settings {brk w1} w2"
      "moved {} {brk w1} w1 w2" "heap_only w1 w2"
    using create_args_spec [OF movedD(1) [OF w1(3)]] mem1 by blast
  have q: "settings_at (Ptr (brk w)) no_settings {brk w} w2" "brk w \<noteq> brk w1"
    using moved_frame [OF w1(2) w2(3)] by auto
  have mv: "moved {} {brk w, brk w1} w w2"
    using moved_trans [OF w1(3)] moved_more [OF w2(3), of "{brk w}"] by (simp add: insert_commute)
  note ho = heap_only_trans [OF w1(4) w2(4)]
  note p2 = plugged_moved [OF p mv same_statics_heap_only [OF ho]]
  show thesis
    by (rule that [OF w1(1) w2(1) _ _ q(1) w2(2) q(2) mv ho])
      (use p2 mem movedD(2) [OF mv] in simp_all)
qed

text \<open>
  \<^verbatim>\<open>handle_args\<close>: the settings are the given ones, overridden by those of the file, overridden by those of the
  command line; the flags of the modules are those of the command line, overridden by the file. The two
  temporary structures are freed; what is lost are the texts the line has replaced.
\<close>

lemma handle_args_spec:
  assumes ok: "accepted evs" and at: "settings_at args c B w"
    and p: "plugged sd st False fd False w" and mem: "\<forall>n. alloc_ok w n"
    and f: "loaded loader evs (ext w) = map_option Some f" "\<And>ini. f = Some ini \<Longrightarrow> ini_ok ini"
  obtains w' B' c' bs where "handle_args (dispatch P) loader evs args w = Some (Inr UL_OK, w')"
    "c' = override (override c (file_settings f)) (command_line evs)"
    "settings_at args c' B' w'" "plugged sd st (use_socket f evs) fd (use_stdout f evs) w'"
    "moved (B \<union> program_blocks sd st w) (B' \<union> set bs \<union> program_blocks sd st w) w w'"
    "lost bs (replaced_texts no_settings evs) w'" "set bs \<inter> (B' \<union> program_blocks sd st w) = {}"
    "program_blocks sd st w' = program_blocks sd st w" "g_is_debug w' = (verbose c' = Yes)"
    "ext w' = ext w" "actions w' = actions w"
proof -
  let ?P = "program_blocks sd st w" and ?cli = "command_line evs" and ?conf = "file_settings f"
  obtain q r Q R w1 w2 where s: "create_args w = Some (q, w1)" "create_args w1 = Some (r, w2)" "q \<noteq> NULL" "r \<noteq> NULL"
    and qr: "settings_at q no_settings {Q} w2" "settings_at r no_settings {R} w2" "Q \<noteq> R"
    and mv2: "moved {} {Q, R} w w2" and ho2: "heap_only w w2"
    and p2: "plugged sd st False fd False w2" "program_blocks sd st w2 = ?P" and mem2: "\<forall>n. alloc_ok w2 n"
    by (rule structures_created [OF p mem])
  have at2: "settings_at args c B w2" "B \<inter> {Q, R} = {}" using moved_frame [OF at mv2] by simp_all
  obtain w3 C3 bs where w3: "argp_parse evs q w2 = Some (None, w3)"
      "line_step q sd st ?cli {Q} C3 bs (replaced_texts no_settings evs) (Opt 350 None \<in> set evs) fd
         (Opt 300 None \<in> set evs) w2 w3"
    by (rule argp_parse_spec [OF ok qr(1) p2(1) mem2]) (simp add: command_line_def)
  note s3 = line_stepD [OF w3(2), unfolded p2(2)] and mem3 = line_step_memory [OF w3(2) mem2]
  have at3: "settings_at args c B w3" "B \<inter> C3 = {}" "B \<inter> set bs = {}"
    using line_step_frame [OF at2(1) w3(2) p2(1)] at2(2) by simp_all
  have conf3: "settings_at r no_settings {R} w3" "{R} \<inter> C3 = {}" "{R} \<inter> set bs = {}"
    using line_step_frame [OF qr(2) w3(2) p2(1)] qr(3) by simp_all
  have x3: "ext w3 = ext w" using heap_only_frame(2) [OF s3(3)] heap_only_frame(2) [OF ho2] by simp
  obtain cl w4 F4 where w4: "arguments_of q w3 = Some cl"
    "(if arg_config_file cl \<noteq> NULL then parse_config_file (dispatch P) loader (arg_config_file cl) r w3
      else Some (UL_OK, w3)) = Some (UL_OK, w4)"
    "program_step r sd st ?conf {R} F4 (use_socket f evs) fd (use_stdout f evs) w3 w4"
    unfolding use_socket_def use_stdout_def
    by (rule config_phase [OF s3(1) conf3(1) _ s3(2) mem3, where f = f and loader = loader and P = P]) (use f x3 conf3(2) in auto)
  note s4 = program_stepD [OF w4(3)] and mem4 = program_step_memory [OF w4(3) mem3]
  have mv4: "moved ({R} \<union> ?P) (F4 \<union> ?P) w3 w4" using program_step_moved [OF w4(3)] s3(4) by simp
  have P4: "program_blocks sd st w4 = ?P" using w4(3) s3(4) by (simp add: program_step_def)
  have l4: "lost bs (replaced_texts no_settings evs) w4" "set bs \<inter> (F4 \<union> ?P) = {}"
    using lost_frame [OF s3(7) mv4] s3(8) conf3(3) by blast+
  have at4: "settings_at args c B w4" "B \<inter> F4 = {}"
    using program_step_frame [OF at3(1) w4(3) s3(2)] at2(2) by auto
  have cli4: "settings_at q ?cli C3 w4" "C3 \<inter> F4 = {}"
    using program_step_frame [OF s3(1) w4(3) s3(2)] conf3(2) by auto
  have wf4: "world_wf w4" using s4(2) by (simp add: plugged_def)
  obtain w5 B5 where w5: "merge_config args r w4 = Some w5" "heap_only w4 w5" "moved B B5 w4 w5"
      "merging args (override c ?conf) B5 r ?conf F4 w5"
    by (rule merge_config_spec [of args c B r ?conf F4 w4])
      (use at4 s4(1) wf4 mem4 in \<open>simp add: merging_def\<close>)
  have at5: "settings_at args (override c ?conf) B5 w5" "settings_at r ?conf F4 w5" "B5 \<inter> F4 = {}"
    and mem5: "\<forall>n. alloc_ok w5 n" and wf5: "world_wf w5" using w5(4) by (simp_all add: merging_def)
  have cli5: "settings_at q ?cli C3 w5" "C3 \<inter> B5 = {}"
    using moved_frame [OF cli4(1) w5(3)] at3(2) by auto
  have p5: "plugged sd st (use_socket f evs) fd (use_stdout f evs) w5" "program_blocks sd st w5 = ?P"
    using plugged_settings_step [OF s4(2) at4(1) w5(3,2)] P4 by simp_all
  have l5: "lost bs (replaced_texts no_settings evs) w5" "set bs \<inter> B5 = {}"
    using lost_frame [OF l4(1) w5(3)] at3(3) by blast+
  let ?w6 = "freed F4 w5"
  have f6: "free_args r w5 = Some ?w6" by (rule free_args_spec [OF at5(2)])
  note mv6 = moved_freed [OF wf5, of F4]
  have at6: "settings_at args (override c ?conf) B5 ?w6" using settings_moved [OF at5(1) mv6 at5(3)] .
  have cli6: "settings_at q ?cli C3 ?w6" using settings_moved [OF cli5(1) mv6 cli4(2)] .
  have p6: "plugged sd st (use_socket f evs) fd (use_stdout f evs) ?w6" "program_blocks sd st ?w6 = ?P"
    using plugged_moved [OF p5(1) mv6] settings_program_disjoint [OF at5(2) p5(1)] p5(2) by simp_all
  have l6: "lost bs (replaced_texts no_settings evs) ?w6" using lost_frame(1) [OF l5(1) mv6] l4(2) by blast
  let ?c' = "override (override c ?conf) ?cli"
  obtain w7 B7 where w7: "merge_config args q ?w6 = Some w7" "heap_only ?w6 w7" "moved B5 B7 ?w6 w7"
      "merging args ?c' B7 q ?cli C3 w7"
    by (rule merge_config_spec [of args "override c ?conf" B5 q ?cli C3 ?w6])
      (use at6 cli6 cli5(2) wf5 mem5 in \<open>auto simp: merging_def\<close>)
  have at7: "settings_at args ?c' B7 w7" "settings_at q ?cli C3 w7" "B7 \<inter> C3 = {}"
    and wf7: "world_wf w7" using w7(4) by (simp_all add: merging_def)
  have p7: "plugged sd st (use_socket f evs) fd (use_stdout f evs) w7" "program_blocks sd st w7 = ?P"
    using plugged_settings_step [OF p6(1) at6 w7(3,2)] p6(2) by simp_all
  have l7: "lost bs (replaced_texts no_settings evs) w7" "set bs \<inter> B7 = {}"
    using lost_frame [OF l6 w7(3)] l5(2) by blast+
  let ?w8 = "freed C3 w7"
  have f8: "free_args q w7 = Some ?w8" by (rule free_args_spec [OF at7(2)])
  note mv8 = moved_freed [OF wf7, of C3]
  have at8: "settings_at args ?c' B7 ?w8" using settings_moved [OF at7(1) mv8 at7(3)] .
  have p8: "plugged sd st (use_socket f evs) fd (use_stdout f evs) ?w8" "program_blocks sd st ?w8 = ?P"
    using plugged_moved [OF p7(1) mv8] settings_program_disjoint [OF at7(2) p7(1)] p7(2) by simp_all
  have l8: "lost bs (replaced_texts no_settings evs) ?w8" using lost_frame(1) [OF l7(1) mv8] s3(8) by blast
  obtain a where a: "arguments_of args ?w8 = Some a" "verbose ?c' = arg_verbose a"
    using at8 by (rule settings_atE) blast
  let ?w9 = "?w8\<lparr>g_is_debug := (verbose ?c' = Yes)\<rparr>"
  have run: "handle_args (dispatch P) loader evs args w = Some (Inr UL_OK, ?w9)"
    unfolding handle_args_def
    using s w3(1) w4(1,2) w5(1) f6 w7(1) f8 a by (simp split del: if_split)
  have eq9: "heap ?w9 = heap ?w8" "same_statics ?w8 ?w9" "world_wf ?w9"
    using wf7 by (simp_all add: same_statics_def world_wf_def)
  have mv: "moved (B \<union> ?P) (B7 \<union> set bs \<union> ?P) w ?w8"
  proof -
    have "moved (B \<union> ?P) ({Q} \<union> ?P \<union> ({R} \<union> B)) w w2"
      using moved_more [OF mv2, of "B \<union> ?P"] by (simp add: Un_ac)
    also have "moved ({Q} \<union> ?P \<union> ({R} \<union> B)) (C3 \<union> set bs \<union> ?P \<union> ({R} \<union> B)) w2 w3" by (rule moved_more [OF s3(6)])
    also have "C3 \<union> set bs \<union> ?P \<union> ({R} \<union> B) = {R} \<union> ?P \<union> (B \<union> C3 \<union> set bs)" by blast
    also have "moved ({R} \<union> ?P \<union> (B \<union> C3 \<union> set bs)) (F4 \<union> ?P \<union> (B \<union> C3 \<union> set bs)) w3 w4" by (rule moved_more [OF mv4])
    also have "F4 \<union> ?P \<union> (B \<union> C3 \<union> set bs) = B \<union> (F4 \<union> C3 \<union> set bs \<union> ?P)" by blast
    also have "moved (B \<union> (F4 \<union> C3 \<union> set bs \<union> ?P)) (B5 \<union> (F4 \<union> C3 \<union> set bs \<union> ?P)) w4 w5" by (rule moved_more [OF w5(3)])
    also have "B5 \<union> (F4 \<union> C3 \<union> set bs \<union> ?P) = F4 \<union> (B5 \<union> C3 \<union> set bs \<union> ?P)" by blast
    also have "moved (F4 \<union> (B5 \<union> C3 \<union> set bs \<union> ?P)) ({} \<union> (B5 \<union> C3 \<union> set bs \<union> ?P)) w5 ?w6" by (rule moved_more [OF mv6])
    also have "{} \<union> (B5 \<union> C3 \<union> set bs \<union> ?P) = B5 \<union> (C3 \<union> set bs \<union> ?P)" by blast
    also have "moved (B5 \<union> (C3 \<union> set bs \<union> ?P)) (B7 \<union> (C3 \<union> set bs \<union> ?P)) ?w6 w7" by (rule moved_more [OF w7(3)])
    also have "B7 \<union> (C3 \<union> set bs \<union> ?P) = C3 \<union> (B7 \<union> set bs \<union> ?P)" by blast
    also have "moved (C3 \<union> (B7 \<union> set bs \<union> ?P)) ({} \<union> (B7 \<union> set bs \<union> ?P)) w7 ?w8" by (rule moved_more [OF mv8])
    finally show ?thesis by simp
  qed
  show ?thesis
  proof (rule that [OF run refl])
    show "settings_at args ?c' B7 ?w9" by (rule settings_at_cong [OF at8]) simp
    show "plugged sd st (use_socket f evs) fd (use_stdout f evs) ?w9" "program_blocks sd st ?w9 = ?P"
      using plugged_cong [OF p8(1) _ eq9(3,2)] p8(2) by simp_all
    show "moved (B \<union> ?P) (B7 \<union> set bs \<union> ?P) w ?w9"
      by (rule moved_same_heap [OF mv]) (use eq9 in simp_all)
    show "lost bs (replaced_texts no_settings evs) ?w9" by (rule lost_cong [OF l8]) simp
    show "set bs \<inter> (B7 \<union> ?P) = {}" using l7(2) s3(8) by blast
    show "ext ?w9 = ext w"
      using s4(3) x3 heap_only_frame(2) [OF w5(2)] heap_only_frame(2) [OF w7(2)] by simp
    have "actions w4 = actions w"
      using s4(4) did_heap_only [OF s3(3)] did_heap_only [OF ho2] by (simp add: did_def)
    then show "actions ?w9 = actions w"
      using did_heap_only [OF w5(2)] did_heap_only [OF w7(2)] by (simp add: did_def freed_def actions_def)
  qed simp
qed

text \<open>
  A configuration file that cannot be read is an error, and \<^verbatim>\<open>handle_args\<close> gives up where it is: the settings
  are as before, and the two temporary structures stay allocated.
\<close>

lemma handle_args_unreadable:
  assumes ok: "accepted evs" and at: "settings_at args c B w"
    and p: "plugged sd st False fd False w" and mem: "\<forall>n. alloc_ok w n"
    and f: "loaded loader evs (ext w) = Some None"
  obtains w' q r C b where "handle_args D loader evs args w = Some (Inr UL_ERR, w')"
    "settings_at args c B w'" "settings_at q (command_line evs) C w'" "settings_at r no_settings {b} w'"
    "B \<inter> C = {}" "b \<notin> B \<union> C"
    "plugged sd st (Opt 350 None \<in> set evs) fd (Opt 300 None \<in> set evs) w'"
    "ext w' = ext w" "actions w' = actions w" "alloc_ok w' = alloc_ok w"
proof -
  obtain q r Q R w1 w2 where s: "create_args w = Some (q, w1)" "create_args w1 = Some (r, w2)" "q \<noteq> NULL" "r \<noteq> NULL"
    and qr: "settings_at q no_settings {Q} w2" "settings_at r no_settings {R} w2" "Q \<noteq> R"
    and mv2: "moved {} {Q, R} w w2" and ho2: "heap_only w w2"
    and p2: "plugged sd st False fd False w2" and mem2: "\<forall>n. alloc_ok w2 n"
    by (rule structures_created [OF p mem])
  have at2: "settings_at args c B w2" "B \<inter> {Q, R} = {}" using moved_frame [OF at mv2] by simp_all
  obtain w3 C3 bs where w3: "argp_parse evs q w2 = Some (None, w3)"
      "line_step q sd st (command_line evs) {Q} C3 bs (replaced_texts no_settings evs) (Opt 350 None \<in> set evs) fd
         (Opt 300 None \<in> set evs) w2 w3"
    by (rule argp_parse_spec [OF ok qr(1) p2 mem2]) (simp add: command_line_def)
  note s3 = line_stepD [OF w3(2)]
  have at3: "settings_at args c B w3" "B \<inter> C3 = {}"
    using line_step_frame [OF at2(1) w3(2) p2] at2(2) by simp_all
  have conf3: "settings_at r no_settings {R} w3" "{R} \<inter> C3 = {}"
    using line_step_frame [OF qr(2) w3(2) p2] qr(3) by simp_all
  note ho3 = heap_only_trans [OF ho2 s3(3)]
  obtain cl where cl: "arguments_of q w3 = Some cl" "text_at (get_member Config cl) (texts (command_line evs) Config) w3"
    using s3(1) by (rule settings_atE) blast
  obtain name where name: "texts (command_line evs) Config = Some name" "loader name (ext w3) = None"
    using f heap_only_frame(2) [OF ho3] by (auto simp: loaded_def)
  have path: "cstr (arg_config_file cl) w3 = Some name" "arg_config_file cl \<noteq> NULL"
    using cl(2) name(1) text_at_cstr by (force simp: text_at_def)+
  have "format ''Could not parse configuration file %s'' [AStr (arg_config_file cl)] w3 \<noteq> None"
    using path by simp
  then obtain w4 where w4: "logger LOG_ERROR ''Could not parse configuration file %s'' [AStr (arg_config_file cl)] w3 = Some w4"
    using logger_defined by blast
  note fr = logger_frame [OF w4] and st4 = same_statics_did [OF did_logger [OF w4]]
  have run: "handle_args D loader evs args w = Some (Inr UL_ERR, w4)"
    unfolding handle_args_def
    using s w3(1) cl(1) path w4 name(2) by (simp add: parse_config_file_def)
  have wf3: "world_wf w3" using s3(2) by (simp add: plugged_def)
  have "g_hex_digest w4 = g_hex_digest w3" using loggerD [OF w4] by auto
  then have wf4: "world_wf w4" using wf3 fr(1,2) by (simp add: world_wf_def)
  have p4: "plugged sd st (Opt 350 None \<in> set evs) fd (Opt 300 None \<in> set evs) w4"
    using plugged_cong [OF s3(2) _ wf4 st4] fr(1) by simp
  have eq: "settings_at a d X w4" if "settings_at a d X w3" for a d X
    using that by (rule settings_at_cong) (simp add: fr(1))
  have rest: "ext w4 = ext w" "actions w4 = actions w" "alloc_ok w4 = alloc_ok w"
    using fr heap_only_frame [OF ho3] by (simp_all add: actions_def)
  show ?thesis
    by (rule that [OF run eq [OF at3(1)] eq [OF s3(1)] eq [OF conf3(1)] at3(2) _ p4 rest])
      (use at2(2) conf3(2) in blast)
qed

text \<open>An option that is given again: the last value counts, and the first one stays allocated.\<close>

context settings_member
begin

lemma copy_again:
  assumes at: "settings_at args c B w" and s: "NUL \<notin> set s" "length s < ptrdiff_max"
    and wf: "world_wf w" and mem: "\<forall>n. alloc_ok w n" and old: "texts c m = Some t"
  shows "\<exists>w' b B'. set_string upd (Lit s) args w = Some (Inr 0, w') \<and>
    settings_at args (c\<lparr>texts := (texts c)(m \<mapsto> s)\<rparr>) B' w' \<and> b \<in> B \<and> b \<notin> B' \<and> heap w' b = Some (str_obj t)"
proof -
  obtain w' B' bs where w': "set_string upd (Lit s) args w = Some (Inr 0, w')"
      "settings_at args (c\<lparr>texts := (texts c)(m \<mapsto> s)\<rparr>) B' w'" "lost bs [t] w'" "set bs \<subseteq> B - B'"
    using copy_spec [OF at s wf mem] old by (auto simp: old_text_def)
  then obtain b where "bs = [b]" "heap w' b = Some (str_obj t)" by (cases bs) (auto simp: lost_def)
  with w' show ?thesis by auto
qed

end

section \<open>A command line that ends the program\<close>

text \<open>The events behind which argp ends the program: its own exits, and an argument that is not an option.\<close>

fun line_end :: "arg_event \<Rightarrow> int option" where
  "line_end (Stop code) = Some code"
| "line_end (Arg s) = Some EX_USAGE"
| "line_end (Opt key arg) = None"

lemma parse_opt_arg: "parse_opt ARGP_KEY_ARG arg input w = Some (Inl EX_USAGE, w)"
  by (simp add: parse_opt_def)

lemma argp_run_end: "line_end ev = Some code \<Longrightarrow> argp_run kids input (ev # rest) w = Some (Some code, w)"
  by (cases ev) (simp_all add: parse_opt_arg)

text \<open>In the order of argp, the event that ends the program comes behind nothing but options.\<close>

lemma first_stop_options: "first_stop (filter (\<lambda>e. \<not> is_arg e) evs) = first_stop evs"
  by (induction evs rule: first_stop.induct) simp_all

lemma first_stop_split: "first_stop evs = Some code \<Longrightarrow> \<exists>pre rest. evs = pre @ Stop code # rest \<and> first_stop pre = None"
proof (induction evs)
  case (Cons ev evs)
  show ?case
  proof (cases "\<exists>k. ev = Stop k")
    case True
    then show ?thesis using Cons.prems by (intro exI [of _ "[]"] exI [of _ evs]) auto
  next
    case False
    then obtain pre rest where "evs = pre @ Stop code # rest" "first_stop pre = None"
      using Cons by (cases ev) auto
    then show ?thesis using False by (intro exI [of _ "ev # pre"] exI [of _ rest]) (cases ev; simp)
  qed
qed simp

lemma no_stop_accepted: "argp_events evs \<Longrightarrow> list_all (\<lambda>e. \<not> is_arg e) evs \<Longrightarrow> first_stop evs = None \<Longrightarrow> accepted evs"
  by (auto simp: accepted_iff line_exit_def list_ex_iff list_all_iff)

lemma permuted_end:
  assumes evs: "argp_events evs" and stop: "line_exit evs = Some code"
  obtains pre ev rest where "permuted evs = pre @ ev # rest" "accepted pre" "line_end ev = Some code"
proof -
  let ?os = "filter (\<lambda>e. \<not> is_arg e) evs" and ?as = "filter is_arg evs"
  have os: "argp_events ?os" "list_all (\<lambda>e. \<not> is_arg e) ?os"
    using evs by (auto simp: argp_events_def list_all_iff)
  show thesis
  proof (cases "first_stop evs")
    case None
    then obtain e where "e \<in> set ?as" "code = EX_USAGE"
      using stop by (auto simp: line_exit_def list_ex_iff split: if_splits)
    then obtain s as where as: "?as = Arg s # as" by (cases ?as; cases "hd ?as") (auto dest: filter_eq_ConsD)
    have "accepted ?os" by (rule no_stop_accepted [OF os]) (simp add: first_stop_options None)
    then show thesis using that [of ?os "Arg s" as] as \<open>code = EX_USAGE\<close> by (simp add: permuted_def)
  next
    case (Some k)
    then have "first_stop ?os = Some code" using stop by (simp add: first_stop_options line_exit_def)
    then obtain pre rest where pre: "?os = pre @ Stop code # rest" "first_stop pre = None"
      using first_stop_split by blast
    then have "accepted pre" using os by (intro no_stop_accepted) (simp_all add: argp_events_def)
    then show thesis using that [of pre "Stop code" "rest @ ?as"] pre(1) by (simp add: permuted_def)
  qed
qed

text \<open>\<^verbatim>\<open>handle_args\<close> does not return then; nothing has happened but to the heap.\<close>

lemma handle_args_ends:
  assumes evs: "argp_events evs" and stop: "line_exit evs = Some code"
    and p: "plugged sd st False fd False w" and mem: "\<forall>n. alloc_ok w n"
  obtains w' where "handle_args D loader evs args w = Some (Inl code, w')" "heap_only w w'"
proof -
  obtain q r Q R w1 w2 where s: "create_args w = Some (q, w1)" "create_args w1 = Some (r, w2)" "q \<noteq> NULL" "r \<noteq> NULL"
    and qr: "settings_at q no_settings {Q} w2" and ho2: "heap_only w w2"
    and p2: "plugged sd st False fd False w2" and mem2: "\<forall>n. alloc_ok w2 n"
    by (rule structures_created [OF p mem])
  obtain pre ev rest where split: "permuted evs = pre @ ev # rest" "accepted pre" "line_end ev = Some code"
    by (rule permuted_end [OF evs stop])
  obtain w3 B' bs where w3:
    "\<forall>rest. argp_run (parsers_of sd st w2) q (pre @ rest) w2 = argp_run (parsers_of sd st w3) q rest w3"
    "line_step q sd st (foldl told no_settings pre) {Q} B' bs (replaced_texts no_settings pre)
      (False \<or> Opt 350 None \<in> set pre) fd (False \<or> Opt 300 None \<in> set pre) w2 w3"
    using argp_run_spec [OF split(2) qr p2 mem2] by blast
  have "argp_parse evs q w2 = Some (Some code, w3)"
    by (simp add: argp_parse_run [OF p2] split(1) w3(1) argp_run_end [OF split(3)])
  then have "handle_args D loader evs args w = Some (Inl code, w3)"
    unfolding handle_args_def using s by simp
  then show thesis using that heap_only_trans [OF ho2 line_stepD(3) [OF w3(2)]] by blast
qed

end
