(* ===== verification/Program_Run.thy ===== *)
theory Program_Run
  imports Command_Line Main_Program Key_Trace
begin

text \<open>
  A run of the whole program: \<^verbatim>\<open>main\<close> of \<^verbatim>\<open>src/main.c\<close> reads the settings, checks them, initialises the modules,
  asks for the key and frees everything. \<open>main_spec\<close> puts the specifications of all components
  together.
\<close>

section \<open>The settings of a run\<close>

text \<open>What \<^verbatim>\<open>main\<close> starts with, and what is there after the command line and the file were read.\<close>

definition defaults :: settings where
  "defaults = no_settings\<lparr>port := 443, validate := Yes\<rparr>"

definition run_settings :: "dictionary option \<Rightarrow> arg_event list \<Rightarrow> settings" where
  "run_settings f evs = override (override defaults (file_settings f)) (command_line evs)"

text \<open>The first thing that is missing.\<close>

definition complaint :: "settings \<Rightarrow> string option" where
  "complaint c =
     (if texts c Host = None then Some ''No hostname given''
      else if port c = 0 then Some ''Invalid port given''
      else if texts c Key = None then Some ''No key handle given''
      else if texts c Secret = None then Some ''No secret given''
      else if texts c User = None then Some ''No username given''
      else None)"

lemma complaint_None:
  "complaint c = None \<longleftrightarrow> texts c Host \<noteq> None \<and> port c \<noteq> 0 \<and> texts c Key \<noteq> None \<and> texts c Secret \<noteq> None \<and> texts c User \<noteq> None"
  by (simp add: complaint_def)

lemma validate_args_eq:
  assumes at: "settings_at args c B w"
  shows "validate_args args w =
    Some (case complaint c of None \<Rightarrow> (EXIT_SUCCESS, w) | Some s \<Rightarrow> (EXIT_FAILURE, complain s w))"
proof -
  obtain a where a: "arguments_of args w = Some a" "\<And>m. text_at (get_member m a) (texts c m) w" "port c = arg_port a"
    using at by (rule settings_atE) blast
  have null: "get_member m a = NULL \<longleftrightarrow> texts c m = None" for m
    using a(2) [of m] by (auto simp: text_at_def split: option.splits)
  show ?thesis
    using a(1,3) null [of Host] null [of Key] null [of Secret] null [of User]
    by (simp add: validate_args_def complaint_def)
qed

lemma complain_frame:
  "heap (complain s w) = heap w" "brk (complain s w) = brk w" "ext (complain s w) = ext w"
  "g_hex_digest (complain s w) = g_hex_digest w" "did [] w (complain s w)" "actions (complain s w) = actions w"
  "world_wf (complain s w) = world_wf w"
  using did_emit [of "Print Stderr (s @ [LF])" w] by (simp_all add: complain_def) (simp_all add: emit_def world_wf_def)

lemma tear_down_spec:
  assumes at: "settings_at args c B w" and p: "plugged sd st en1 fd en2 w"
  shows "\<exists>w'. tear_down (dispatch P) args w = Some w' \<and>
    heap w' = heap (freed (B \<union> program_blocks sd st w) w) \<and> actions w' = actions w"
proof -
  let ?w1 = "freed B w"
  have f: "free_args args w = Some ?w1" by (rule free_args_spec [OF at])
  have wf: "world_wf w" using p by (simp add: plugged_def)
  have p1: "plugged sd st en1 fd en2 ?w1" "program_blocks sd st ?w1 = program_blocks sd st w"
    using plugged_moved [OF p moved_freed [OF wf] same_statics_freed settings_program_disjoint [OF at p]] by simp_all
  obtain w2 w3 where w: "free_child_parsers ?w1 = Some w2" "cleanup_modules (dispatch P) w2 = Some (UL_OK, w3)"
      "heap w3 = heap (freed (program_blocks sd st ?w1) ?w1)" "actions w3 = actions ?w1"
    using modules_torn_down [OF p1(1)] by blast
  have "heap w3 = heap (freed (B \<union> program_blocks sd st w) w)" using w(3) p1(2) by (simp add: Un_commute)
  moreover have "actions ?w1 = actions w" by (simp add: freed_def)
  ultimately show ?thesis using f w by (simp add: tear_down_def)
qed

lemma settings_ready_at:
  assumes at: "settings_at args c B w" and mem: "\<forall>n. alloc_ok w n"
    and t: "texts c Host = Some host" "texts c Key = Some handle" "texts c Secret \<noteq> None" "texts c User \<noteq> None"
    and short: "\<And>m s. texts c m = Some s \<Longrightarrow> short s"
  obtains a where "settings_ready args a host handle w"
proof -
  obtain a where a: "arguments_of args w = Some a" "\<And>m. text_at (get_member m a) (texts c m) w"
    using at by (rule settings_atE) blast
  have str: "cstr (get_member m a) w = Some s" if "texts c m = Some s" for m s
    using a(2) [of m] that text_at_cstr by simp
  obtain k u where ku: "texts c Secret = Some k" "texts c User = Some u" using t by auto
  have "settings_ready args a host handle w"
    using a(1) mem str [OF t(1)] str [OF t(2)] str [OF ku(1)] str [OF ku(2)] short t(1,2) ku
    by (auto simp: settings_ready_def args_ready_def)
  then show ?thesis by (rule that)
qed

text \<open>The message of an error is printed as a format.\<close>

lemma pieces_plain: "CHR ''%'' \<notin> set s \<Longrightarrow> pieces s = map Plain s"
  by (induction s) auto

lemma vformat_plain: "vformat (map Plain s) [] w = Some s"
  by (induction s) auto

lemma error_logged:
  assumes "CHR ''%'' \<notin> set errno_text"
  shows "\<exists>w'. logger LOG_ERROR (ul_error errno_text (err_code err)) [] w = Some w' \<and> heap w' = heap w \<and>
    actions w' = actions w"
proof -
  have "CHR ''%'' \<notin> set (ul_error errno_text (err_code err))" using assms by (cases err) (simp_all add: ul_error_def)
  then have "format (ul_error errno_text (err_code err)) [] w \<noteq> None" by (simp add: pieces_plain vformat_plain)
  from logger_defined [OF this, of LOG_ERROR] obtain w' where
    "logger LOG_ERROR (ul_error errno_text (err_code err)) [] w = Some w'" by blast
  then show ?thesis using logger_frame(1,8) by blast
qed

section \<open>The phases of main\<close>

lemma start_wf: "world_wf (start allocs x)"
  by (simp add: start_def world_wf_def)

text \<open>A program that can start: no modules, and memory.\<close>

definition startable :: "'e world \<Rightarrow> bool" where
  "startable w \<longleftrightarrow> world_wf w \<and> registry [] [] w \<and> (\<forall>n. alloc_ok w n)"

text \<open>Up to the registration of the modules.\<close>

lemma main_registers:
  assumes w: "startable w"
  obtains args a w1 w2 sd w3 w4 st w5 w6 where
    "create_args w = Some (args, w1)" "args \<noteq> NULL" "arguments_of args w1 = Some a"
    "assign args (Arguments (a\<lparr>arg_port := 443, arg_validate := Yes\<rparr>)) w1 = Some w2"
    "get_mod_sd_socket w2 = Some (sd, w3)" "register_module sd w3 = Some (UL_OK, w4)"
    "get_mod_stdout w4 = Some (st, w5)" "register_module st w5 = Some (UL_OK, w6)"
    "settings_at args defaults {brk w} w6" "plugged sd st False 0 False w6"
    "moved {} ({brk w} \<union> program_blocks sd st w6) w w6" "alloc_ok w6 = alloc_ok w" "ext w6 = ext w"
    "trace w6 = trace w"
proof -
  have wf: "world_wf w" and reg: "registry [] [] w" and mem: "\<forall>n. alloc_ok w n"
    using w by (simp_all add: startable_def)
  obtain w1 where w1: "create_args w = Some (Ptr (brk w), w1)" "settings_at (Ptr (brk w)) no_settings {brk w} w1"
      "moved {} {brk w} w w1" "heap_only w w1"
    using create_args_spec [OF wf] mem by blast
  obtain p a where a: "Ptr (brk w) = Ptr p" "heap w1 p = Some (Arguments a)" "arguments_of (Ptr (brk w)) w1 = Some a"
      "port no_settings = arg_port a" "validate no_settings = arg_validate a" "verbose no_settings = arg_verbose a"
    using w1(2) by (rule settings_atE) blast
  let ?a = "a\<lparr>arg_port := 443, arg_validate := Yes\<rparr>"
  let ?w2 = "w1\<lparr>heap := (heap w1)(p \<mapsto> Arguments ?a)\<rparr>"
  have eq: "no_settings\<lparr>port := arg_port ?a, validate := arg_validate ?a, verbose := arg_verbose ?a\<rparr> = defaults"
    using a by (intro settings_eqI) (simp_all add: defaults_def)
  from write_value [OF w1(2) a(1,2), of ?a] movedD(1) [OF w1(3)] have
    w2: "settings_at (Ptr (brk w)) defaults {brk w} ?w2" "moved {brk w} {brk w} w1 ?w2" "heap_only w1 ?w2"
    unfolding eq by simp_all
  have asg: "assign (Ptr (brk w)) (Arguments ?a) w1 = Some ?w2" using a by simp
  have mv2: "moved {} {brk w} w ?w2" by (rule moved_trans [OF w1(3) w2(2)])
  have ss2: "same_statics w ?w2"
    using same_statics_trans same_statics_heap_only [OF w1(4)] same_statics_heap_only [OF w2(3)] by blast
  have reg2: "registry [] [] ?w2" using registry_statics [OF reg ss2 mv2] by simp
  have mem2: "\<forall>n. alloc_ok ?w2 n" using mem movedD(2) [OF mv2] by simp
  obtain sd w3 w4 st w5 w6 where m:
    "get_mod_sd_socket ?w2 = Some (sd, w3)" "register_module sd w3 = Some (UL_OK, w4)"
    "get_mod_stdout w4 = Some (st, w5)" "register_module st w5 = Some (UL_OK, w6)"
    "plugged sd st False 0 False w6" "moved {} (program_blocks sd st w6) ?w2 w6" "registering ?w2 w6"
    by (rule modules_registered [OF reg2 movedD(1) [OF mv2] mem2])
  have at6: "settings_at (Ptr (brk w)) defaults {brk w} w6" using settings_moved [OF w2(1) m(6)] by simp
  have r6: "alloc_ok w6 = alloc_ok w" "ext w6 = ext w" "trace w6 = trace w"
    using m(7) movedD(2) [OF mv2] heap_only_frame(1,2) [OF heap_only_trans [OF w1(4) w2(3)]]
    by (simp_all add: registering_def)
  have mv: "moved {} ({brk w} \<union> program_blocks sd st w6) w w6"
    using moved_trans [OF mv2] moved_more [OF m(6), of "{brk w}"] by (simp add: Un_commute)
  show ?thesis by (rule that [OF w1(1) _ a(3) asg m(1-4) at6 m(5) mv r6]) simp
qed

text \<open>Up to the end of \<^verbatim>\<open>handle_args\<close>.\<close>

lemma main_reads_settings:
  assumes w: "startable w" and ok: "accepted evs"
    and f: "loaded loader evs (ext w) = map_option Some f" "\<And>ini. f = Some ini \<Longrightarrow> ini_ok ini"
  obtains args a w1 w2 sd w3 w4 st w5 w6 w7 B bs where
    "create_args w = Some (args, w1)" "args \<noteq> NULL" "arguments_of args w1 = Some a"
    "assign args (Arguments (a\<lparr>arg_port := 443, arg_validate := Yes\<rparr>)) w1 = Some w2"
    "get_mod_sd_socket w2 = Some (sd, w3)" "register_module sd w3 = Some (UL_OK, w4)"
    "get_mod_stdout w4 = Some (st, w5)" "register_module st w5 = Some (UL_OK, w6)"
    "handle_args (dispatch P) loader evs args w6 = Some (Inr UL_OK, w7)"
    "settings_at args (run_settings f evs) B w7" "plugged sd st (use_socket f evs) 0 (use_stdout f evs) w7"
    "moved {} (B \<union> program_blocks sd st w7 \<union> set bs) w w7" "lost bs (replaced_texts no_settings evs) w7"
    "set bs \<inter> (B \<union> program_blocks sd st w7) = {}" "ext w7 = ext w" "actions w7 = actions w"
    "g_is_debug w7 = (verbose (run_settings f evs) = Yes)"
proof -
  obtain args a w1 w2 sd w3 w4 st w5 w6 where m:
    "create_args w = Some (args, w1)" "args \<noteq> NULL" "arguments_of args w1 = Some a"
    "assign args (Arguments (a\<lparr>arg_port := 443, arg_validate := Yes\<rparr>)) w1 = Some w2"
    "get_mod_sd_socket w2 = Some (sd, w3)" "register_module sd w3 = Some (UL_OK, w4)"
    "get_mod_stdout w4 = Some (st, w5)" "register_module st w5 = Some (UL_OK, w6)"
    and at6: "settings_at args defaults {brk w} w6" "plugged sd st False 0 False w6"
    and mv6: "moved {} ({brk w} \<union> program_blocks sd st w6) w w6"
    and r6: "alloc_ok w6 = alloc_ok w" "ext w6 = ext w" "trace w6 = trace w"
    by (rule main_registers [OF w])
  obtain w7 B c' bs where h: "handle_args (dispatch P) loader evs args w6 = Some (Inr UL_OK, w7)"
    "c' = override (override defaults (file_settings f)) (command_line evs)"
    "settings_at args c' B w7" "plugged sd st (use_socket f evs) 0 (use_stdout f evs) w7"
    "moved ({brk w} \<union> program_blocks sd st w6) (B \<union> set bs \<union> program_blocks sd st w6) w6 w7"
    "lost bs (replaced_texts no_settings evs) w7" "set bs \<inter> (B \<union> program_blocks sd st w6) = {}"
    "program_blocks sd st w7 = program_blocks sd st w6" "g_is_debug w7 = (verbose c' = Yes)" "ext w7 = ext w6"
    "actions w7 = actions w6"
    by (rule handle_args_spec [OF ok at6, where loader = loader and f = f and P = P])
      (use w r6 f in \<open>auto simp: startable_def\<close>)
  have mv: "moved {} (B \<union> program_blocks sd st w7 \<union> set bs) w w7"
    using moved_trans [OF mv6 h(5)] h(8) by (simp add: Un_ac)
  show ?thesis
    by (rule that [OF m h(1) _ h(4) mv h(6)]) (use h r6 in \<open>simp_all add: run_settings_def actions_def\<close>)
qed

text \<open>A command line that ends the program ends \<^verbatim>\<open>main\<close>.\<close>

lemma main_ends:
  assumes w: "startable w" and evs: "argp_events evs" and stop: "line_exit evs = Some code"
  shows "\<exists>w'. main L J P loader errno_text fuel evs w = Some (Some code, w') \<and> ext w' = ext w \<and> trace w' = trace w"
proof -
  obtain args a w1 w2 sd w3 w4 st w5 w6 where m:
    "create_args w = Some (args, w1)" "args \<noteq> NULL" "arguments_of args w1 = Some a"
    "assign args (Arguments (a\<lparr>arg_port := 443, arg_validate := Yes\<rparr>)) w1 = Some w2"
    "get_mod_sd_socket w2 = Some (sd, w3)" "register_module sd w3 = Some (UL_OK, w4)"
    "get_mod_stdout w4 = Some (st, w5)" "register_module st w5 = Some (UL_OK, w6)"
    and p6: "plugged sd st False 0 False w6" and r6: "alloc_ok w6 = alloc_ok w" "ext w6 = ext w" "trace w6 = trace w"
    by (rule main_registers [OF w])
  obtain w' where w': "handle_args (dispatch P) loader evs args w6 = Some (Inl code, w')" "heap_only w6 w'"
    by (rule handle_args_ends [OF evs stop p6, where D = "dispatch P" and loader = loader and args = args])
      (use w r6 in \<open>auto simp: startable_def\<close>)
  then show ?thesis unfolding main_def Let_def using m r6 heap_only_frame(1,2) [OF w'(2)] by simp
qed

text \<open>
  A configuration file that cannot be read: \<^verbatim>\<open>main\<close> goes on with its default settings, which have no host, and
  ends. The two structures of \<^verbatim>\<open>handle_args\<close> are still there, the first one with the values of the command line.
\<close>

lemma main_unreadable:
  assumes w: "startable w" and ok: "accepted evs" and f: "loaded loader evs (ext w) = Some None"
  shows "\<exists>w' q r C b. main L J P loader errno_text fuel evs w = Some (Some EXIT_FAILURE, w') \<and> actions w' = actions w \<and>
    settings_at q (command_line evs) C w' \<and> settings_at r no_settings {b} w' \<and> b \<notin> C"
proof -
  obtain args a w1 w2 sd w3 w4 st w5 w6 where m:
    "create_args w = Some (args, w1)" "args \<noteq> NULL" "arguments_of args w1 = Some a"
    "assign args (Arguments (a\<lparr>arg_port := 443, arg_validate := Yes\<rparr>)) w1 = Some w2"
    "get_mod_sd_socket w2 = Some (sd, w3)" "register_module sd w3 = Some (UL_OK, w4)"
    "get_mod_stdout w4 = Some (st, w5)" "register_module st w5 = Some (UL_OK, w6)"
    and at6: "settings_at args defaults {brk w} w6" and p6: "plugged sd st False 0 False w6"
    and r6: "alloc_ok w6 = alloc_ok w" "ext w6 = ext w" "trace w6 = trace w"
    by (rule main_registers [OF w])
  obtain w7 q r C b where h: "handle_args (dispatch P) loader evs args w6 = Some (Inr UL_ERR, w7)"
    "settings_at args defaults {brk w} w7" "settings_at q (command_line evs) C w7" "settings_at r no_settings {b} w7"
    "{brk w} \<inter> C = {}" "b \<notin> {brk w} \<union> C"
    "plugged sd st (Opt 350 None \<in> set evs) 0 (Opt 300 None \<in> set evs) w7" "actions w7 = actions w6"
    by (rule handle_args_unreadable [OF ok at6 p6, where D = "dispatch P" and loader = loader])
      (use w r6 f in \<open>auto simp: startable_def\<close>)
  let ?w8 = "complain ''No hostname given'' w7"
  have "complaint defaults = Some ''No hostname given''" by (simp add: complaint_def defaults_def no_settings_def)
  then have v: "validate_args args w7 = Some (EXIT_FAILURE, ?w8)" using validate_args_eq [OF h(2)] by simp
  have same: "settings_at s d X ?w8" if "settings_at s d X w7" for s d X
    using that by (rule settings_at_cong) (simp add: complain_frame)
  have wf7: "world_wf w7" using h(7) by (simp add: plugged_def)
  have p8: "plugged sd st (Opt 350 None \<in> set evs) 0 (Opt 300 None \<in> set evs) ?w8"
    using plugged_cong [OF h(7), of ?w8] wf7 same_statics_did [OF complain_frame(5) [of w7]] by (simp add: complain_frame)
  obtain w9 where w9: "tear_down (dispatch P) args ?w8 = Some w9"
      "heap w9 = heap (freed ({brk w} \<union> program_blocks sd st ?w8) ?w8)" "actions w9 = actions ?w8"
    using tear_down_spec [OF same [OF h(2)] p8] by blast
  have run: "main L J P loader errno_text fuel evs w = Some (Some EXIT_FAILURE, w9)"
    unfolding main_def Let_def using m h(1) v w9(1) by simp
  have keep: "settings_at s d X w9" if "settings_at s d X w7" "{brk w} \<inter> X = {}" for s d X
  proof (rule settings_at_cong [OF same [OF that(1)]])
    fix b assume "b \<in> X"
    then show "heap w9 b = heap ?w8 b"
      using that(2) settings_program_disjoint [OF same [OF that(1)] p8] by (auto simp: w9(2))
  qed
  have "actions w6 = actions w" using r6(3) by (simp add: actions_def)
  then have "actions w9 = actions w" using w9(3) h(8) by (simp add: complain_frame)
  moreover have "{brk w} \<inter> {b} = {}" "b \<notin> C" using h(6) by auto
  ultimately show ?thesis using run keep [OF h(3,5)] keep [OF h(4)] by blast
qed

text \<open>What a run leaves behind: one block for each of the texts \<open>ts\<close>, and nothing else.\<close>

definition leaks :: "string list \<Rightarrow> 'e world \<Rightarrow> 'e world \<Rightarrow> bool" where
  "leaks ts w w' \<longleftrightarrow>
     (\<exists>bs. lost bs ts w' \<and> (\<forall>b. if b \<in> set bs then heap w b = None else heap w' b = heap w b))"

lemma leaks_Nil [simp]: "leaks [] w w' \<longleftrightarrow> heap w' = heap w"
  by (auto simp: leaks_def lost_def fun_eq_iff)

lemma leaks_back:
  assumes mv: "moved {} (B \<union> set bs) w w'" and l: "lost bs ts w'" "set bs \<inter> B = {}"
    and h: "heap w'' = heap (freed B w')"
  shows "leaks ts w w''"
  unfolding leaks_def
proof (intro exI [of _ bs] conjI allI)
  show "lost bs ts w''" by (rule lost_cong [OF l(1)]) (use l(2) in \<open>auto simp: h\<close>)
  show "if b \<in> set bs then heap w b = None else heap w'' b = heap w b" for b
    using movedD(3,5) [OF mv, of b] by (auto simp: h)
qed

lemma leaks_same_heap: "leaks ts w w' \<Longrightarrow> heap w'' = heap w' \<Longrightarrow> leaks ts w w''"
  unfolding leaks_def using lost_cong [of _ ts w' w''] by (elim exE) (fastforce split: if_splits)

lemma plugged_same_heap:
  "plugged sd st en1 fd en2 w \<Longrightarrow> heap w' = heap w \<Longrightarrow> world_wf w' \<Longrightarrow> same_statics w w' \<Longrightarrow>
   plugged sd st en1 fd en2 w' \<and> program_blocks sd st w' = program_blocks sd st w"
  using plugged_cong by metis

lemma settings_same_heap: "settings_at args c B w \<Longrightarrow> heap w' = heap w \<Longrightarrow> settings_at args c B w'"
  using settings_at_cong by metis
text \<open>
  What a run of the program comes to: the exit status and the events, or no status while the server
  still asks to wait. \<open>n\<close> is the number of descriptors systemd passed.
\<close>

definition run_outcome ::
  "'e lib \<Rightarrow> cjson \<Rightarrow> 'e platform \<Rightarrow> nat \<Rightarrow> settings \<Rightarrow> bool \<Rightarrow> bool \<Rightarrow> int \<Rightarrow> 'e \<Rightarrow> int option \<Rightarrow> event list \<Rightarrow> bool" where
  "run_outcome L J P fuel c en1 en2 n x code es \<longleftrightarrow>
     (if complaint c \<noteq> None \<or> sd_socket_init_err en1 n \<noteq> UL_OK then code = Some EXIT_FAILURE \<and> es = []
      else genuine L es x \<and>
        (case code of
           None \<Rightarrow> \<exists>e t i es'. created J (the (texts c Host)) (the (texts c Key)) e t i \<and>
             waiting J (show_url (the (texts c Host)) i) fuel es' \<and> es = [Curl_global_init, Perform e t] @ es'
         | Some k \<Rightarrow> \<exists>err. key_protocol J (the (texts c Host)) (the (texts c Key))
             (delivered P en1 (if en1 \<and> n = 1 then SD_LISTEN_FDS_START else 0) en2) es err \<and>
             k = (if err = UL_OK then EXIT_SUCCESS else EXIT_FAILURE)))"

lemma run_outcome_ended:
  assumes "complaint c = None" "sd_socket_init_err en1 n = UL_OK" "genuine L es x"
    "texts c Host = Some host" "texts c Key = Some handle"
    "key_protocol J host handle (delivered P en1 (if en1 \<and> n = 1 then SD_LISTEN_FDS_START else 0) en2) es err"
  shows "run_outcome L J P fuel c en1 en2 n x (Some (if err = UL_OK then EXIT_SUCCESS else EXIT_FAILURE)) es"
  unfolding run_outcome_def assms(1,2,4,5) using assms(3,6)
  by (simp only: simp_thms if_False option.case option.sel) blast

text \<open>
  What a run relies on: memory, libraries that work, what argp, iniparser and systemd document of their results, and
  texts of at most a million characters. \<open>inputs_ok\<close> adds that the command line has nothing but options, and that \<open>f\<close>
  is the configuration file it names, if it names one.
\<close>

definition environment_ok ::
  "'e lib \<Rightarrow> cjson \<Rightarrow> 'e platform \<Rightarrow> (string \<Rightarrow> 'e \<Rightarrow> dictionary option) \<Rightarrow> string \<Rightarrow> arg_event list \<Rightarrow> 'e world \<Rightarrow> bool" where
  "environment_ok L J P loader errno_text evs w \<longleftrightarrow>
     startable w \<and> healthy L \<and> json_ok J \<and> names_ok P \<and> CHR ''%'' \<notin> set errno_text \<and> argp_events evs \<and>
     (\<forall>m s. texts (command_line evs) m = Some s \<longrightarrow> short s) \<and>
     (\<forall>ini. loaded loader evs (ext w) = Some (Some ini) \<longrightarrow>
        ini_ok ini \<and> (\<forall>m s. config_text ini m = Some s \<longrightarrow> short s))"

definition inputs_ok ::
  "'e lib \<Rightarrow> cjson \<Rightarrow> 'e platform \<Rightarrow> (string \<Rightarrow> 'e \<Rightarrow> dictionary option) \<Rightarrow> string \<Rightarrow> dictionary option \<Rightarrow>
   arg_event list \<Rightarrow> 'e world \<Rightarrow> bool" where
  "inputs_ok L J P loader errno_text f evs w \<longleftrightarrow>
     environment_ok L J P loader errno_text evs w \<and> accepted evs \<and> loaded loader evs (ext w) = map_option Some f"

lemma inputs_okD:
  assumes "inputs_ok L J P loader errno_text f evs w"
  shows "startable w" "healthy L" "json_ok J" "names_ok P" "CHR ''%'' \<notin> set errno_text" "accepted evs"
    "loaded loader evs (ext w) = map_option Some f" "f = Some ini \<Longrightarrow> ini_ok ini"
    "texts (run_settings f evs) m = Some s \<Longrightarrow> short s"
proof -
  note e = assms [unfolded inputs_ok_def environment_ok_def]
  show "startable w" "healthy L" "json_ok J" "names_ok P" "CHR ''%'' \<notin> set errno_text" "accepted evs"
    "loaded loader evs (ext w) = map_option Some f" "f = Some ini \<Longrightarrow> ini_ok ini"
    using e by auto
  assume "texts (run_settings f evs) m = Some s"
  then have "texts (command_line evs) m = Some s \<or> texts (file_settings f) m = Some s"
    by (auto simp: run_settings_def override_def defaults_def no_settings_def map_add_def split: option.splits)
  then show "short s"
  proof
    assume "texts (file_settings f) m = Some s"
    then show ?thesis using e by (cases f) (auto simp: no_settings_def config_settings_def)
  qed (use e in blast)
qed

text \<open>The part of \<^verbatim>\<open>main\<close> behind \<^verbatim>\<open>handle_args\<close>.\<close>

definition after_settings ::
  "'e lib \<Rightarrow> cjson \<Rightarrow> 'e platform \<Rightarrow> string \<Rightarrow> nat \<Rightarrow> ptr \<Rightarrow> 'e world \<Rightarrow> (int option, 'e) res" where
  "after_settings L J P errno_text fuel args w = do {
    (valid, w) \<leftarrow> validate_args args w;
    if valid \<noteq> EXIT_SUCCESS then do { w \<leftarrow> tear_down (dispatch P) args w; Some (Some EXIT_FAILURE, w) }
    else do {
      (err, w) \<leftarrow> initialize_modules (dispatch P) w;
      if err \<noteq> UL_OK then do {
        w \<leftarrow> tear_down (dispatch P) args w;
        w \<leftarrow> logger LOG_ERROR (ul_error errno_text (err_code err)) [] w;
        Some (Some EXIT_FAILURE, w)
      }
      else do {
        (requested, w) \<leftarrow> request_key L J (dispatch P) fuel args w;
        case requested of
          None \<Rightarrow> Some (None, w)
        | Some err \<Rightarrow> do {
            w \<leftarrow> tear_down (dispatch P) args w;
            if err \<noteq> UL_OK then do {
              w \<leftarrow> logger LOG_ERROR (ul_error errno_text (err_code err)) [] w;
              Some (Some EXIT_FAILURE, w)
            }
            else Some (Some EXIT_SUCCESS, w)
          }
      }
    }}"

lemma main_settings:
  assumes ok: "inputs_ok L J P loader errno_text f evs w"
  obtains args w7 B bs sd st where "main L J P loader errno_text fuel evs w = after_settings L J P errno_text fuel args w7"
    "settings_at args (run_settings f evs) B w7" "plugged sd st (use_socket f evs) 0 (use_stdout f evs) w7"
    "moved {} (B \<union> program_blocks sd st w7 \<union> set bs) w w7" "lost bs (replaced_texts no_settings evs) w7"
    "set bs \<inter> (B \<union> program_blocks sd st w7) = {}" "ext w7 = ext w" "actions w7 = actions w"
    "g_is_debug w7 = (verbose (run_settings f evs) = Yes)"
proof -
  note ok' = inputs_okD [OF ok]
  obtain args a w1 w2 sd w3 w4 st w5 w6 w7 B bs where phases:
    "create_args w = Some (args, w1)" "args \<noteq> NULL" "arguments_of args w1 = Some a"
    "assign args (Arguments (a\<lparr>arg_port := 443, arg_validate := Yes\<rparr>)) w1 = Some w2"
    "get_mod_sd_socket w2 = Some (sd, w3)" "register_module sd w3 = Some (UL_OK, w4)"
    "get_mod_stdout w4 = Some (st, w5)" "register_module st w5 = Some (UL_OK, w6)"
    "handle_args (dispatch P) loader evs args w6 = Some (Inr UL_OK, w7)"
    and rest: "settings_at args (run_settings f evs) B w7" "plugged sd st (use_socket f evs) 0 (use_stdout f evs) w7"
    "moved {} (B \<union> program_blocks sd st w7 \<union> set bs) w w7" "lost bs (replaced_texts no_settings evs) w7"
    "set bs \<inter> (B \<union> program_blocks sd st w7) = {}" "ext w7 = ext w" "actions w7 = actions w"
    "g_is_debug w7 = (verbose (run_settings f evs) = Yes)"
    by (rule main_reads_settings [OF ok'(1,6,7,8), where P = P])
  have "main L J P loader errno_text fuel evs w = after_settings L J P errno_text fuel args w7"
    unfolding main_def Let_def using phases by (simp add: after_settings_def)
  then show thesis using rest by (rule that)
qed

text \<open>An error of systemd behind complete settings, with the socket module enabled.\<close>

lemma main_socket_error:
  assumes ok: "inputs_ok L J P loader errno_text f evs w" and n: "os_listen_fds P (ext w) = ((n, names), x)" "n < 0"
    and c: "complaint (run_settings f evs) = None" "use_socket f evs"
  shows "main L J P loader errno_text fuel evs w = None"
proof -
  obtain args w7 B sd st where w7: "main L J P loader errno_text fuel evs w = after_settings L J P errno_text fuel args w7"
    "settings_at args (run_settings f evs) B w7" "plugged sd st (use_socket f evs) 0 (use_stdout f evs) w7" "ext w7 = ext w"
    by (rule main_settings [OF ok])
  have "initialize_modules (dispatch P) w7 = None"
    using initialize_modules_error [of sd st 0 _ w7 P n names x] w7(3,4) c(2) n inputs_okD(4) [OF ok] by simp
  then show ?thesis using validate_args_eq [OF w7(2)] c(1) by (simp add: w7(1) after_settings_def)
qed

lemma main_safe:
  assumes ok: "inputs_ok L J P loader errno_text f evs w" and fuel: "0 < fuel"
    and n: "os_listen_fds P (ext w) = ((n, names), x)"
    and pos: "complaint (run_settings f evs) = None \<Longrightarrow> use_socket f evs \<Longrightarrow> 0 \<le> n"
    and safe: "\<And>es. main L J P loader errno_text fuel evs w = None \<Longrightarrow> complaint (run_settings f evs) = None \<Longrightarrow>
      genuine L es x \<Longrightarrow>
      stuck J (the (texts (run_settings f evs) Host)) (the (texts (run_settings f evs) Key)) es \<Longrightarrow> False"
  shows "\<exists>code w' es. main L J P loader errno_text fuel evs w = Some (code, w') \<and> actions w' = actions w @ es \<and>
    run_outcome L J P fuel (run_settings f evs) (use_socket f evs) (use_stdout f evs) n x code es \<and>
    (code \<noteq> None \<longrightarrow> leaks (replaced_texts no_settings evs) w w')"
proof -
  let ?c = "run_settings f evs" and ?e1 = "use_socket f evs" and ?e2 = "use_stdout f evs"
  let ?ts = "replaced_texts no_settings evs"
  note ok' = inputs_okD [OF ok]
  obtain args w7 B bs sd st where main: "main L J P loader errno_text fuel evs w = after_settings L J P errno_text fuel args w7"
    and at: "settings_at args ?c B w7" and p: "plugged sd st ?e1 0 ?e2 w7"
    and mv: "moved {} (B \<union> program_blocks sd st w7 \<union> set bs) w w7" and l7: "lost bs ?ts w7"
    and dis: "set bs \<inter> (B \<union> program_blocks sd st w7) = {}" and x7: "ext w7 = ext w" and ac7: "actions w7 = actions w"
    by (rule main_settings [OF ok])
  let ?P = "program_blocks sd st w7"
  have wf7: "world_wf w7" and mem7: "\<forall>n. alloc_ok w7 n"
    using movedD(1,2) [OF mv] ok'(1) by (simp_all add: startable_def)
  have torn: "\<exists>w''. tear_down (dispatch P) args w' = Some w'' \<and> leaks ?ts w w'' \<and> actions w'' = actions w'"
    if "settings_at args ?c B w'" "plugged sd st e1 fd e2 w'" "program_blocks sd st w' = ?P"
      "moved {} (B \<union> ?P \<union> set bs) w w'" "lost bs ?ts w'" for w' e1 fd e2
    using tear_down_spec [OF that(1,2), of P] leaks_back [OF that(4,5) dis] that(3) by auto
  have logged: "\<exists>w''. logger LOG_ERROR (ul_error errno_text (err_code err)) [] w' = Some w'' \<and> heap w'' = heap w' \<and>
      actions w'' = actions w'" for err and w' :: "'a world"
    by (rule error_logged) (rule ok'(5))
  have same_lost: "lost bs ?ts w''" if "lost bs ?ts w'" "heap w'' = heap w'" for w' w'' :: "'a world"
    using that lost_cong by metis
  show ?thesis
  proof (cases "complaint ?c")
    case (Some s)
    let ?w8 = "complain s w7"
    have v: "validate_args args w7 = Some (EXIT_FAILURE, ?w8)" using validate_args_eq [OF at] Some by simp
    have at8: "settings_at args ?c B ?w8" by (rule settings_same_heap [OF at]) (simp add: complain_frame)
    have p8: "plugged sd st ?e1 0 ?e2 ?w8 \<and> program_blocks sd st ?w8 = ?P"
      by (rule plugged_same_heap [OF p]) (simp_all add: complain_frame wf7 same_statics_did [OF complain_frame(5)])
    have mv8: "moved {} (B \<union> ?P \<union> set bs) w ?w8"
      by (rule moved_same_heap [OF mv]) (use complain_frame(5) [of w7 s] in \<open>simp_all add: complain_frame wf7 did_def\<close>)
    obtain w9 where w9: "tear_down (dispatch P) args ?w8 = Some w9" "leaks ?ts w w9" "actions w9 = actions ?w8"
      using torn [OF at8 p8 [THEN conjunct1] p8 [THEN conjunct2] mv8 same_lost [OF l7 complain_frame(1)]] by blast
    have "main L J P loader errno_text fuel evs w = Some (Some EXIT_FAILURE, w9)"
      unfolding main after_settings_def using v w9(1) by simp
    then show ?thesis
      using w9 ac7 Some by (intro exI [of _ "Some EXIT_FAILURE"] exI [of _ w9] exI [of _ "[]"])
        (simp add: run_outcome_def complain_frame)
  next
    case None
    then have valid: "validate_args args w7 = Some (EXIT_SUCCESS, w7)" using validate_args_eq [OF at] by simp
    let ?fd = "if ?e1 \<and> n = 1 then SD_LISTEN_FDS_START else 0" and ?err = "sd_socket_init_err ?e1 n"
    obtain w8 where w8: "initialize_modules (dispatch P) w7 = Some (?err, w8)" "plugged_step sd st ?e1 ?fd ?e2 w7 w8"
        "ext w8 = x"
      using initialize_modules_spec [OF p ok'(4), of n names x] n x7 pos None by auto
    have p8: "plugged sd st ?e1 ?fd ?e2 w8" "program_blocks sd st w8 = ?P" "did [] w7 w8" "moved ?P ?P w7 w8"
      using w8(2) by (simp_all add: plugged_step_def)
    have ac8: "actions w8 = actions w" and mem8: "\<forall>n. alloc_ok w8 n" using p8(3) ac7 mem7 by (simp_all add: did_def)
    have at8: "settings_at args ?c B w8"
      by (rule settings_moved [OF at p8(4) settings_program_disjoint [OF at p]])
    have mv8: "moved {} (B \<union> ?P \<union> set bs) w w8"
      using moved_trans [OF mv] moved_more [OF p8(4), of "B \<union> set bs"] by (simp add: Un_ac)
    have l8: "lost bs ?ts w8" using lost_frame(1) [OF l7 p8(4)] dis by blast
    show ?thesis
    proof (cases "?err = UL_OK")
      case False
      obtain w9 where w9: "tear_down (dispatch P) args w8 = Some w9" "leaks ?ts w w9" "actions w9 = actions w8"
        using torn [OF at8 p8(1,2) mv8 l8] by blast
      obtain w10 where w10: "logger LOG_ERROR (ul_error errno_text (err_code ?err)) [] w9 = Some w10"
          "heap w10 = heap w9" "actions w10 = actions w9"
        using logged by blast
      have "main L J P loader errno_text fuel evs w = Some (Some EXIT_FAILURE, w10)"
        unfolding main after_settings_def using valid w8(1) False w9(1) w10(1) by simp
      then show ?thesis
        using w9(3) w10 ac8 False leaks_same_heap [OF w9(2) w10(2)]
        by (intro exI [of _ "Some EXIT_FAILURE"] exI [of _ w10] exI [of _ "[]"]) (simp add: run_outcome_def)
    next
      case True
      obtain host handle where hh: "texts ?c Host = Some host" "texts ?c Key = Some handle"
        and su: "texts ?c Secret \<noteq> None" "texts ?c User \<noteq> None"
        using None unfolding complaint_None by auto
      obtain b where set: "settings_ready args b host handle w8"
        by (rule settings_ready_at [OF at8 mem8 hh su]) (rule ok'(9))
      have wf8: "world_wf w8" using p8(1) by (simp add: plugged_def)
      have safe8: False if "request_key L J (dispatch P) fuel args w8 = None" "genuine L es (ext w8)"
        "stuck J host handle es" for es
      proof (rule safe)
        show "main L J P loader errno_text fuel evs w = None"
          unfolding main after_settings_def using valid w8(1) True that(1) by simp
      qed (use None that(2,3) w8(3) hh in simp_all)
      obtain res w9 es where w9: "request_key L J (dispatch P) fuel args w8 = Some (res, w9)" "did es w8 w9"
          "genuine L es x"
        and o: "case res of
         None \<Rightarrow> \<exists>e t i es'. created J host handle e t i \<and> waiting J (show_url host i) fuel es' \<and>
           es = [Curl_global_init, Perform e t] @ es'
       | Some err \<Rightarrow> key_protocol J host handle (delivered P ?e1 ?fd ?e2) es err \<and> heap w9 = heap w8 \<and> world_wf w9"
        using request_key_safe [of L J w8 args b host handle sd st ?e1 ?fd ?e2 fuel P] ok'(2,3) wf8 set plugged_ready [OF p8(1)]
          fuel w8(3) safe8 by blast
      have ac9: "actions w9 = actions w @ es" using w9(2) ac8 by (simp add: did_def)
      show ?thesis
      proof (cases res)
        case None
        have "main L J P loader errno_text fuel evs w = Some (None, w9)"
          unfolding main after_settings_def using valid w8(1) True w9(1) None by simp
        moreover have "run_outcome L J P fuel ?c ?e1 ?e2 n x None es"
          using o None True \<open>complaint ?c = None\<close> w9(3) hh by (simp add: run_outcome_def)
        ultimately show ?thesis using ac9 by blast
      next
        case (Some err)
        then have o': "key_protocol J host handle (delivered P ?e1 ?fd ?e2) es err" "heap w9 = heap w8" "world_wf w9"
          using o by simp_all
        have at9: "settings_at args ?c B w9" by (rule settings_same_heap [OF at8 o'(2)])
        have p9: "plugged sd st ?e1 ?fd ?e2 w9 \<and> program_blocks sd st w9 = program_blocks sd st w8"
          by (rule plugged_same_heap [OF p8(1) o'(2,3) same_statics_did [OF w9(2)]])
        have mv9: "moved {} (B \<union> ?P \<union> set bs) w w9"
          by (rule moved_same_heap [OF mv8 o'(2) _ o'(3)]) (use w9(2) in \<open>simp add: did_def\<close>)
        obtain w10 where w10: "tear_down (dispatch P) args w9 = Some w10" "leaks ?ts w w10" "actions w10 = actions w9"
          using torn [OF at9 _ _ mv9 same_lost [OF l8 o'(2)]] p9 p8(2) by metis
        obtain w11 where w11: "logger LOG_ERROR (ul_error errno_text (err_code err)) [] w10 = Some w11"
            "heap w11 = heap w10" "actions w11 = actions w10"
          using logged by blast
        define last where "last = (if err = UL_OK then w10 else w11)"
        let ?k = "if err = UL_OK then EXIT_SUCCESS else EXIT_FAILURE"
        have "main L J P loader errno_text fuel evs w = Some (Some ?k, last)"
          unfolding main after_settings_def using valid w8(1) True w9(1) Some w10(1) w11(1) by (simp add: last_def)
        moreover have "run_outcome L J P fuel ?c ?e1 ?e2 n x (Some ?k) es"
          by (rule run_outcome_ended) (use o'(1) True \<open>complaint ?c = None\<close> w9(3) hh in simp_all)
        moreover have "leaks ?ts w last" "actions last = actions w @ es"
          using w10 w11 ac9 leaks_same_heap [OF w10(2) w11(2)] by (simp_all add: last_def)
        ultimately show ?thesis by blast
      qed
    qed
  qed
qed

text \<open>
  Without a word on the answers: the run is as above, or it has come to an answer behind which it is undefined, or to an
  error of systemd.
\<close>

lemma main_outcome:
  assumes "inputs_ok L J P loader errno_text f evs w" "0 < fuel" "os_listen_fds P (ext w) = ((n, names), x)"
  obtains (Returns) code w' es where "main L J P loader errno_text fuel evs w = Some (code, w')"
      "actions w' = actions w @ es"
      "run_outcome L J P fuel (run_settings f evs) (use_socket f evs) (use_stdout f evs) n x code es"
      "code \<noteq> None \<longrightarrow> leaks (replaced_texts no_settings evs) w w'"
    | (Undefined) es where "main L J P loader errno_text fuel evs w = None"
      "complaint (run_settings f evs) = None" "genuine L es x"
      "stuck J (the (texts (run_settings f evs) Host)) (the (texts (run_settings f evs) Key)) es"
    | (Socket_error) "main L J P loader errno_text fuel evs w = None"
      "complaint (run_settings f evs) = None" "use_socket f evs" "n < 0"
proof (cases "complaint (run_settings f evs) = None \<and> use_socket f evs \<and> n < 0")
  case True
  then have c: "complaint (run_settings f evs) = None" "use_socket f evs" "n < 0" by blast+
  show thesis by (rule Socket_error [OF main_socket_error [OF assms(1,3) c(3,1,2)] c])
next
  case False
  then show thesis using main_safe [OF assms] Returns Undefined by (meson not_le)
qed

lemma main_spec:
  assumes "inputs_ok L J P loader errno_text f evs w" "0 < fuel" "os_listen_fds P (ext w) = ((n, names), x)"
    and "sane J L" "use_socket f evs \<Longrightarrow> 0 \<le> n"
  shows "\<exists>code w' es. main L J P loader errno_text fuel evs w = Some (code, w') \<and> actions w' = actions w @ es \<and>
    run_outcome L J P fuel (run_settings f evs) (use_socket f evs) (use_stdout f evs) n x code es \<and>
    (code \<noteq> None \<longrightarrow> leaks (replaced_texts no_settings evs) w w')"
  by (rule main_safe [OF assms(1-3)]) (use stuck_insane [OF assms(4)] assms(5) in blast)+

text \<open>
  Any command line: it can end the program, or name a file that cannot be read; otherwise the run is as above. \<open>code\<close>
  and \<open>es\<close> are what comes of it.
\<close>

definition line_outcome ::
  "'e lib \<Rightarrow> cjson \<Rightarrow> 'e platform \<Rightarrow> (string \<Rightarrow> 'e \<Rightarrow> dictionary option) \<Rightarrow> nat \<Rightarrow> arg_event list \<Rightarrow> 'e \<Rightarrow>
   int option \<Rightarrow> event list \<Rightarrow> bool" where
  "line_outcome L J P loader fuel evs x0 code es \<longleftrightarrow>
     (let ((n, names), x) = os_listen_fds P x0;
          run = (\<lambda>f. run_outcome L J P fuel (run_settings f evs) (use_socket f evs) (use_stdout f evs) n x code es)
      in case line_exit evs of
           Some status \<Rightarrow> code = Some status \<and> es = []
         | None \<Rightarrow>
             (case loaded loader evs x0 of
                None \<Rightarrow> run None
              | Some None \<Rightarrow> code = Some EXIT_FAILURE \<and> es = []
              | Some (Some ini) \<Rightarrow> run (Some ini)))"

lemma main_total:
  assumes env: "environment_ok L J P loader errno_text evs w" and fuel: "0 < fuel" and sane: "sane J L"
    and pos: "0 \<le> fst (fst (os_listen_fds P (ext w)))"
  shows "\<exists>code w' es. main L J P loader errno_text fuel evs w = Some (code, w') \<and> actions w' = actions w @ es \<and>
    line_outcome L J P loader fuel evs (ext w) code es"
proof -
  obtain n names x where n: "os_listen_fds P (ext w) = ((n, names), x)" by (metis surj_pair)
  have w: "startable w" and evs: "argp_events evs" using env by (simp_all add: environment_ok_def)
  show ?thesis
  proof (cases "line_exit evs")
    case (Some k)
    from main_ends [OF w evs Some] obtain w' where
      "main L J P loader errno_text fuel evs w = Some (Some k, w')" "trace w' = trace w" by blast
    then show ?thesis using Some
      by (intro exI [of _ "Some k"] exI [of _ w'] exI [of _ "[]"]) (simp add: line_outcome_def n actions_def)
  next
    case None
    then have ok: "accepted evs" using evs by (simp add: accepted_iff)
    have run: ?thesis if "loaded loader evs (ext w) = map_option Some f" for f
    proof -
      have "inputs_ok L J P loader errno_text f evs w" using env ok that by (simp add: inputs_ok_def)
      from main_spec [OF this fuel n sane] pos n obtain code w' es where
        "main L J P loader errno_text fuel evs w = Some (code, w')" "actions w' = actions w @ es"
        "run_outcome L J P fuel (run_settings f evs) (use_socket f evs) (use_stdout f evs) n x code es" by auto
      then show ?thesis using None that by (cases f) (auto simp: line_outcome_def n)
    qed
    show ?thesis
    proof (cases "loaded loader evs (ext w)")
      case (Some r)
      show ?thesis
      proof (cases r)
        case None
        from main_unreadable [OF w ok] Some None obtain w' where
          "main L J P loader errno_text fuel evs w = Some (Some EXIT_FAILURE, w')" "actions w' = actions w" by blast
        then show ?thesis using Some None \<open>line_exit evs = None\<close>
          by (intro exI [of _ "Some EXIT_FAILURE"] exI [of _ w'] exI [of _ "[]"]) (simp add: line_outcome_def n)
      next
        case (Some ini)
        then show ?thesis using run [of "Some ini"] \<open>loaded loader evs (ext w) = Some r\<close> by simp
      qed
    qed (use run [of None] in simp)
  qed
qed

end
