(* ===== verification/Example_Run.thy ===== *)
theory Example_Run
  imports Example_Server Program_Run
begin

text \<open>
  Concrete runs of the whole program in the environment of Example_Server: a command line that gives
  everything, one that gives nothing, and one that names a configuration file.
\<close>

definition demo_line :: "arg_event list" where
  "demo_line = [Opt 104 (Some ''unlocked.example''), Opt 107 (Some ''disk''), Opt 115 (Some ''s3cret''),
     Opt 117 (Some ''client''), Opt 300 None]"

definition file_line :: "arg_event list" where
  "file_line = [Opt 99 (Some ''client.ini''), Opt 115 (Some ''s3cret''), Opt 257 None]"

definition demo_start :: "nat world" where
  "demo_start = start (\<lambda>_. True) 0"

definition no_file :: "string \<Rightarrow> nat \<Rightarrow> dictionary option" where
  "no_file name x = None"

definition demo_ini :: dictionary where
  "demo_ini =
     \<lparr>ini_string = [''unlocked:host'' \<mapsto> ''unlocked.example'', ''unlocked:key_handle'' \<mapsto> ''disk'',
        ''unlocked:secret'' \<mapsto> ''old'', ''unlocked:username'' \<mapsto> ''client''],
      ini_long = (\<lambda>k d. if k = ''unlocked:port'' then 8443 else d),
      ini_boolean = (\<lambda>k d. if k = ''stdout:use_stdout'' then 1 else d)\<rparr>"

definition one_file :: "string \<Rightarrow> nat \<Rightarrow> dictionary option" where
  "one_file name x = (if name = ''client.ini'' then Some demo_ini else None)"

lemma startable_demo: "startable demo_start"
  by (simp add: startable_def demo_start_def start_wf registry_start) (simp add: start_def)

lemma demo_ini_ok: "ini_ok demo_ini"
  by (auto simp: ini_ok_def demo_ini_def ptrdiff_max_def split: if_splits)

lemma all_members: "(\<forall>m s. texts c m = Some s \<longrightarrow> short s) \<longleftrightarrow>
  (\<forall>m \<in> {Config, Key, Host, Secret, User}. \<forall>s. texts c m = Some s \<longrightarrow> short s)"
  unfolding UNIV_member [symmetric] by simp

lemma demo_settings:
  "texts (run_settings None demo_line) =
     [Host \<mapsto> ''unlocked.example'', Key \<mapsto> ''disk'', Secret \<mapsto> ''s3cret'', User \<mapsto> ''client'']"
  "port (run_settings None demo_line) = 443"
  by (simp_all add: run_settings_def override_def defaults_def no_settings_def command_line_def demo_line_def
      member_of_def map_add_def fun_eq_iff)

lemma accepted_demo: "accepted demo_line" "accepted file_line"
  by (simp_all add: demo_line_def file_line_def member_of_def ptrdiff_max_def)

lemma demo_options: "distinct (text_options demo_line)"
  by (simp add: demo_line_def member_of_def)

lemma demo_listen_names: "names_ok demo_platform"
  by (simp add: names_ok_def demo_platform_def)

lemma demo_inputs_at:
  assumes "healthy L"
  shows "inputs_ok L demo_json demo_platform no_file ''errno'' None demo_line demo_start"
proof -
  have "loaded no_file demo_line (ext demo_start) = None"
    by (simp add: loaded_def command_line_def demo_line_def no_settings_def member_of_def)
  moreover have "\<forall>m s. texts (command_line demo_line) m = Some s \<longrightarrow> short s"
    by (simp add: command_line_def demo_line_def no_settings_def member_of_def)
  ultimately show ?thesis
    using startable_demo assms json_ok_demo accepted_demo demo_listen_names
    by (simp add: inputs_ok_def environment_ok_def accepted_iff)
qed

lemmas demo_inputs = demo_inputs_at [OF demo_ready(1)]

lemma empty_inputs: "inputs_ok demo_lib demo_json demo_platform no_file ''errno'' None [] demo_start"
  using startable_demo demo_ready(1-2) demo_listen_names
  by (simp add: inputs_ok_def environment_ok_def loaded_def command_line_def no_settings_def argp_events_def)

text \<open>The start of the program, with its modules.\<close>

lemma demo_plugged:
  obtains sd w1 w2 st w3 w4 where
    "get_mod_sd_socket demo_start = Some (sd, w1)" "register_module sd w1 = Some (UL_OK, w2)"
    "get_mod_stdout w2 = Some (st, w3)" "register_module st w3 = Some (UL_OK, w4)"
    "plugged sd st False 0 False w4" "\<forall>n. alloc_ok w4 n" "ext w4 = 0"
proof -
  have s: "registry [] [] demo_start" "world_wf demo_start" "\<forall>n. alloc_ok demo_start n"
    using startable_demo by (simp_all add: startable_def)
  have x: "ext demo_start = 0" by (simp add: demo_start_def start_def)
  from modules_registered [OF s] obtain sd w1 w2 st w3 w4 where m:
    "get_mod_sd_socket demo_start = Some (sd, w1)" "register_module sd w1 = Some (UL_OK, w2)"
    "get_mod_stdout w2 = Some (st, w3)" "register_module st w3 = Some (UL_OK, w4)"
    "plugged sd st False 0 False w4" "registering demo_start w4" .
  then show ?thesis using that [OF m(1-5)] s(3) x by (simp add: registering_def)
qed

lemma demo_main:
  obtains w' es where
    "main demo_lib demo_json demo_platform no_file ''errno'' 5 demo_line demo_start = Some (Some EXIT_SUCCESS, w')"
    "actions w' = actions demo_start @ es" "Fwrite demo_key \<in> set es"
proof -
  have n: "os_listen_fds demo_platform (ext demo_start) = ((0, []), 0)"
    by (simp add: demo_platform_def demo_start_def start_def)
  have flags: "use_socket None demo_line = False" "use_stdout None demo_line = True"
    by (simp_all add: use_socket_def use_stdout_def demo_line_def)
  have ok: "complaint (run_settings None demo_line) = None" "sd_socket_init_err False 0 = UL_OK"
    by (simp_all add: complaint_def demo_settings sd_socket_init_err_def)
  obtain code w' es where run:
    "main demo_lib demo_json demo_platform no_file ''errno'' 5 demo_line demo_start = Some (code, w')"
    "actions w' = actions demo_start @ es"
    and out: "run_outcome demo_lib demo_json demo_platform 5 (run_settings None demo_line) False True 0 0 code es"
    using main_spec [OF demo_inputs _ n demo_ready(3), of 5] unfolding flags by auto
  have g: "genuine demo_lib es 0" using out ok by (simp add: run_outcome_def)
  show ?thesis
  proof (cases code)
    case None
    then obtain e t i es' where u: "waiting demo_json (show_url ''unlocked.example'' i) 5 es'"
        "es = [Curl_global_init, Perform e t] @ es'"
      using out ok by (auto simp: run_outcome_def demo_settings)
    have "genuine demo_lib ([Curl_global_init, Perform e t] @ es') 0" using g u(2) by simp
    from patience_start [OF u(1) demo_patience this] show ?thesis by simp
  next
    case (Some k)
    then obtain err where "key_protocol demo_json ''unlocked.example'' ''disk'' (delivered demo_platform False 0 True) es err"
        "k = (if err = UL_OK then EXIT_SUCCESS else EXIT_FAILURE)"
      using out ok by (auto simp: run_outcome_def demo_settings)
    with demo_protocol [OF _ g] that run Some show ?thesis by auto
  qed
qed

lemma dropping_main:
  "main (server dropping) demo_json demo_platform no_file ''errno'' 5 demo_line demo_start = None"
proof -
  have n: "os_listen_fds demo_platform (ext demo_start) = ((0, []), 0)"
    by (simp add: demo_platform_def demo_start_def start_def)
  have five: "0 < (5 :: nat)" by simp
  have "use_socket None demo_line = False" by (simp add: use_socket_def demo_line_def)
  then have ok: "complaint (run_settings None demo_line) = None" "sd_socket_init_err (use_socket None demo_line) 0 = UL_OK"
    by (simp_all add: complaint_def demo_settings sd_socket_init_err_def)
  show ?thesis
  proof (cases rule: main_outcome [OF demo_inputs_at [OF dropping_healthy] five n])
    case (1 code w' es)
    then have g: "genuine (server dropping) es 0" using ok by (simp add: run_outcome_def)
    show ?thesis
    proof (cases code)
      case None
      then obtain e t i es' where "waiting demo_json (show_url ''unlocked.example'' i) 5 es'"
          "es = [Curl_global_init, Perform e t] @ es'"
        using 1(3) ok by (auto simp: run_outcome_def demo_settings)
      then have "5 \<le> 3 - (0 :: nat)" using patience_start [OF _ dropping_patience] g by blast
      then show ?thesis by simp
    next
      case (Some k)
      then show ?thesis using 1(3) ok dropping_no_protocol [OF _ g] by (auto simp: run_outcome_def)
    qed
  qed
qed

end
