(* ===== verification/Protocol_Machine.thy ===== *)
theory Protocol_Machine
  imports Key_Trace
begin

text \<open>
  The exchange as a deterministic machine over the events of a trace. \<open>advance\<close> is one step, \<open>follow\<close> a run of the
  machine; the machine says nothing about the events of the delivery. It accepts the traces of \<open>key_protocol\<close>, no
  more and no less, and its last phase is the result of \<^verbatim>\<open>request_key\<close>.
\<close>

section \<open>The machine\<close>

datatype phase =
    Started
  | Posting
  | Asking int
  | Pausing int
  | Undetermined
  | Fetching int
  | Fetched string
  | Delivering string
  | Ended unlocked_err

text \<open>The phase behind an answer to the question for the state of the request \<open>i\<close>.\<close>

definition answered_phase :: "int \<Rightarrow> string option \<Rightarrow> phase" where
  "answered_phase i st =
     (case st of
        None \<Rightarrow> Undetermined
      | Some s \<Rightarrow> if s = ''PENDING'' then Pausing i else if s = ''DENIED'' then Ended UL_DENIED
          else if s = ''ACCEPTED'' then Fetching i else Ended UL_ERR)"

text \<open>A step on an answer: the request must be the one that is due.\<close>

definition on_answer :: "(easy \<Rightarrow> bool) \<Rightarrow> (transfer \<Rightarrow> phase option) \<Rightarrow> event \<Rightarrow> phase option" where
  "on_answer due f ev = (case ev of Perform e t \<Rightarrow> if due e then f t else None | _ \<Rightarrow> None)"

lemma on_answer_Some:
  "on_answer due f ev = Some q \<longleftrightarrow> (\<exists>e t. ev = Perform e t \<and> due e \<and> f t = Some q)"
  by (cases ev) (auto simp: on_answer_def)

lemma on_answer_Perform [simp]: "on_answer due f (Perform e t) = (if due e then f t else None)"
  by (simp add: on_answer_def)

fun advance :: "cjson \<Rightarrow> string \<Rightarrow> string \<Rightarrow> phase \<Rightarrow> event \<Rightarrow> phase option" where
  "advance J host handle Started ev = (if ev = Curl_global_init then Some Posting else None)"
| "advance J host handle Posting ev =
     on_answer (\<lambda>e. asked e (requests_url host) (Some (request_body_text handle)) None)
       (\<lambda>t. if tr_response_code t = 201 then map_option Asking (id_in J (answer_body t)) else Some (Ended UL_ERR)) ev"
| "advance J host handle (Asking i) ev =
     on_answer (\<lambda>e. asked e (show_url host i) None None) (\<lambda>t. Some (answered_phase i (answer_state J t))) ev"
| "advance J host handle (Pausing i) ev = (if ev = Sleep 1 then Some (Asking i) else None)"
| "advance J host handle Undetermined ev = (if ev = Curl_global_cleanup then Some (Ended UL_ERR) else None)"
| "advance J host handle (Fetching i) ev =
     on_answer (\<lambda>e. asked e (show_url host i) (Some fulfilled_body) (Some ''PATCH''))
       (\<lambda>t. if has_key t then Some (Fetched (key_in t)) else None) ev"
| "advance J host handle (Fetched k) ev = (if ev = Curl_global_cleanup then Some (Delivering k) else None)"
| "advance J host handle (Delivering k) ev = None"
| "advance J host handle (Ended err) ev = None"

fun follow :: "cjson \<Rightarrow> string \<Rightarrow> string \<Rightarrow> phase \<Rightarrow> event list \<Rightarrow> phase option" where
  "follow J host handle p [] = Some p"
| "follow J host handle p (ev # es) = do { q \<leftarrow> advance J host handle p ev; follow J host handle q es }"

lemma follow_append:
  "follow J host handle p (es @ fs) = do { q \<leftarrow> follow J host handle p es; follow J host handle q fs }"
  by (induction es arbitrary: p) (auto split: bind_splits)

text \<open>Phases the machine does not leave.\<close>

lemma follow_final [simp]:
  "follow J host handle (Ended err) es = Some q \<longleftrightarrow> es = [] \<and> q = Ended err"
  "follow J host handle (Delivering k) es = Some q \<longleftrightarrow> es = [] \<and> q = Delivering k"
  by (cases es; auto)+

text \<open>A step that succeeds determines its event.\<close>

lemma advance_event:
  "advance J host handle Started ev = Some q \<longleftrightarrow> ev = Curl_global_init \<and> q = Posting"
  "advance J host handle (Pausing i) ev = Some q \<longleftrightarrow> ev = Sleep 1 \<and> q = Asking i"
  "advance J host handle Undetermined ev = Some q \<longleftrightarrow> ev = Curl_global_cleanup \<and> q = Ended UL_ERR"
  "advance J host handle (Fetched k) ev = Some q \<longleftrightarrow> ev = Curl_global_cleanup \<and> q = Delivering k"
  "advance J host handle (Asking i) ev = Some q \<longleftrightarrow>
     (\<exists>e t. ev = Perform e t \<and> asked e (show_url host i) None None \<and> q = answered_phase i (answer_state J t))"
  "advance J host handle (Fetching i) ev = Some q \<longleftrightarrow>
     (\<exists>e t. ev = Perform e t \<and> asked e (show_url host i) (Some fulfilled_body) (Some ''PATCH'') \<and> has_key t \<and>
        q = Fetched (key_in t))"
  "advance J host handle Posting ev = Some q \<longleftrightarrow>
     (\<exists>e t. ev = Perform e t \<and> asked e (requests_url host) (Some (request_body_text handle)) None \<and>
        (if tr_response_code t = 201 then \<exists>i. id_in J (answer_body t) = Some i \<and> q = Asking i
         else q = Ended UL_ERR))"
  by (auto simp: on_answer_Some split: if_splits)

text \<open>A run is empty, or it begins with a step.\<close>

lemma follow_cases:
  "follow J host handle p es = Some q \<longleftrightarrow>
     es = [] \<and> q = p \<or>
     (\<exists>ev fs r. es = ev # fs \<and> advance J host handle p ev = Some r \<and> follow J host handle r fs = Some q)"
  by (cases es) (auto simp: bind_eq_Some_conv)

section \<open>The machine follows the protocol\<close>

lemma polling_follow:
  "polling J (show_url host i) es st \<Longrightarrow> follow J host handle (Asking i) es = Some (answered_phase i st)"
  by (induction rule: polling.induct) (simp_all add: answered_phase_def)

lemma waiting_follow:
  "waiting J (show_url host i) n es \<Longrightarrow> 0 < n \<Longrightarrow> follow J host handle (Asking i) es = Some (Pausing i)"
  by (induction rule: waiting.induct) (simp_all add: answered_phase_def)

lemma awaited_follow:
  assumes "awaited J (show_url host i) deliver es err"
  shows "follow J host handle (Asking i) es = Some (Ended err) \<or>
    (\<exists>pre k ds. es = pre @ ds \<and> follow J host handle (Asking i) pre = Some (Delivering k) \<and> deliver k err ds)"
  using assms
proof (cases rule: awaited.cases)
  case (No_state es')
  then show ?thesis using polling_follow [OF No_state(3), of handle] by (simp add: follow_append answered_phase_def)
next
  case Denied
  then show ?thesis using polling_follow [OF Denied(2), of handle] by (simp add: answered_phase_def)
next
  case (Unexpected s)
  then show ?thesis
    using polling_follow [OF Unexpected(2), of handle] polling_decided [OF Unexpected(2)] by (simp add: answered_phase_def)
next
  case (Accepted es' e t ds)
  have "follow J host handle (Asking i) (es' @ [Perform e t, Curl_global_cleanup]) = Some (Delivering (key_in t))"
    using polling_follow [OF Accepted(2), of handle] Accepted(3,4) by (simp add: follow_append answered_phase_def)
  then show ?thesis using Accepted(1,5) by (intro disjI2) (metis append.assoc)
qed

section \<open>The protocol follows the machine\<close>

text \<open>Every run of the machine that asks for the state is a run of the protocol's loop.\<close>

lemma follow_polling:
  assumes "follow J host handle (Asking i) es = Some q" "q \<noteq> Asking i" "q \<noteq> Pausing i"
  shows "\<exists>as bs st. es = as @ bs \<and> polling J (show_url host i) as st \<and>
    follow J host handle (answered_phase i st) bs = Some q"
  using assms(1)
proof (induction es rule: length_induct)
  case (1 es)
  let ?url = "show_url host i"
  from "1.prems" obtain e t fs where
    es: "es = Perform e t # fs" "asked e ?url None None" "follow J host handle (answered_phase i (answer_state J t)) fs = Some q"
    using assms(2) by (auto simp: follow_cases [of J host handle "Asking i" es] advance_event simp del: advance.simps)
  show ?case
  proof (cases "answer_state J t = Some ''PENDING''")
    case False
    then have "polling J ?url [Perform e t] (answer_state J t)" using es(2) by (rule polling.Answered [rotated])
    then show ?thesis using es(1,3) by (metis append_Cons append_Nil)
  next
    case True
    then have "follow J host handle (Pausing i) fs = Some q" using es(3) by (simp add: answered_phase_def)
    then obtain gs where gs: "fs = Sleep 1 # gs" "follow J host handle (Asking i) gs = Some q"
      using assms(3) by (auto simp: follow_cases [of J host handle "Pausing i" fs] advance_event simp del: advance.simps)
    have "length gs < length es" using es(1) gs(1) by simp
    with "1.IH" gs(2) obtain as bs st where
      "gs = as @ bs" "polling J ?url as st" "follow J host handle (answered_phase i st) bs = Some q"
      by blast
    then show ?thesis using polling.Pending [OF es(2) True] es(1) gs(1)
      by (intro exI [of _ "Perform e t # Sleep 1 # as"] exI [of _ bs] exI [of _ st]) simp
  qed
qed

text \<open>The rest of a run, behind the answer that decides.\<close>

lemma follow_undetermined:
  "follow J host handle Undetermined bs = Some q \<longleftrightarrow>
     bs = [] \<and> q = Undetermined \<or> bs = [Curl_global_cleanup] \<and> q = Ended UL_ERR"
  by (subst follow_cases) (auto simp: advance_event simp del: advance.simps)

lemma follow_fetched:
  "follow J host handle (Fetched k) bs = Some q \<longleftrightarrow>
     bs = [] \<and> q = Fetched k \<or> bs = [Curl_global_cleanup] \<and> q = Delivering k"
  by (subst follow_cases) (auto simp: advance_event simp del: advance.simps)

lemma follow_fetching:
  "follow J host handle (Fetching i) bs = Some q \<longleftrightarrow>
     bs = [] \<and> q = Fetching i \<or>
     (\<exists>e t fs. bs = Perform e t # fs \<and> asked e (show_url host i) (Some fulfilled_body) (Some ''PATCH'') \<and> has_key t \<and>
        (fs = [] \<and> q = Fetched (key_in t) \<or> fs = [Curl_global_cleanup] \<and> q = Delivering (key_in t)))"
  by (subst follow_cases) (auto simp: advance_event follow_fetched simp del: advance.simps)

lemma follow_decided:
  assumes run: "follow J host handle (answered_phase i st) bs = Some q" and st: "st \<noteq> Some ''PENDING''"
    and q: "q = Ended err \<or> q = Delivering k"
  obtains (None) "st = None" "bs = [Curl_global_cleanup]" "q = Ended UL_ERR"
    | (Denied) "st = Some ''DENIED''" "bs = []" "q = Ended UL_DENIED"
    | (Unexpected) s where "st = Some s" "s \<noteq> ''DENIED''" "s \<noteq> ''ACCEPTED''" "bs = []" "q = Ended UL_ERR"
    | (Accepted) e t where "st = Some ''ACCEPTED''" "bs = [Perform e t, Curl_global_cleanup]" "q = Delivering (key_in t)"
      "has_key t" "asked e (show_url host i) (Some fulfilled_body) (Some ''PATCH'')"
proof (cases st)
  case None
  then have "answered_phase i st = Undetermined" by (simp add: answered_phase_def)
  with run q None show thesis using that(1) by (auto simp: follow_undetermined)
next
  case (Some s)
  consider "s = ''DENIED''" | "s = ''ACCEPTED''" | "s \<noteq> ''DENIED''" "s \<noteq> ''ACCEPTED''" by blast
  then show thesis
  proof cases
    case 1
    then have "answered_phase i st = Ended UL_DENIED" using Some by (simp add: answered_phase_def)
    with run Some 1 show thesis using that(2) by simp
  next
    case 2
    then have "answered_phase i st = Fetching i" using Some by (simp add: answered_phase_def)
    then have "follow J host handle (Fetching i) bs = Some q" using run by simp
    then obtain e t where "bs = [Perform e t, Curl_global_cleanup]" "q = Delivering (key_in t)" "has_key t"
      "asked e (show_url host i) (Some fulfilled_body) (Some ''PATCH'')"
      unfolding follow_fetching using q by auto
    with Some 2 show thesis using that(4) by simp
  next
    case 3
    then have "answered_phase i st = Ended UL_ERR" using Some st by (simp add: answered_phase_def)
    with run Some 3 show thesis using that(3) by simp
  qed
qed

lemma follow_awaited:
  assumes "follow J host handle (Asking i) es = Some (Ended err)"
  shows "awaited J (show_url host i) deliver es err"
proof -
  from follow_polling [OF assms] obtain as bs st where
    p: "es = as @ bs" "polling J (show_url host i) as st" "follow J host handle (answered_phase i st) bs = Some (Ended err)"
    by auto
  have "Ended err = Ended err \<or> Ended err = Delivering undefined" by simp
  from follow_decided [OF p(3) polling_decided [OF p(2)] this] show ?thesis
  proof cases
    case 1
    then show ?thesis using p(1,2) awaited.No_state by simp
  next
    case 2
    then show ?thesis using p(1,2) awaited.Denied by simp
  next
    case (3 s)
    then show ?thesis using p(1,2) awaited.Unexpected by simp
  qed simp
qed

lemma follow_delivering:
  assumes "follow J host handle (Asking i) es = Some (Delivering k)" "deliver k err ds"
  shows "awaited J (show_url host i) deliver (es @ ds) err"
proof -
  from follow_polling [OF assms(1)] obtain as bs st where
    p: "es = as @ bs" "polling J (show_url host i) as st" "follow J host handle (answered_phase i st) bs = Some (Delivering k)"
    by auto
  have "Delivering k = Ended undefined \<or> Delivering k = Delivering k" by simp
  from follow_decided [OF p(3) polling_decided [OF p(2)] this] show ?thesis
  proof cases
    case (4 e t)
    then show ?thesis using awaited.Accepted [of J "show_url host i" as e t deliver err ds] p(1,2) assms(2) by simp
  qed simp_all
qed

text \<open>The two steps before the first question.\<close>

lemma follow_started:
  assumes "follow J host handle Started es = Some q" "q = Ended err \<or> q = Delivering k"
  obtains (Refused) e t where "es = [Curl_global_init, Perform e t]" "q = Ended UL_ERR" "tr_response_code t \<noteq> 201"
      "asked e (requests_url host) (Some (request_body_text handle)) None"
    | (Created) e t i fs where "es = [Curl_global_init, Perform e t] @ fs" "created J host handle e t i"
      "follow J host handle (Asking i) fs = Some q"
proof -
  from assms obtain e t fs r where es: "es = Curl_global_init # Perform e t # fs"
    "asked e (requests_url host) (Some (request_body_text handle)) None"
    "if tr_response_code t = 201 then \<exists>i. id_in J (answer_body t) = Some i \<and> r = Asking i else r = Ended UL_ERR"
    "follow J host handle r fs = Some q"
    by (auto simp: follow_cases [of J host handle Started es] follow_cases [of J host handle Posting] advance_event simp del: advance.simps)
  show thesis
  proof (cases "tr_response_code t = 201")
    case True
    then obtain i where "id_in J (answer_body t) = Some i" "r = Asking i" using es(3) by auto
    then show thesis using Created [of e t fs i] es True by (simp add: created_def)
  next
    case False
    then show thesis using Refused [of e t] es by simp
  qed
qed

text \<open>The machine accepts exactly the traces of the protocol, and ends in its result.\<close>

theorem protocol_machine:
  "key_protocol J host handle deliver es err \<longleftrightarrow>
     follow J host handle Started es = Some (Ended err) \<or>
     (\<exists>pre k ds. es = pre @ ds \<and> follow J host handle Started pre = Some (Delivering k) \<and> deliver k err ds)"
    (is "_ \<longleftrightarrow> ?machine")
proof
  assume "key_protocol J host handle deliver es err"
  then show ?machine
  proof (cases rule: protocol_shape)
    case (Refused e t)
    then show ?thesis by simp
  next
    case (Created e t i fs)
    have first: "follow J host handle Started ([Curl_global_init, Perform e t] @ gs) = follow J host handle (Asking i) gs" for gs
      using Created(2) by (simp add: created_def)
    from awaited_follow [OF Created(3), of handle] show ?thesis
    proof
      assume "follow J host handle (Asking i) fs = Some (Ended err)"
      then show ?thesis using Created(1) first by simp
    next
      assume "\<exists>pre k ds. fs = pre @ ds \<and> follow J host handle (Asking i) pre = Some (Delivering k) \<and> deliver k err ds"
      then obtain pre k ds where "fs = pre @ ds" "follow J host handle (Asking i) pre = Some (Delivering k)" "deliver k err ds"
        by blast
      then show ?thesis using Created(1) first
        by (intro disjI2 exI [of _ "[Curl_global_init, Perform e t] @ pre"] exI [of _ k] exI [of _ ds]) simp
    qed
  qed
next
  assume ?machine
  then show "key_protocol J host handle deliver es err"
  proof (elim disjE exE conjE)
    assume run: "follow J host handle Started es = Some (Ended err)"
    show ?thesis
    proof (rule follow_started [OF run])
      fix e t assume "es = [Curl_global_init, Perform e t]" "Ended err = Ended UL_ERR" "tr_response_code t \<noteq> 201"
        "asked e (requests_url host) (Some (request_body_text handle)) None"
      then show ?thesis using key_protocol.Refused by simp
    next
      fix e t i fs assume "es = [Curl_global_init, Perform e t] @ fs" "created J host handle e t i"
        "follow J host handle (Asking i) fs = Some (Ended err)"
      then show ?thesis using key_protocol.Created follow_awaited by blast
    qed simp
  next
    fix pre k ds assume es: "es = pre @ ds" and run: "follow J host handle Started pre = Some (Delivering k)" and d: "deliver k err ds"
    show ?thesis
    proof (rule follow_started [OF run])
      fix e t i fs assume "pre = [Curl_global_init, Perform e t] @ fs" and c: "created J host handle e t i"
        and "follow J host handle (Asking i) fs = Some (Delivering k)"
      then show ?thesis using key_protocol.Created [OF c follow_delivering [of J host handle i fs k deliver err ds]] d es by simp
    qed simp_all
  qed
qed

text \<open>Only the delivery can be a success.\<close>

lemma advance_not_ok: "advance J host handle p ev \<noteq> Some (Ended UL_OK)"
  by (cases p) (auto simp: on_answer_Some answered_phase_def split: option.splits if_splits)

lemma follow_not_ok: "p \<noteq> Ended UL_OK \<Longrightarrow> follow J host handle p es \<noteq> Some (Ended UL_OK)"
proof (induction es arbitrary: p)
  case (Cons ev es)
  then show ?case using advance_not_ok [of J host handle p ev] by (auto simp: bind_eq_Some_conv)
qed simp

end
