(* ===== verification/Low_Memory.thy ===== *)
theory Low_Memory
  imports Main_Program
begin

text \<open>
  The allocations \<^verbatim>\<open>request_key\<close> and \<^verbatim>\<open>main\<close> begin with, when there is no memory for one of them: which ones the code checks, which
  blocks it leaves behind, and which null pointers it goes through.
\<close>

section \<open>The first allocations of request_key\<close>

abbreviation fresh_response :: obj where
  "fresh_response \<equiv> Response \<lparr>resp_body = NULL, resp_body_len = 0, resp_headers = NULL, resp_status = 0\<rparr>"

lemma create_response_eq:
  "create_response w =
     (if alloc_ok w (brk w)
      then Some (Ptr (brk w), w\<lparr>brk := Suc (brk w), heap := (heap w)(brk w \<mapsto> fresh_response)\<rparr>)
      else Some (NULL, w\<lparr>brk := Suc (brk w)\<rparr>))"
  by (simp add: create_response_def malloc_struct_def new_block_def)

lemma check_created_null: "check_created L J D fuel args rq NULL w = None"
  by (simp add: check_created_def response_of_def deref_def)

lemma request_key_low_memory:
  assumes wf: "world_wf w" and a: "arguments_of a w = Some args"
    and host: "cstr (arg_host args) w = Some host" "short host"
    and handle: "cstr (arg_key_handle args) w = Some handle" "short handle"
  defines "ok \<equiv> \<lambda>i. alloc_ok w (brk w + i)"
  defines "h \<equiv> if ok 0 then (heap w)(brk w \<mapsto> fresh_response) else heap w"
  shows "\<not> ok 0 \<Longrightarrow> ok 1 \<Longrightarrow> ok 2 \<Longrightarrow> request_key L J D fuel a w = None"
    and "\<not> ok 1 \<or> \<not> ok 2 \<Longrightarrow>
      \<exists>w'. request_key L J D fuel a w = Some (Some UL_MALLOC, w') \<and> heap w' = h \<and> actions w' = actions w"
proof -
  define p where "p = (if ok 0 then Ptr (brk w) else NULL)"
  let ?w1 = "w\<lparr>brk := Suc (brk w), heap := h\<rparr>"
  have w1: "create_response w = Some (p, ?w1)"
    by (simp add: create_response_eq ok_def p_def h_def)
  have le: "heap w \<subseteq>\<^sub>m heap ?w1" using wf by (simp add: h_def map_le_fresh)
  note a1 = arguments_of_mono [OF le a]
  note str = cstr_mono [OF le host(1)] cstr_mono [OF le handle(1)]
  have "format (''Requesting the key \"%s\" from the host \"%s\"'' @ [LF])
      [AStr (arg_key_handle args), AStr (arg_host args)] ?w1 \<noteq> None"
    using str by (cases "arg_key_handle args = NULL"; cases "arg_host args = NULL") simp_all
  then obtain w2 where w2: "logger LOG_DEBUG (''Requesting the key \"%s\" from the host \"%s\"'' @ [LF])
      [AStr (arg_key_handle args), AStr (arg_host args)] ?w1 = Some w2"
    using logger_defined by blast
  then have f2: "heap w2 = h" "brk w2 = Suc (brk w)" "alloc_ok w2 = alloc_ok w" "actions w2 = actions w"
    using logger_frame [OF w2] by (simp_all add: actions_def)
  have h_fresh: "h b = None" if "brk w < b" for b
    using that world_wfD [OF wf, of b] by (simp add: h_def)
  have "length (g_hex_digest w2) = length (g_hex_digest w)" using loggerD [OF w2] by auto
  then have wf2: "world_wf w2"
    using wf f2 h_fresh by (simp add: world_wf_def)
  have le2: "heap w \<subseteq>\<^sub>m heap w2" using le f2(1) by simp
  have body: "get_key_request_body (arg_key_handle args) w2 = Some (alloc_str (request_body_text handle) w2)"
    by (rule key_request_body_eq [OF wf2 cstr_mono [OF le2 handle(1)]])
      (use url_lengths(2) [OF host(2) handle(2)] in \<open>simp add: int_max_def\<close>)
  have start: "request_key L J D fuel a w = (case alloc_str (request_body_text handle) w2 of (body, w) \<Rightarrow>
      if body = NULL then Some (Some UL_MALLOC, w)
      else do {
        (url, w) \<leftarrow> get_key_request_url (arg_host args) w;
        if url = NULL then do { w \<leftarrow> free body w; Some (Some UL_MALLOC, w) }
        else do {
          let request = \<lparr>req_body = body, req_port = arg_port args, req_secret = arg_secret args,
                         req_skip_validation = (arg_validate args = No), req_url = url,
                         req_username = arg_username args\<rparr>;
          let (_, w) = init_https_client L w;
          (_, w) \<leftarrow> https_hmac_POST L request p w;
          w \<leftarrow> free body w;
          w \<leftarrow> free url w;
          let request = request\<lparr>req_body := NULL, req_url := NULL\<rparr>;
          check_created L J D fuel args request p w
        }
      })"
    by (simp only: request_key_def w1 a1 w2 body Option.bind.simps prod.case)
  let ?w3 = "w2\<lparr>brk := Suc (Suc (brk w)), heap := h(Suc (brk w) \<mapsto> str_obj (request_body_text handle))\<rparr>"
  have no_body: "request_key L J D fuel a w = Some (Some UL_MALLOC, w2\<lparr>brk := Suc (Suc (brk w))\<rparr>)" if "\<not> ok 1"
    using that f2 by (simp add: start alloc_str_def ok_def)
  have with_body: "alloc_str (request_body_text handle) w2 = (Ptr (Suc (brk w)), ?w3)" if "ok 1"
    using that f2 by (simp add: alloc_str_def ok_def)
  have wf3: "world_wf ?w3" using wf2 f2 by (simp add: world_wf_def)
  have le3: "heap w \<subseteq>\<^sub>m heap ?w3" by (rule map_le_trans [OF le2]) (use h_fresh f2(1) in \<open>simp add: map_le_fresh\<close>)
  have url: "get_key_request_url (arg_host args) ?w3 = Some (alloc_str (requests_url host) ?w3)"
    by (rule key_request_url_eq [OF wf3 cstr_mono [OF le3 host(1)]])
      (use url_lengths(1) [OF host(2) handle(2)] in simp)
  show "request_key L J D fuel a w = None" if "\<not> ok 0" "ok 1" "ok 2"
    using that url f2
    by (simp add: start with_body alloc_str_def ok_def p_def check_created_null split: prod.splits bind_split)
  show "\<exists>w'. request_key L J D fuel a w = Some (Some UL_MALLOC, w') \<and> heap w' = h \<and> actions w' = actions w"
    if low: "\<not> ok 1 \<or> \<not> ok 2"
  proof (cases "ok 1")
    case False
    then show ?thesis using no_body f2 by simp
  next
    case True
    then have "\<not> alloc_ok w (Suc (Suc (brk w)))" using low by (simp add: ok_def)
    then have "alloc_str (requests_url host) ?w3 = (NULL, ?w3\<lparr>brk := Suc (Suc (Suc (brk w)))\<rparr>)"
      using f2 by (simp add: alloc_str_def)
    then have "request_key L J D fuel a w =
        Some (Some UL_MALLOC, ?w3\<lparr>brk := Suc (Suc (Suc (brk w))), heap := (heap ?w3)(Suc (brk w) := None)\<rparr>)"
      using True url by (simp add: start with_body)
    then show ?thesis using h_fresh f2(4) by (simp add: fun_upd_idem actions_def)
  qed
qed

section \<open>The first allocations of main\<close>

lemma register_module_null:
  assumes "g_modules w = NULL" "g_module_count w = 0" "alloc_ok w (brk w)"
  shows "register_module NULL w = None"
  using assms
  by (simp add: register_module_def realloc_ptr_array_def new_ptr_array_def new_block_def size_t_def ptrdiff_max_def
      set_entry_def ptr_array_of_def deref_def register_child_parser_def module_of_def)

lemma main_low_memory:
  shows "\<not> allocs 0 \<Longrightarrow> \<exists>w'. main L J P loader errno_text fuel evs (start allocs x) = Some (Some EXIT_FAILURE, w') \<and>
      heap w' = (\<lambda>_. None) \<and> trace w' = []"
    and "allocs 0 \<Longrightarrow> \<not> allocs 1 \<Longrightarrow> allocs 2 \<Longrightarrow> main L J P loader errno_text fuel evs (start allocs x) = None"
    and "allocs 0 \<Longrightarrow> allocs 1 \<Longrightarrow> \<not> allocs 2 \<Longrightarrow> allocs 3 \<Longrightarrow>
      main L J P loader errno_text fuel evs (start allocs x) = None"
proof -
  note defs = main_def start_def create_args_def new_block_def arguments_of_def deref_def Let_def
    get_mod_sd_socket_def malloc_struct_def sd_socket_init_argp_def
  show "\<exists>w'. main L J P loader errno_text fuel evs (start allocs x) = Some (Some EXIT_FAILURE, w') \<and>
      heap w' = (\<lambda>_. None) \<and> trace w' = []" if "\<not> allocs 0"
    using that by (simp add: defs)
  show "main L J P loader errno_text fuel evs (start allocs x) = None" if "allocs 0" "\<not> allocs 1" "allocs 2"
    using that by (simp add: defs register_module_null numeral_2_eq_2)
  show "main L J P loader errno_text fuel evs (start allocs x) = None" if "allocs 0" "allocs 1" "\<not> allocs 2" "allocs 3"
    using that by (simp add: defs register_module_null numeral_2_eq_2 numeral_3_eq_3)
qed

end
