(* ===== verification/Guarantee.thy ===== *)
theory Guarantee
  imports World
begin

text \<open>
  A logic for what every run of an operation guarantees, in any environment and whatever fails. A
  guarantee is a relation between the state an operation starts in and the state it ends in;
  \<open>keeps R m\<close> says that every run of \<open>m\<close> that has a result is in \<open>R\<close>. The locale \<open>guarantee\<close> is the contract
  of such a relation: the states before and after a whole operation are related by \<open>S\<close>, those
  of the steps it begins with by \<open>R\<close>. Its lemmas are one rule for each construct an operation is written with, so that
  an operation keeps the guarantee if its parts do.
\<close>

section \<open>Computations that keep a relation\<close>

definition keeps :: "('e world \<Rightarrow> 'e world \<Rightarrow> bool) \<Rightarrow> ('e world \<Rightarrow> ('a, 'e) res) \<Rightarrow> bool" where
  "keeps R m \<longleftrightarrow> (\<forall>w r w'. m w = Some (r, w') \<longrightarrow> R w w')"

definition keeps_world :: "('e world \<Rightarrow> 'e world \<Rightarrow> bool) \<Rightarrow> ('e world \<Rightarrow> 'e world option) \<Rightarrow> bool" where
  "keeps_world R m \<longleftrightarrow> (\<forall>w w'. m w = Some w' \<longrightarrow> R w w')"

lemma keepsD: "keeps R m \<Longrightarrow> m w = Some (r, w') \<Longrightarrow> R w w'"
  by (simp add: keeps_def)

lemma keeps_worldD: "keeps_world R m \<Longrightarrow> m w = Some w' \<Longrightarrow> R w w'"
  by (simp add: keeps_world_def)

section \<open>The rules\<close>

locale guarantee =
  fixes R S :: "'e world \<Rightarrow> 'e world \<Rightarrow> bool"
  assumes keep_refl: "S w w"
    and keep_trans: "R w w' \<Longrightarrow> S w' w'' \<Longrightarrow> S w w''"
begin

lemma ret: "keeps S (\<lambda>w. Some (x w, w))"
  by (simp add: keeps_def keep_refl)

lemma ret_after: "(\<And>w. S w (u w)) \<Longrightarrow> keeps S (\<lambda>w. Some (x w, u w))"
  by (simp add: keeps_def)

lemma ret_pair: "(\<And>w. S w (snd (p w))) \<Longrightarrow> keeps S (\<lambda>w. Some (p w))"
  unfolding keeps_def by (metis option.inject snd_conv)

lemma ret_world: "keeps_world S Some"
  by (simp add: keeps_world_def keep_refl)

lemma ret_world_after: "(\<And>w. S w (u w)) \<Longrightarrow> keeps_world S (\<lambda>w. Some (u w))"
  by (simp add: keeps_world_def)

lemma undefined: "keeps S (\<lambda>w. None)" "keeps_world S (\<lambda>w. None)"
  by (simp_all add: keeps_def keeps_world_def)

lemma bind_res:
  assumes "keeps R m" "\<And>x. keeps S (f x)"
  shows "keeps S (\<lambda>w. Option.bind (m w) (\<lambda>(x, w). f x w))"
  using assms unfolding keeps_def by (fastforce simp: Option.bind_eq_Some_conv intro: keep_trans)

lemma bind_res_pair:
  assumes "keeps R m" "\<And>x y. keeps S (f x y)"
  shows "keeps S (\<lambda>w. Option.bind (m w) (\<lambda>((x, y), w). f x y w))"
  using assms unfolding keeps_def by (fastforce simp: Option.bind_eq_Some_conv intro: keep_trans)

lemma bind_world:
  assumes "keeps_world R m" "keeps S f"
  shows "keeps S (\<lambda>w. Option.bind (m w) (\<lambda>w. f w))"
  using assms unfolding keeps_def keeps_world_def by (fastforce simp: Option.bind_eq_Some_conv intro: keep_trans)

lemma bind_read:
  assumes "\<And>x. keeps S (f x)"
  shows "keeps S (\<lambda>w. Option.bind (g w) (\<lambda>x. f x w))"
  using assms unfolding keeps_def by (fastforce simp: Option.bind_eq_Some_conv)

lemma bind_res_world:
  assumes "keeps R m" "\<And>x. keeps_world S (f x)"
  shows "keeps_world S (\<lambda>w. Option.bind (m w) (\<lambda>(x, w). f x w))"
  using assms unfolding keeps_def keeps_world_def by (fastforce simp: Option.bind_eq_Some_conv intro: keep_trans)

lemma bind_world_world:
  assumes "keeps_world R m" "keeps_world S f"
  shows "keeps_world S (\<lambda>w. Option.bind (m w) (\<lambda>w. f w))"
  using assms unfolding keeps_world_def by (fastforce simp: Option.bind_eq_Some_conv intro: keep_trans)

lemma bind_read_world:
  assumes "\<And>x. keeps_world S (f x)"
  shows "keeps_world S (\<lambda>w. Option.bind (g w) (\<lambda>x. f x w))"
  using assms unfolding keeps_world_def by (fastforce simp: Option.bind_eq_Some_conv)

lemma cond: "keeps S f \<Longrightarrow> keeps S g \<Longrightarrow> keeps S (\<lambda>w. if c w then f w else g w)"
  by (simp add: keeps_def)

lemma cond_world: "keeps_world S f \<Longrightarrow> keeps_world S g \<Longrightarrow> keeps_world S (\<lambda>w. if c w then f w else g w)"
  by (simp add: keeps_world_def)

lemma case_opt:
  "keeps S f \<Longrightarrow> (\<And>x. keeps S (g x)) \<Longrightarrow> keeps S (\<lambda>w. case c w of None \<Rightarrow> f w | Some x \<Rightarrow> g x w)"
  by (simp add: keeps_def split: option.split)

lemma case_opt_world:
  "keeps_world S f \<Longrightarrow> (\<And>x. keeps_world S (g x)) \<Longrightarrow>
   keeps_world S (\<lambda>w. case c w of None \<Rightarrow> f w | Some x \<Rightarrow> g x w)"
  by (simp add: keeps_world_def split: option.split)

lemma case_either:
  "(\<And>x. keeps S (f x)) \<Longrightarrow> (\<And>x. keeps S (g x)) \<Longrightarrow>
   keeps S (\<lambda>w. case c w of Inl x \<Rightarrow> f x w | Inr x \<Rightarrow> g x w)"
  by (simp add: keeps_def split: sum.split)

lemma let_value: "(\<And>x. keeps S (f x)) \<Longrightarrow> keeps S (\<lambda>w. Let (g w) (\<lambda>x. f x w))"
  by (simp add: keeps_def)

lemma let_const: "keeps S (f c) \<Longrightarrow> keeps S (\<lambda>w. Let c (\<lambda>x. f x w))"
  by (simp add: keeps_def)

lemma let_pair: "(\<And>x y. keeps S (f x y)) \<Longrightarrow> keeps S (\<lambda>w. Let (g w) (\<lambda>(x, y). f x y w))"
  by (simp add: keeps_def split: prod.split)

lemma let_triple:
  "(\<And>x y z. keeps S (f x y z)) \<Longrightarrow> keeps S (\<lambda>w. Let (g w) (\<lambda>((x, y), z). f x y z w))"
  by (simp add: keeps_def split: prod.split)

lemma let_world: "(\<And>w. R w (u w)) \<Longrightarrow> keeps S f \<Longrightarrow> keeps S (\<lambda>w. Let (u w) (\<lambda>w. f w))"
  unfolding keeps_def Let_def by (blast intro: keep_trans)

lemma let_res: "(\<And>w. R w (snd (m w))) \<Longrightarrow> (\<And>x. keeps S (f x)) \<Longrightarrow> keeps S (\<lambda>w. Let (m w) (\<lambda>(x, w). f x w))"
  unfolding keeps_def by (metis (no_types, lifting) case_prod_unfold keep_trans)

text \<open>An argument of the operation that is read off the state it starts in.\<close>

lemma at_state: "(\<And>x. keeps S (m x)) \<Longrightarrow> keeps S (\<lambda>w. m (g w) w)"
  by (simp add: keeps_def)

lemma at_state_world: "(\<And>x. keeps_world S (m x)) \<Longrightarrow> keeps_world S (\<lambda>w. m (g w) w)"
  by (simp add: keeps_world_def)

end

end
