(* ===== verification/Lawful_Run.thy ===== *)
theory Lawful_Run
  imports Guarantee Main_Program
begin

text \<open>
  What every run of the program guarantees, without any assumption on the server, the libraries, the
  memory or the settings. \<open>lawful\<close> relates two states: the heap stays well-formed, the allocation
  counter never goes back, and every event in between is \<open>allowed\<close>: nothing is printed on the standard output
  unless the debug flag is set, a transfer has both checks of the certificate switched off and is a plain request or a PATCH, the
  program sleeps for a second at a time, and no socket file is touched. Each operation of each component keeps it.
\<close>

named_theorems guar "the operations that keep the guarantee"

section \<open>The guarantee\<close>

fun allowed :: "bool \<Rightarrow> event \<Rightarrow> bool" where
  "allowed debug (Print st s) \<longleftrightarrow> st = Stderr \<or> debug"
| "allowed debug (Perform e t) \<longleftrightarrow> opt_ssl_verifypeer e = 0 \<and> opt_ssl_verifyhost e = 0 \<and>
     (opt_customrequest e = None \<or> opt_customrequest e = Some ''PATCH'')"
| "allowed debug (Sleep n) \<longleftrightarrow> n = 1"
| "allowed debug (Unlink s) \<longleftrightarrow> False"
| "allowed debug (Fchmod fd m) \<longleftrightarrow> False"
| "allowed debug (Close fd) \<longleftrightarrow> False"
| "allowed debug _ \<longleftrightarrow> True"

definition lawful :: "'e world \<Rightarrow> 'e world \<Rightarrow> bool" where
  "lawful w w' \<longleftrightarrow>
     (world_wf w \<longrightarrow> world_wf w') \<and> alloc_ok w' = alloc_ok w \<and> brk w \<le> brk w' \<and> g_is_debug w' = g_is_debug w \<and>
     (\<exists>es. trace w' = trace w @ es \<and> list_all (allowed (g_is_debug w)) es)"

lemma lawful_refl: "lawful w w"
  by (simp add: lawful_def)

lemma lawful_trans: "lawful w w' \<Longrightarrow> lawful w' w'' \<Longrightarrow> lawful w w''"
  unfolding lawful_def by auto

interpretation run: guarantee lawful lawful
  by unfold_locales (rule lawful_refl, erule (1) lawful_trans)

text \<open>The rules in the order in which they are tried on a body in do-notation.\<close>

lemmas rules = run.bind_res_pair run.bind_res run.bind_res_world run.bind_world run.bind_world_world
  run.bind_read run.bind_read_world run.cond run.cond_world run.case_opt run.case_opt_world run.case_either
  run.let_res run.let_world run.let_triple run.let_pair run.let_const run.let_value run.ret run.ret_world run.undefined run.ret_after run.ret_world_after

section \<open>Memory\<close>

lemma lawful_heap: "lawful w (w\<lparr>heap := h\<rparr>)" if "\<And>b. brk w \<le> b \<Longrightarrow> heap w b = None \<Longrightarrow> h b = None"
  using that by (auto simp: lawful_def world_wf_def)

lemma lawful_brk [simp]: "lawful w (w\<lparr>brk := Suc (brk w)\<rparr>)"
  by (simp add: lawful_def world_wf_def)

lemma lawful_block: "lawful w (w\<lparr>brk := Suc (brk w), heap := (heap w)(brk w \<mapsto> x)\<rparr>)"
  by (auto simp: lawful_def world_wf_def)

lemma lawful_ext [simp]: "lawful w (w\<lparr>ext := x\<rparr>)"
  by (simp add: lawful_def world_wf_def)

lemma lawful_statics [simp]:
  "lawful w (w\<lparr>g_modules := p\<rparr>)" "lawful w (w\<lparr>g_module_count := c\<rparr>)" "lawful w (w\<lparr>g_sub_parsers := p\<rparr>)"
  "lawful w (w\<lparr>g_sub_parser_inputs := p\<rparr>)" "lawful w (w\<lparr>g_sub_parser_count := n\<rparr>)"
  "lawful w (w\<lparr>g_modules := p, g_module_count := c\<rparr>)"
  by (simp_all add: lawful_def world_wf_def)

lemma lawful_emit: "allowed (g_is_debug w) e \<Longrightarrow> lawful w (emit e w)"
  by (simp add: lawful_def world_wf_def emit_def)

lemma lawful_emit_ext: "allowed (g_is_debug w) e \<Longrightarrow> lawful w (emit e (w\<lparr>ext := x\<rparr>))"
  by (simp add: lawful_def world_wf_def emit_def)

lemma new_block_keeps [guar]: "keeps lawful (new_block x)"
  by (auto simp: keeps_def new_block_def intro: lawful_block split: if_splits)

lemma malloc_keeps [guar]: "keeps lawful (malloc n)"
  using new_block_keeps by (auto simp: keeps_def malloc_def split: if_splits)

lemma malloc_struct_keeps [guar]: "keeps lawful malloc_struct"
  using new_block_keeps by (auto simp: keeps_def malloc_struct_def)

lemma free_keeps [guar]: "keeps_world lawful (free p)"
  by (auto simp: keeps_world_def free_def lawful_refl intro!: lawful_heap split: ptr.splits if_splits)

lemma assign_keeps [guar]: "keeps_world lawful (assign p x)"
  by (auto simp: keeps_world_def assign_def intro!: lawful_heap split: ptr.splits if_splits)

lemma store_keeps [guar]: "keeps_world lawful (store p off s)"
  using assign_keeps by (auto simp: keeps_world_def store_def split: option.splits if_splits)

lemma strcat_keeps [guar]: "keeps_world lawful (strcat p s)"
  unfolding strcat_def by (rule rules guar)+

lemma strdup_keeps [guar]: "keeps lawful (strdup p)"
  unfolding strdup_def by (rule rules guar)+

lemma realloc_keeps [guar]: "keeps lawful (realloc p n)"
  unfolding realloc_def by (cases p; simp; (rule rules guar)+)

lemma snprintf_keeps [guar]: "keeps lawful (snprintf p n fmt as)"
  unfolding snprintf_def by (rule rules guar)+

section \<open>Logging\<close>

lemma logger_keeps [guar]:
  assumes "level = LOG_ERROR \<or> level = LOG_WARNING \<or> level = LOG_DEBUG"
  shows "keeps_world lawful (logger level fmt as)"
  unfolding keeps_world_def
proof (intro allI impI)
  fix w w' :: "'a world"
  assume run: "logger level fmt as w = Some w'"
  show "lawful w w'"
  proof (cases "log_stream level w")
    case None
    with run show ?thesis by (simp add: logger_def lawful_refl)
  next
    case (Some st)
    then have "st = Stderr \<or> g_is_debug w"
      using assms by (auto simp: log_stream_def ul_debug_def split: if_splits)
    with run Some show ?thesis
      by (auto simp: logger_def lawful_def emit_def world_wf_def Option.bind_eq_Some_conv)
  qed
qed

lemma level_cases: "LOG_DEBUG = LOG_ERROR \<or> LOG_DEBUG = LOG_WARNING \<or> LOG_DEBUG = LOG_DEBUG"
  "LOG_ERROR = LOG_ERROR \<or> LOG_ERROR = LOG_WARNING \<or> LOG_ERROR = LOG_DEBUG"
  "LOG_WARNING = LOG_ERROR \<or> LOG_WARNING = LOG_WARNING \<or> LOG_WARNING = LOG_DEBUG"
  by simp_all

lemmas log_keeps [guar] = logger_keeps [OF level_cases(1)] logger_keeps [OF level_cases(2)] logger_keeps [OF level_cases(3)]

declare logger_keeps [guar del]

section \<open>https-client.c\<close>

lemma curl_slist_append_keeps [guar]: "keeps lawful (curl_slist_append L p q)"
  unfolding keeps_def curl_slist_append_def
  by (auto simp: Option.bind_eq_Some_conv lawful_block Let_def split: option.splits if_splits
      dest!: keeps_worldD [OF assign_keeps] intro: lawful_trans [OF lawful_brk])

lemma curl_slist_free_all_keeps [guar]: "keeps_world lawful (curl_slist_free_all p)"
  unfolding curl_slist_free_all_def by (rule rules guar)+

lemma date_header_keeps [guar]: "keeps lawful (date_header L epoch)"
proof -
  have now: "lawful w (snd (case epoch of Some t \<Rightarrow> (t, w) | None \<Rightarrow> let (t, x) = lib_time L (ext w) in (t, w\<lparr>ext := x\<rparr>)))"
    for w :: "'a world"
    by (simp add: lawful_refl split: option.split prod.split)
  show ?thesis unfolding date_header_def by (rule rules guar now)+
qed

lemma add_date_header_keeps [guar]: "keeps lawful (add_date_header L p)"
  unfolding add_date_header_def by (rule rules guar)+

lemma strToLower_from_keeps: "strToLower_from p i w = Some w' \<Longrightarrow> lawful w w'"
proof (induction p i w rule: strToLower_from.induct)
  case (1 p i w)
  show ?case
  proof (cases "load p i w")
    case None
    with "1.prems" show ?thesis by (simp add: strToLower_from.simps)
  next
    case (Some c)
    show ?thesis
    proof (cases "c = NUL")
      case True
      with Some "1.prems" show ?thesis by (simp add: strToLower_from.simps lawful_refl)
    next
      case False
      then obtain w1 where w1: "store p i [tolower c] w = Some w1" "i \<noteq> int_max" "strToLower_from p (i + 1) w1 = Some w'"
        using Some "1.prems" by (subst (asm) strToLower_from.simps) (auto split: option.splits if_splits)
      show ?thesis
        using keeps_worldD [OF store_keeps w1(1)] "1.IH" [OF Some False w1] by (rule lawful_trans)
    qed
  qed
qed

lemma strToLower_keeps [guar]: "keeps_world lawful (strToLower p)"
  using strToLower_from_keeps by (auto simp: keeps_world_def strToLower_def)

lemma join_fill_keeps [guar]: "keeps_world lawful (join_fill p hs off)"
proof (induction hs arbitrary: off)
  case Nil
  show ?case by (simp add: run.ret_world)
next
  case (Cons h hs)
  show ?case unfolding join_fill.simps by (rule rules guar Cons.IH)+
qed

lemma joinHeaderNames_keeps [guar]: "keeps lawful (joinHeaderNames p)"
  unfolding joinHeaderNames_def by (rule rules guar)+

lemma hex_loop_length: "hex_loop is d buf = Some buf' \<Longrightarrow> length buf' = length buf"
  by (induction "is" d buf rule: hex_loop.induct) (auto simp: show_hex02_def split: if_splits)

lemma hmac_sha512_keeps [guar]: "keeps lawful (hmac_sha512 L key message)"
  by (auto simp: keeps_def hmac_sha512_def Option.bind_eq_Some_conv lawful_def world_wf_def hex_loop_length)

lemma strcat_headers_keeps [guar]: "keeps_world lawful (strcat_headers p hs)"
proof (induction hs)
  case Nil
  show ?case by (simp add: run.ret_world)
next
  case (Cons h hs)
  show ?case unfolding strcat_headers.simps by (rule rules guar Cons.IH)+
qed

lemma authHeader_keeps [guar]: "keeps lawful (authHeader L p u k b)"
  unfolding authHeader_def by (rule rules guar)+

lemma add_auth_header_keeps [guar]: "keeps lawful (add_auth_header L p rq)"
  unfolding add_auth_header_def by (rule rules guar)+

lemma create_response_keeps [guar]: "keeps lawful create_response"
  unfolding create_response_def [abs_def] by (rule rules guar)+

lemma free_response_keeps [guar]: "keeps_world lawful (free_response p)"
  unfolding free_response_def by (rule rules guar)+

lemma header_callback_keeps [guar]: "keeps lawful (header_callback L s m n p)"
  unfolding header_callback_def by (rule rules guar)+

lemma write_callback_keeps [guar]: "keeps lawful (write_callback s m n p)"
  unfolding write_callback_def by (rule rules guar)+

lemma content_type_loop_keeps [guar]: "keeps lawful (content_type_loop hs)"
proof (induction hs)
  case Nil
  show ?case by (simp add: run.ret)
next
  case (Cons h hs)
  show ?case unfolding content_type_loop.simps by (rule rules guar Cons.IH)+
qed

lemma get_content_type_keeps [guar]: "keeps lawful (get_content_type p)"
  unfolding get_content_type_def by (rule rules guar)+

lemma run_callbacks_keeps [guar]: "keeps lawful (run_callbacks L ds p)"
proof (induction ds)
  case Nil
  show ?case by (simp add: run.ret)
next
  case (Cons d ds)
  show ?case by (cases d; simp; (rule rules guar Cons.IH)+)
qed

lemma curl_easy_perform_keeps:
  assumes "\<And>t. allowed False (Perform e t)"
  shows "keeps lawful (curl_easy_perform L e p)"
proof -
  have e: "lawful w (emit (Perform e t) (w\<lparr>ext := x\<rparr>))" for w :: "'a world" and t x
    using assms [of t] by (intro lawful_emit_ext) simp
  show ?thesis unfolding curl_easy_perform_def by (rule rules guar e)+
qed

lemma libcurl_error_lawful [simp]: "lawful w (libcurl_error L status w)"
  by (simp add: libcurl_error_def lawful_emit)

lemma perform_request_keeps [guar]:
  assumes "cr = None \<or> cr = Some ''PATCH''"
  shows "keeps lawful (perform_request L verb pf cr hs rq p)"
proof -
  have e: "keeps lawful (curl_easy_perform L \<lparr>opt_url = u, opt_ssl_verifypeer = 0, opt_ssl_verifyhost = 0,
      opt_port = n, opt_httpheader = xs, opt_postfields = b, opt_customrequest = cr\<rparr> p)" for u n xs b
    using assms by (intro curl_easy_perform_keeps) simp
  show ?thesis
    unfolding perform_request_def by (rule rules guar e libcurl_error_lawful lawful_ext)+
qed

lemma append_headers_keeps [guar]: "keeps lawful (append_headers L ss p)"
proof (induction ss arbitrary: p)
  case Nil
  show ?case by (simp add: run.ret)
next
  case (Cons s ss)
  show ?case unfolding append_headers.simps by (rule rules guar Cons.IH)+
qed

lemma requests_keep [guar]:
  "keeps lawful (https_hmac_GET L rq p)" "keeps lawful (https_hmac_PATCH L rq p)" "keeps lawful (https_hmac_POST L rq p)"
  unfolding https_hmac_GET_def https_hmac_PATCH_def https_hmac_POST_def by (rule rules guar | simp)+

lemma init_https_client_lawful [simp]: "lawful w (snd (init_https_client L w))"
  by (simp add: init_https_client_def Let_def lawful_emit_ext split: prod.split)
    (auto simp: libcurl_error_def lawful_def emit_def world_wf_def)

lemma cleanup_https_client_lawful [simp]: "lawful w (cleanup_https_client w)"
  by (simp add: cleanup_https_client_def lawful_emit)

section \<open>client.c\<close>

lemma print_alloc_keeps [guar]: "keeps lawful (print_alloc fmt as)"
  unfolding print_alloc_def by (rule rules guar)+

lemma texts_keep [guar]:
  "keeps lawful (get_key_request_body p)" "keeps lawful (get_key_request_url p)" "keeps lawful (get_show_request_url p i)"
  unfolding get_key_request_body_def get_key_request_url_def get_show_request_url_def by (rule guar)+

lemma log_parse_error_keeps [guar]: "keeps_world lawful (log_parse_error J body)"
  unfolding log_parse_error_def by (rule rules guar)+

lemma get_request_id_keeps [guar]: "keeps lawful (get_request_id J p)"
  unfolding get_request_id_def by (rule rules guar)+

lemma get_request_state_keeps [guar]: "keeps lawful (get_request_state J p)"
  unfolding get_request_state_def by (rule rules guar)+

lemma validate_content_type_keeps [guar]: "keeps_world lawful (validate_content_type p)"
  unfolding validate_content_type_def by (rule rules guar)+

lemma sleep_lawful: "lawful w (sleep L 1 w)"
  by (simp add: sleep_def lawful_emit_ext)

lemma poll_keeps [guar]: "keeps lawful (poll L J fuel rq q)"
proof (induction fuel arbitrary: q)
  case 0
  show ?case by (simp add: run.ret)
next
  case (Suc fuel)
  show ?case unfolding poll.simps by (rule rules guar sleep_lawful Suc.IH)+
qed

section \<open>The modules\<close>

lemma stdout_success_keeps [guar]: "keeps lawful (stdout_success P mp key)"
proof -
  have e: "lawful w (emit (Fwrite s) (w\<lparr>ext := x\<rparr>))" for w :: "'a world" and s x
    by (rule lawful_emit_ext) simp
  show ?thesis unfolding stdout_success_def by (rule rules guar e lawful_ext)+
qed

lemma sd_socket_success_keeps [guar]: "keeps lawful (sd_socket_success P mp key)"
proof -
  have e: "lawful w (emit (Accept fd) (w\<lparr>ext := x\<rparr>))" "lawful w (emit (Send fd s) (w\<lparr>ext := x\<rparr>))"
    for w :: "'a world" and fd s x
    by (rule lawful_emit_ext; simp)+
  show ?thesis unfolding sd_socket_success_def by (rule rules guar e lawful_ext)+
qed

lemma module_parsers_keep [guar]:
  "keeps lawful (stdout_parser key mp)" "keeps lawful (sd_socket_parser key mp)"
  "keeps lawful (parse_stdout_config mp ini)" "keeps lawful (parse_sd_socket_config mp ini)"
  unfolding stdout_parser_def sd_socket_parser_def parse_stdout_config_def parse_sd_socket_config_def
  by (rule rules guar)+

lemma module_cleanups_keep [guar]: "keeps lawful (stdout_cleanup mp)" "keeps lawful (sd_socket_cleanup mp)"
  unfolding stdout_cleanup_def sd_socket_cleanup_def by (rule rules guar)+

lemma sd_socket_init_keeps [guar]: "keeps lawful (sd_socket_init P mp)"
  unfolding sd_socket_init_def by (rule rules guar lawful_ext)+

lemma get_modules_keep [guar]: "keeps lawful get_mod_stdout" "keeps lawful get_mod_sd_socket"
  unfolding get_mod_stdout_def [abs_def] get_mod_sd_socket_def [abs_def] stdout_init_argp_def sd_socket_init_argp_def init_state_def
  by (rule rules guar)+

text \<open>A loop over the table keeps what its step keeps.\<close>

lemma module_loop_keeps:
  assumes "\<And>mp m. keeps lawful (step mp m)"
  shows "keeps lawful (module_loop step i)"
proof -
  have "module_loop step i w = Some (r, w') \<Longrightarrow> lawful w w'" for w r w'
    using assms
  proof (induction step i w rule: module_loop.induct)
    case (1 step i w)
    show ?case
    proof (cases "i < g_module_count w")
      case False
      with "1.prems" show ?thesis by (simp add: module_loop.simps lawful_refl)
    next
      case True
      with "1.prems"(1) obtain mp m err w1 where
        m: "get_entry (g_modules w) (unat i) w = Some mp" "module_of mp w = Some m" "step mp m w = Some (err, w1)"
        and rest: "(if err \<noteq> UL_OK then Some (err, w1) else module_loop step (i + 1) w1) = Some (r, w')"
        by (subst (asm) module_loop.simps) (auto simp: Option.bind_eq_Some_conv)
      have first: "lawful w w1" using "1.prems"(2) m(3) by (rule keepsD)
      show ?thesis
      proof (cases "err = UL_OK")
        case False
        with first rest show ?thesis by simp
      next
        case ok: True
        have "lawful w1 w'" using "1.IH" [OF True m refl _ _ "1.prems"(2)] rest ok by simp
        with first show ?thesis by (rule lawful_trans)
      qed
    qed
  qed
  then show ?thesis by (auto simp: keeps_def)
qed

lemma dispatch_keeps [guar]:
  "keeps lawful (call_parse_config (dispatch P) f mp ini)" "keeps lawful (call_init (dispatch P) f mp)"
  "keeps lawful (call_success (dispatch P) f mp key)" "keeps lawful (call_failure (dispatch P) f mp err)"
  "keeps lawful (call_cleanup (dispatch P) f mp)"
  by (cases f; simp add: dispatch_def guar run.undefined)+

lemma log_callback_keeps [guar]: "keeps_world lawful (log_callback what name)"
  unfolding log_callback_def by (rule rules guar)+

lemma steps_keep:
  "keeps lawful (cleanup_step (dispatch P) mp m)" "keeps lawful (init_step (dispatch P) mp m)"
  "keeps lawful (parse_config_step (dispatch P) ini mp m)" "keeps lawful (success_step (dispatch P) key mp m)"
  "keeps lawful (failure_step (dispatch P) err mp m)"
  unfolding cleanup_step_def init_step_def parse_config_step_def success_step_def failure_step_def
  by (rule rules guar)+

lemma module_loops_keep [guar]:
  "keeps lawful (initialize_modules (dispatch P))" "keeps lawful (parse_config (dispatch P) ini)"
  "keeps lawful (handle_success (dispatch P) key)" "keeps lawful (handle_failure (dispatch P) err)"
  unfolding initialize_modules_def [abs_def] parse_config_def handle_success_def handle_failure_def
  by (rule module_loop_keeps steps_keep)+

lemmas free_at [guar] = run.at_state_world [OF free_keeps, of g_modules] run.at_state_world [OF free_keeps, of g_sub_parsers]
  run.at_state_world [OF free_keeps, of g_sub_parser_inputs]

lemma cleanup_modules_keeps [guar]: "keeps lawful (cleanup_modules (dispatch P))"
  unfolding cleanup_modules_def [abs_def] by (rule rules guar module_loop_keeps steps_keep lawful_statics)+

lemma new_ptr_array_keeps [guar]: "keeps lawful (new_ptr_array k n)"
  using new_block_keeps by (auto simp: keeps_def new_ptr_array_def split: if_splits)

lemma set_entry_keeps [guar]: "keeps_world lawful (set_entry p i q)"
  unfolding set_entry_def by (rule rules guar)+

lemma realloc_ptr_array_keeps [guar]: "keeps lawful (realloc_ptr_array k p n)"
  unfolding realloc_ptr_array_def by (rule rules guar)+

lemma realloc_at [guar]:
  "keeps lawful (\<lambda>w. realloc_ptr_array k (g w) (n w) w)"
  unfolding keeps_def by (blast dest: keepsD [OF realloc_ptr_array_keeps])

lemma set_entry_at [guar]: "keeps_world lawful (\<lambda>w. set_entry p (i w) q w)"
  unfolding keeps_world_def by (blast dest: keeps_worldD [OF set_entry_keeps])

lemma register_child_parser_keeps [guar]: "keeps lawful (register_child_parser mp)"
  unfolding register_child_parser_def by (rule rules guar lawful_statics)+

lemma register_module_keeps [guar]: "keeps lawful (register_module mp)"
  unfolding register_module_def by (rule rules guar lawful_statics)+

lemma free_child_parsers_keeps [guar]: "keeps_world lawful free_child_parsers"
  unfolding free_child_parsers_def [abs_def] by (rule rules guar lawful_statics)+

section \<open>request_key\<close>

lemma fetch_key_keeps [guar]: "keeps lawful (fetch_key L (dispatch P) args rq i)"
  unfolding fetch_key_def by (rule rules guar cleanup_https_client_lawful)+

lemma await_key_keeps [guar]: "keeps lawful (await_key L J (dispatch P) fuel args rq i)"
  unfolding await_key_def by (rule rules guar cleanup_https_client_lawful)+

lemma check_created_keeps [guar]: "keeps lawful (check_created L J (dispatch P) fuel args rq p)"
  unfolding check_created_def by (rule rules guar)+

lemma request_key_keeps [guar]: "keeps lawful (request_key L J (dispatch P) fuel a)"
  unfolding request_key_def by (rule rules guar init_https_client_lawful)+

section \<open>cli.c\<close>

lemma set_string_keeps [guar]: "keeps lawful (set_string upd arg input)"
  unfolding set_string_def by (rule rules guar)+

lemma parse_opt_keeps [guar]: "keeps lawful (parse_opt key arg input)"
  unfolding parse_opt_def by (rule rules guar)+

lemma call_parser_keeps [guar]: "keeps lawful (call_parser f key input)"
  unfolding call_parser_def by (cases f) (simp_all add: guar run.undefined)

lemma call_child_keeps [guar]: "keeps lawful (call_child kids key)"
proof (induction kids)
  case Nil
  show ?case by (simp add: run.undefined)
next
  case (Cons k kids)
  show ?case by (cases k; simp; (rule rules guar Cons.IH)+)
qed

lemma argp_run_keeps [guar]: "keeps lawful (argp_run kids input evs)"
proof (induction evs)
  case Nil
  show ?case by (simp add: run.ret)
next
  case (Cons e evs)
  show ?case by (cases e; simp only: argp_run.simps; (rule rules guar Cons.IH)+)
qed

lemma argp_parse_keeps [guar]: "keeps lawful (argp_parse evs input)"
  unfolding argp_parse_def by (rule rules guar)+

lemma create_args_keeps [guar]: "keeps lawful create_args"
  unfolding create_args_def [abs_def] by (rule guar)

lemma free_field_keeps [guar]: "keeps_world lawful (free_field p)"
  unfolding free_field_def by (rule rules guar)+

lemma free_args_keeps [guar]: "keeps_world lawful (free_args p)"
  unfolding free_args_def by (rule rules guar)+

lemma merge_string_keeps [guar]: "keeps_world lawful (merge_string sel upd base new)"
  unfolding merge_string_def by (rule rules guar)+

lemma merge_value_keeps [guar]: "keeps_world lawful (merge_value sel upd u base new)"
  unfolding merge_value_def by (rule rules guar)+

lemma merge_config_keeps [guar]: "keeps_world lawful (merge_config base new)"
  unfolding merge_config_def by (rule rules guar)+

lemma config_string_keeps [guar]: "keeps lawful (config_string upd v args)"
  unfolding config_string_def by (rule rules guar)+

lemma parse_config_file_keeps [guar]: "keeps lawful (parse_config_file (dispatch P) loader path args)"
  unfolding parse_config_file_def by (rule rules guar)+

section \<open>main.c\<close>

lemma complain_lawful: "lawful w (complain s w)"
  by (simp add: complain_def lawful_emit)

lemma validate_args_keeps [guar]: "keeps lawful (validate_args a)"
  unfolding validate_args_def
  by (rule run.bind_read run.ret_pair)+ (simp add: complain_lawful lawful_refl)

lemma tear_down_keeps [guar]: "keeps_world lawful (tear_down (dispatch P) a)"
  unfolding tear_down_def by (rule rules guar)+

section \<open>The whole program\<close>

text \<open>\<^verbatim>\<open>handle_args\<close> sets the debug flag at its end, \<^verbatim>\<open>main\<close> goes on with it.\<close>

definition settled :: "'e world \<Rightarrow> 'e world \<Rightarrow> bool" where
  "settled w w' \<longleftrightarrow> (\<exists>v b. lawful w v \<and> w' = v\<lparr>g_is_debug := b\<rparr>)"

definition lawful_run :: "'e world \<Rightarrow> 'e world \<Rightarrow> bool" where
  "lawful_run w w' \<longleftrightarrow> (\<exists>v b. lawful w v \<and> lawful (v\<lparr>g_is_debug := b\<rparr>) w')"

lemma settled_refl: "settled w w"
  unfolding settled_def by (intro exI [of _ w] exI [of _ "g_is_debug w"]) (simp add: lawful_refl)

lemma settled_run: "settled w w' \<Longrightarrow> lawful_run w w'"
  unfolding settled_def lawful_run_def using lawful_refl by blast

interpretation settling: guarantee lawful settled
  by unfold_locales (rule settled_refl, unfold settled_def, blast intro: lawful_trans)

interpretation running: guarantee lawful lawful_run
  by unfold_locales (rule settled_run [OF settled_refl], unfold lawful_run_def, blast intro: lawful_trans)

lemma settled_debug: "settled w (w\<lparr>g_is_debug := b\<rparr>)"
  unfolding settled_def using lawful_refl by blast

lemmas settling_rules = settling.bind_res_pair settling.bind_res settling.bind_world settling.bind_read settling.cond
  settling.case_opt settling.case_either settling.let_value settling.ret settling.ret_after settled_debug

lemma handle_args_settles: "keeps settled (handle_args (dispatch P) loader evs args)"
  unfolding handle_args_def by (rule settling_rules rules guar)+

lemma run_bind:
  assumes "keeps settled m" "\<And>x. keeps lawful (f x)"
  shows "keeps lawful_run (\<lambda>w. Option.bind (m w) (\<lambda>(x, w). f x w))"
  using assms unfolding keeps_def settled_def lawful_run_def
  by (fastforce simp: Option.bind_eq_Some_conv)

lemmas running_rules = running.bind_res running.bind_world running.bind_read running.cond
  running.let_value running.ret

lemma main_lawful: "keeps lawful_run (main L J P loader errno_text fuel evs)"
  unfolding main_def Let_def
  by (rule run_bind [OF handle_args_settles] running_rules rules guar)+

end
