(* ===== verification/Request_Properties.thy ===== *)
theory Request_Properties
  imports Example_Server Lawful_Run
begin

text \<open>
  The properties of \<^verbatim>\<open>src/https-client.c\<close>, each with a concrete input on which its hypotheses hold.
\<close>

section \<open>Requests\<close>

definition request_strings ::
  "request \<Rightarrow> string \<Rightarrow> string \<Rightarrow> string \<Rightarrow> string option \<Rightarrow> 'e world \<Rightarrow> bool" where
  "request_strings rq u k url body w \<longleftrightarrow>
     (\<forall>n. alloc_ok w n) \<and> cstr (req_username rq) w = Some u \<and> short u \<and>
     cstr (req_secret rq) w = Some k \<and> cstr (req_url rq) w = Some url \<and>
     setopt_string (req_body rq) w = Some body \<and> length (body_text body) \<le> 2000000"

lemma request_stringsD:
  assumes "request_strings rq u k url (Some bd) w"
  shows "\<forall>n. alloc_ok w n" "cstr (req_username rq) w = Some u" "short u" "cstr (req_secret rq) w = Some k"
    "cstr (req_url rq) w = Some url" "req_body rq \<noteq> NULL" "cstr (req_body rq) w = Some bd" "length bd \<le> 2000000"
  using assms by (auto simp: request_strings_def setopt_string_def split: if_splits)

lemma post_full:
  assumes "healthy L" "resp_inv h p None [] w" "request_strings rq u k url (Some bd) w"
  shows "\<exists>e t w'. https_hmac_POST L rq (Ptr p) w = Some (transfer_err t, w') \<and>
    resp_inv h p (answer_body t) (received_headers (tr_data t)) w' \<and>
    status_of (Ptr p) w' = Some (tr_response_code t) \<and> does L [Perform e t] w w' \<and>
    asked e url (Some bd) None \<and> answered L t \<and> signed L e u k bd [accept_json, content_json] \<and>
    unverified e \<and> opt_port e = req_port rq"
  unfolding https_hmac_signed
  by (rule signed_request_full [OF assms(1,2)])
    (use request_stringsD [OF assms(3)] in \<open>simp_all add: setopt_string_def accept_json_def content_json_def printable\<close>)

lemma patch_full:
  assumes "healthy L" "resp_inv h p None [] w" "request_strings rq u k url (Some bd) w"
  shows "\<exists>e t w'. https_hmac_PATCH L rq (Ptr p) w = Some (transfer_err t, w') \<and>
    resp_inv h p (answer_body t) (received_headers (tr_data t)) w' \<and>
    status_of (Ptr p) w' = Some (tr_response_code t) \<and> does L [Perform e t] w w' \<and>
    asked e url (Some bd) (Some ''PATCH'') \<and> answered L t \<and> signed L e u k bd [accept_text, content_json] \<and>
    unverified e \<and> opt_port e = req_port rq"
  unfolding https_hmac_signed
  by (rule signed_request_full [OF assms(1,2)])
    (use request_stringsD [OF assms(3)] in \<open>simp_all add: setopt_string_def accept_text_def content_json_def printable\<close>)

lemma get_full:
  assumes "healthy L" "resp_inv h p None [] w" "request_strings rq u k url None w"
  shows "\<exists>e t w'. https_hmac_GET L rq (Ptr p) w = Some (transfer_err t, w') \<and>
    resp_inv h p (answer_body t) (received_headers (tr_data t)) w' \<and>
    status_of (Ptr p) w' = Some (tr_response_code t) \<and> does L [Perform e t] w w' \<and>
    asked e url None None \<and> answered L t \<and> signed L e u k [] [accept_json] \<and>
    unverified e \<and> opt_port e = req_port rq"
  unfolding https_hmac_signed
  by (rule signed_request_full [OF assms(1,2), where bd = "[]"])
    (use assms(3) in \<open>auto simp: request_strings_def setopt_string_def accept_json_def printable split: if_splits\<close>)

text \<open>No part of a request looks at the setting.\<close>

lemma setting_ignored:
  "add_auth_header L hs (rq\<lparr>req_skip_validation := b\<rparr>) = add_auth_header L hs rq"
  "perform_request L verb pf cr hs (rq\<lparr>req_skip_validation := b\<rparr>) = perform_request L verb pf cr hs rq"
  by (cases rq; intro ext; simp add: add_auth_header_def perform_request_def cong: if_cong)+

lemma requests_ignore_setting:
  "https_hmac_GET L (rq\<lparr>req_skip_validation := b\<rparr>) q w = https_hmac_GET L rq q w"
  "https_hmac_PATCH L (rq\<lparr>req_skip_validation := b\<rparr>) q w = https_hmac_PATCH L rq q w"
  "https_hmac_POST L (rq\<lparr>req_skip_validation := b\<rparr>) q w = https_hmac_POST L rq q w"
proof -
  have eqs: "req_body (rq\<lparr>req_skip_validation := b\<rparr>) = req_body rq" "req_url (rq\<lparr>req_skip_validation := b\<rparr>) = req_url rq"
    "req_port (rq\<lparr>req_skip_validation := b\<rparr>) = req_port rq" by simp_all
  show "https_hmac_GET L (rq\<lparr>req_skip_validation := b\<rparr>) q w = https_hmac_GET L rq q w"
    "https_hmac_PATCH L (rq\<lparr>req_skip_validation := b\<rparr>) q w = https_hmac_PATCH L rq q w"
    "https_hmac_POST L (rq\<lparr>req_skip_validation := b\<rparr>) q w = https_hmac_POST L rq q w"
    unfolding https_hmac_signed signed_request_def setting_ignored eqs by (rule refl)+
qed

lemma demo_post_strings:
  "request_strings demo_post ''client'' ''s3cret'' ''https://unlocked.example/api/requests''
     (Some ''{\"key\": \"disk\"}'') answer_world"
  by (simp add: request_strings_def demo_post_def answer_world_def demo_world_def start_def setopt_string_def)

text \<open>
  C16. Each of the three requests performs one transfer. It carries the url, the port and the body of the
  request, the date, the HMAC of the date and the body under the client's secret (a GET has no body, so that
  the HMAC is that of the date alone), and the content headers; its answer is the content of the response,
  and every block used on the way is freed.
\<close>

theorem requests_are_signed:
  assumes "healthy L" "resp_inv h p None [] w" "request_strings rq u k url (Some bd) w"
  shows "(\<exists>e t w'. https_hmac_POST L rq (Ptr p) w = Some (transfer_err t, w') \<and>
      signed L e u k bd [accept_json, content_json] \<and> asked e url (Some bd) None \<and> opt_port e = req_port rq \<and>
      actions w' = actions w @ [Perform e t] \<and> genuine L [Perform e t] (ext w) \<and>
      resp_inv h p (answer_body t) (received_headers (tr_data t)) w' \<and>
      status_of (Ptr p) w' = Some (tr_response_code t)) \<and>
    (\<exists>e t w'. https_hmac_PATCH L rq (Ptr p) w = Some (transfer_err t, w') \<and>
      signed L e u k bd [accept_text, content_json] \<and> asked e url (Some bd) (Some ''PATCH'') \<and>
      opt_port e = req_port rq \<and> actions w' = actions w @ [Perform e t] \<and> genuine L [Perform e t] (ext w) \<and>
      resp_inv h p (answer_body t) (received_headers (tr_data t)) w' \<and>
      status_of (Ptr p) w' = Some (tr_response_code t)) \<and>
    (\<exists>e t w'. https_hmac_GET L (rq\<lparr>req_body := NULL\<rparr>) (Ptr p) w = Some (transfer_err t, w') \<and>
      signed L e u k [] [accept_json] \<and> asked e url None None \<and> opt_port e = req_port rq \<and>
      actions w' = actions w @ [Perform e t] \<and> genuine L [Perform e t] (ext w) \<and>
      resp_inv h p (answer_body t) (received_headers (tr_data t)) w' \<and>
      status_of (Ptr p) w' = Some (tr_response_code t))"
proof -
  have rq: "request_strings (rq\<lparr>req_body := NULL\<rparr>) u k url None w" "req_port (rq\<lparr>req_body := NULL\<rparr>) = req_port rq"
    using assms(3) by (auto simp: request_strings_def setopt_string_def)
  show ?thesis
    using post_full [OF assms] patch_full [OF assms] get_full [OF assms(1,2) rq(1), unfolded rq(2)]
    unfolding does_def did_def by blast
qed

theorem requests_are_signed_witness:
  "\<exists>e t w'. https_hmac_PATCH demo_lib demo_post (Ptr 7) answer_world = Some (transfer_err t, w') \<and>
    signed demo_lib e ''client'' ''s3cret'' ''{\"key\": \"disk\"}'' [accept_text, content_json] \<and>
    asked e ''https://unlocked.example/api/requests'' (Some ''{\"key\": \"disk\"}'') (Some ''PATCH'') \<and>
    opt_port e = 443 \<and> actions w' = actions answer_world @ [Perform e t] \<and>
    genuine demo_lib [Perform e t] (ext answer_world) \<and>
    resp_inv (heap demo_world) 7 (answer_body t) (received_headers (tr_data t)) w' \<and>
    status_of (Ptr 7) w' = Some (tr_response_code t)"
proof -
  have "req_port demo_post = 443" by (simp add: demo_post_def)
  then show ?thesis
    using requests_are_signed [OF demo_ready(1) answer_world_inv demo_post_strings] by metis
qed

text \<open>
  The certificate of the server is never verified: every request switches the check of the peer and
  of the host name off, and the setting \<^verbatim>\<open>skip_validation\<close> makes no difference to any of the three
  functions.
\<close>

theorem certificate_never_verified:
  assumes "healthy L" "resp_inv h p None [] w" "request_strings rq u k url (Some bd) w"
  shows "(\<exists>e t w'. https_hmac_POST L rq (Ptr p) w = Some (transfer_err t, w') \<and>
      actions w' = actions w @ [Perform e t] \<and> opt_ssl_verifypeer e = 0 \<and> opt_ssl_verifyhost e = 0) \<and>
    https_hmac_GET L (rq\<lparr>req_skip_validation := b\<rparr>) (Ptr p) w = https_hmac_GET L rq (Ptr p) w \<and>
    https_hmac_PATCH L (rq\<lparr>req_skip_validation := b\<rparr>) (Ptr p) w = https_hmac_PATCH L rq (Ptr p) w \<and>
    https_hmac_POST L (rq\<lparr>req_skip_validation := b\<rparr>) (Ptr p) w = https_hmac_POST L rq (Ptr p) w"
  using post_full [OF assms] requests_ignore_setting unfolding does_def did_def unverified_def by blast

theorem certificate_never_verified_witness:
  "\<exists>e t w'. https_hmac_POST demo_lib demo_post (Ptr 7) answer_world = Some (transfer_err t, w') \<and>
    \<not> req_skip_validation demo_post \<and> actions w' = actions answer_world @ [Perform e t] \<and>
    opt_ssl_verifypeer e = 0 \<and> opt_ssl_verifyhost e = 0"
  using certificate_never_verified [OF demo_ready(1) answer_world_inv demo_post_strings, of False]
  by (simp add: demo_post_def)

section \<open>Verbose output\<close>





section \<open>The response\<close>

lemma write_callback_fails:
  assumes inv: "resp_inv h p body hs w" and mem: "\<not> alloc_ok w (brk w)"
    and len: "length (body_text body) + length s + 2 \<le> ptrdiff_max"
  obtains w' r w'' where "write_callback s 1 (length s) (Ptr p) w = Some (0, w')"
    "heap w p = Some (Response r)" "body_rep r body w"
    "heap w' = (heap w)(p \<mapsto> Response (r\<lparr>resp_body := NULL\<rparr>))" "trace w' = trace w"
    "free_response (Ptr p) w' = Some w''"
    "heap w'' = (\<lambda>b. if b \<in> blocks_of (resp_body r) then heap w b else h b)"
proof -
  from inv obtain r where wf: "world_wf w" and r: "heap w p = Some (Response r)"
    and body: "body_rep r body w" and hs: "slist_of (resp_headers r) w = Some hs" and hp: "h p = None"
    and own: "\<And>b. b \<in> blocks_of (resp_body r) \<union> blocks_of (resp_headers r) \<Longrightarrow> h b = None"
    and rest: "\<And>b. b \<notin> {p} \<union> blocks_of (resp_body r) \<union> blocks_of (resp_headers r) \<Longrightarrow> heap w b = h b"
    by (auto elim!: resp_invE)
  let ?r = "r\<lparr>resp_body := NULL\<rparr>" and ?n = "length (body_text body) + length s + 2"
  let ?w' = "w\<lparr>brk := Suc (brk w), heap := (heap w)(p \<mapsto> Response ?r)\<rparr>"
  let ?h2 = "\<lambda>x. if x \<in> blocks_of (resp_headers r) then None else heap ?w' x"
  let ?h' = "\<lambda>b. if b \<in> blocks_of (resp_body r) then heap w b else h b"
  have disj: "p \<notin> blocks_of (resp_body r)" "p \<notin> blocks_of (resp_headers r)"
    "\<And>b. b \<in> blocks_of (resp_headers r) \<Longrightarrow> b \<notin> blocks_of (resp_body r)"
    using r body_rep_blocks [OF body] slist_of_blocks [OF hs] by fastforce+
  have n: "resp_body_len r = length (body_text body)" using body by (cases body) auto
  have none: "malloc ?n w = Some (NULL, w\<lparr>brk := Suc (brk w)\<rparr>)"
    using mem len by (simp add: malloc_def new_block_def)
  have alloc: "(if resp_body r = NULL then malloc (size_t (length s + 2)) w
      else realloc (resp_body r) (size_t (resp_body_len r + length s + 2)) w) = Some (NULL, w\<lparr>brk := Suc (brk w)\<rparr>)"
  proof (cases body)
    case None
    then show ?thesis using body none len by simp
  next
    case (Some a)
    then obtain c where "resp_body r = Ptr c" "heap w c = Some (Chars (map Some (a @ [LF, NUL])))"
      using body by auto
    then show ?thesis
      using none len n Some by (simp add: realloc_def chars_of_def deref_def)
  qed
  have "write_callback s 1 (length s) (Ptr p) w = Some (0, ?w')"
    using alloc r len by (simp add: write_callback_def response_of_def deref_def Let_def)
  moreover have "free_response (Ptr p) ?w' = Some (?w'\<lparr>heap := ?h'\<rparr>)"
  proof -
    have f2: "curl_slist_free_all (resp_headers r) ?w' = Some (?w'\<lparr>heap := ?h2\<rparr>)"
      using hs disj(2) by (cases rule: slist_of_cases) (auto simp: fun_eq_iff)
    have f3: "free (Ptr p) (?w'\<lparr>heap := ?h2\<rparr>) = Some (?w'\<lparr>heap := ?h'\<rparr>)"
      using r hp own rest disj by (auto simp: free_def fun_eq_iff)
    show ?thesis using f2 f3 by (simp add: free_response_def response_of_def deref_def)
  qed
  ultimately show thesis using that r body by fastforce
qed

text \<open>
  C18. What a response holds after a transfer: the chunks of the body one after the other, and every
  header line that has a colon; freeing it gives back all its blocks and no other.
\<close>

theorem response_collects_transfer:
  assumes wf: "world_wf w" and mem: "memory_ok L w" and fits: "list_all header_fits ds"
    and len: "length (body_text (received_body ds None)) + 2 \<le> ptrdiff_max"
  shows "\<exists>p w1 w2 w3. create_response w = Some (Ptr p, w1) \<and> run_callbacks L ds (Ptr p) w1 = Some (True, w2) \<and>
    resp_inv (heap w) p (received_body ds None) (received_headers ds) w2 \<and>
    free_response (Ptr p) w2 = Some w3 \<and> heap w3 = heap w"
proof -
  obtain p w1 where w1: "create_response w = Some (Ptr p, w1)" "resp_inv (heap w) p None [] w1" "heap_only w w1"
    using create_response_inv [OF wf] mem by (auto simp: memory_ok_def)
  have "memory_ok L w1" using memory_ok_did [OF did_heap_only [OF w1(3)] mem] .
  from run_callbacks_inv [OF w1(2) this fits len] obtain w2 where
    w2: "run_callbacks L ds (Ptr p) w1 = Some (True, w2)"
      "resp_inv (heap w) p (received_body ds None) ([] @ received_headers ds) w2" by blast
  from free_response_inv [OF w2(2)] obtain w3 where "free_response (Ptr p) w2 = Some w3" "heap w3 = heap w" by blast
  with w1(1) w2 show ?thesis by auto
qed

theorem response_collects_transfer_witness:
  "\<exists>p w1 w2 w3. create_response demo_world = Some (Ptr p, w1) \<and>
    run_callbacks demo_lib [Header_data ''Server: a'', Body_data ''ab'', Header_data ''none'', Body_data ''c''] (Ptr p) w1 =
      Some (True, w2) \<and>
    resp_inv (heap demo_world) p (Some ''abc'') [''Server: a''] w2 \<and>
    free_response (Ptr p) w2 = Some w3 \<and> heap w3 = heap demo_world"
  using response_collects_transfer [OF world_wf_demo demo_memory,
      of "[Header_data ''Server: a'', Body_data ''ab'', Header_data ''none'', Body_data ''c'']"]
  by (simp add: kept_headers_def int_max_def ptrdiff_max_def)

text \<open>
  \<^verbatim>\<open>write_callback\<close> appends its chunk to the body: the buffer then holds the text so far, the chunk, a
  line feed and a terminator, and no other block has changed.
\<close>

theorem write_callback_appends:
  assumes "resp_inv h p body hs w" "alloc_ok w (brk w)" "length (body_text body) + length s + 2 \<le> ptrdiff_max"
  shows "\<exists>w'. write_callback s 1 (length s) (Ptr p) w = Some (length s, w') \<and>
    resp_inv h p (Some (body_text body @ s)) hs w' \<and> trace w' = trace w"
  using write_callback_inv [OF assms] heap_only_frame(1) by blast

theorem write_callback_appends_witness:
  "\<exists>w'. write_callback ''key'' 1 (length ''key'') (Ptr 7) answer_world = Some (length ''key'', w') \<and>
    resp_inv (heap demo_world) 7 (Some ''key'') [] w' \<and> trace w' = trace answer_world"
proof -
  have "alloc_ok answer_world (brk answer_world)" by (simp add: answer_world_def demo_world_def start_def)
  from write_callback_appends [OF answer_world_inv this, of "''key''"] show ?thesis
    by (simp add: ptrdiff_max_def)
qed

text \<open>
  C33. When there is no memory for a chunk, be it the first one or a later one, \<^verbatim>\<open>write_callback\<close> reports that nothing was
  taken, which makes libcurl end the transfer with an error, and nothing but the pointer to the body has changed: it is
  null. The buffer with the text so far is lost: it is still there after \<^verbatim>\<open>free_response\<close>, which frees everything else.
\<close>

theorem write_callback_without_memory:
  assumes "resp_inv h p body hs w" "\<not> alloc_ok w (brk w)" "length (body_text body) + length s + 2 \<le> ptrdiff_max"
  shows "\<exists>w' r w''. write_callback s 1 (length s) (Ptr p) w = Some (0, w') \<and>
    (s \<noteq> [] \<longrightarrow> run_callbacks L (Body_data s # ds) (Ptr p) w = Some (False, w')) \<and>
    heap w p = Some (Response r) \<and> heap w' = (heap w)(p \<mapsto> Response (r\<lparr>resp_body := NULL\<rparr>)) \<and> trace w' = trace w \<and>
    free_response (Ptr p) w' = Some w'' \<and>
    (case body of
       None \<Rightarrow> heap w'' = h
     | Some a \<Rightarrow> \<exists>c. resp_body r = Ptr c \<and> h c = None \<and> heap w'' = h(c \<mapsto> Chars (map Some (a @ [LF, NUL]))))"
proof -
  obtain w' r w'' where run: "write_callback s 1 (length s) (Ptr p) w = Some (0, w')"
    "heap w p = Some (Response r)" "body_rep r body w"
    "heap w' = (heap w)(p \<mapsto> Response (r\<lparr>resp_body := NULL\<rparr>))" "trace w' = trace w"
    "free_response (Ptr p) w' = Some w''"
    "heap w'' = (\<lambda>b. if b \<in> blocks_of (resp_body r) then heap w b else h b)"
    by (rule write_callback_fails [OF assms])
  have "h b = None" if "b \<in> blocks_of (resp_body r)" for b
    using that run(2) assms(1) by (auto elim!: resp_invE)
  then have "case body of
       None \<Rightarrow> heap w'' = h
     | Some a \<Rightarrow> \<exists>c. resp_body r = Ptr c \<and> h c = None \<and> heap w'' = h(c \<mapsto> Chars (map Some (a @ [LF, NUL])))"
    using run(3,7) by (cases body) (auto simp: fun_eq_iff)
  then show ?thesis using run by (intro exI [of _ w'] exI [of _ r] exI [of _ w'']) simp
qed

theorem write_callback_without_memory_witness:
  "\<exists>w1 w' w'' c. write_callback ''ke'' 1 (length ''ke'') (Ptr 7) answer_world = Some (2, w1) \<and>
    write_callback ''y'' 1 (length ''y'') (Ptr 7) (w1\<lparr>alloc_ok := \<lambda>_. False\<rparr>) = Some (0, w') \<and>
    free_response (Ptr 7) w' = Some w'' \<and> heap w'' = (heap demo_world)(c \<mapsto> Chars (map Some (''ke'' @ [LF, NUL])))"
proof -
  have "alloc_ok answer_world (brk answer_world)" by (simp add: answer_world_def demo_world_def start_def)
  from write_callback_inv [OF answer_world_inv this, of "''ke''"] obtain w1 where
    w1: "write_callback ''ke'' 1 (length ''ke'') (Ptr 7) answer_world = Some (2, w1)"
      "resp_inv (heap demo_world) 7 (Some ''ke'') [] w1"
    by (auto simp: ptrdiff_max_def)
  have "resp_inv (heap demo_world) 7 (Some ''ke'') [] (w1\<lparr>alloc_ok := \<lambda>_. False\<rparr>)"
    by (rule resp_inv_cong [OF w1(2)]) simp_all
  from write_callback_without_memory [OF this, of "''y''" undefined "[]"] obtain w' w'' c where
    "write_callback ''y'' 1 (length ''y'') (Ptr 7) (w1\<lparr>alloc_ok := \<lambda>_. False\<rparr>) = Some (0, w')"
    "free_response (Ptr 7) w' = Some w''" "heap w'' = (heap demo_world)(c \<mapsto> Chars (map Some (''ke'' @ [LF, NUL])))"
    by (auto simp: ptrdiff_max_def)
  with w1(1) show ?thesis by blast
qed

text \<open>
  C32. \<^verbatim>\<open>get_content_type\<close> returns the value of the first content-type header in lower case without the two
  line end characters, in a fresh string, and null if there is no such header. A value of a single
  character is outside its defined behaviour: the length underflows, the buffer gets size zero.
\<close>

theorem content_type_found:
  assumes inv: "resp_inv h p body hs w" and hs: "c_strings hs" "list_all (\<lambda>h. length h \<le> int_max) hs"
    and mem: "alloc_ok w (brk w)"
  shows "get_content_type (Ptr p) w =
    (case find is_content_type hs of
       None \<Rightarrow> Some (NULL, w)
     | Some h \<Rightarrow>
         let v = content_type_value h in
         if length v = 0 then Some (NULL, w\<lparr>brk := Suc (brk w)\<rparr>)
         else if length v = 1 then None
         else Some (Ptr (brk w), w\<lparr>brk := Suc (brk w),
                heap := (heap w)(brk w \<mapsto> str_obj (lower (take (length v - 2) v)))\<rparr>))"
  using mem by (simp add: get_content_type_eq [OF inv hs] content_type_result_def alloc_str_def Let_def
      split: option.splits)

theorem content_type_found_witness:
  "get_content_type (Ptr 7) content_world =
    Some (Ptr 9, content_world\<lparr>brk := 10, heap := (heap content_world)(9 \<mapsto> str_obj ''application/json'')\<rparr>)"
proof -
  have mem: "alloc_ok content_world (brk content_world)"
    by (simp add: content_world_def answer_world_def demo_world_def start_def)
  have len: "list_all (\<lambda>h. length h \<le> int_max) [content_header]"
    by (simp add: content_header_def int_max_def)
  have nul: "c_strings [content_header]" and f: "find is_content_type [content_header] = Some content_header"
    and v: "length (content_type_value content_header) = 18"
      "lower (take 16 (content_type_value content_header)) = ''application/json''"
    by code_simp+
  have b: "brk content_world = 9" by (simp add: content_world_def)
  show ?thesis
    unfolding content_type_found [OF content_world_inv nul len mem] f
    using v by (auto simp: b Let_def)
qed

section \<open>The headers of a request\<close>

text \<open>
  C13. \<^verbatim>\<open>authHeader\<close> returns the authorization header in a fresh string: the user, the names of the signed
  headers in lower case, and the hexadecimal digits of the HMAC over the headers, one per line, and the body. Apart from this
  string the heap is as before, so the two temporary buffers are freed; null is returned only when
  an allocation failed. The headers have a colon, the texts have lengths that fit, and the library computes a HMAC of 64
  bytes (when it does not, see \<open>digest_roundtrip\<close>).
\<close>

theorem auth_header_text:
  assumes wf: "world_wf w" and pre: "auth_pre L headers username key body hs u k bd d w"
  shows "\<exists>p w'. authHeader L headers username key body w = Some (p, w') \<and>
    (if p = NULL then heap w' = heap w \<and> (\<exists>n. \<not> alloc_ok w n)
     else \<exists>b. p = Ptr b \<and> heap w b = None \<and> heap w' = (heap w)(b \<mapsto> str_obj (auth_text u hs d)) \<and>
       cstr p w' = Some (auth_text u hs d))"
proof -
  obtain p w' where run: "authHeader L headers username key body w = Some (p, w')"
    using auth.defined [OF wf pre] by auto
  note fresh = auth.result_fresh [OF wf pre run]
  show ?thesis
  proof (cases "p = NULL")
    case True
    then show ?thesis using run auth.null_only_without_memory [OF wf pre] fresh
      by (intro exI [of _ p] exI [of _ w']) (auto simp: fresh_str_def)
  next
    case False
    then show ?thesis using run auth.result_text [OF wf pre run] fresh wf
      by (intro exI [of _ p] exI [of _ w']) (auto elim!: fresh_str_cases dest: world_wfD)
  qed
qed

theorem auth_header_text_witness:
  "\<exists>p w'. authHeader demo_lib (Ptr 8) (Lit ''client'') (Lit ''s3cret'') NULL names_world = Some (p, w') \<and>
    cstr p w' = Some (auth_text ''client'' [''Date: today'', ''Host: a''] (replicate 64 CHR 0x5A))"
proof -
  have "auth_pre demo_lib (Ptr 8) (Lit ''client'') (Lit ''s3cret'') NULL [''Date: today'', ''Host: a''] ''client'' ''s3cret''
      [] (replicate 64 CHR 0x5A) names_world"
    by (simp add: auth_pre_def names_world_def slist_of_def deref_def server_def signed_data_def auth_text_def
        ptrdiff_max_def int_max_def demo_names)
  from auth_header_text [OF names_world_wf this] obtain p w' where
    run: "authHeader demo_lib (Ptr 8) (Lit ''client'') (Lit ''s3cret'') NULL names_world = Some (p, w')"
      "p \<noteq> NULL \<Longrightarrow> cstr p w' = Some (auth_text ''client'' [''Date: today'', ''Host: a''] (replicate 64 CHR 0x5A))"
      "p = NULL \<Longrightarrow> \<exists>n. \<not> alloc_ok names_world n"
    by (auto split: if_splits)
  moreover have "\<forall>n. alloc_ok names_world n"
    by (simp add: names_world_def answer_world_def demo_world_def start_def)
  ultimately show ?thesis by blast
qed

lemma hex_digits: "list_all (\<lambda>d. digit d \<in> set ''0123456789ABCDEF'') [0..<16]"
  by code_simp

lemma show_hex02_chars: "set (show_hex02 (of_char c)) \<subseteq> set ''0123456789ABCDEF''"
proof -
  have d: "digit n \<in> set ''0123456789ABCDEF''" if "n < 16" for n
    using hex_digits [unfolded list_all_iff, rule_format, of n] that by (simp only: set_upt atLeastLessThan_iff) blast
  have "nat (of_char c) div 16 < 16" "nat (of_char c) mod 16 < 16"
    by (simp_all add: less_mult_imp_div_less nat_less_iff)
  then show ?thesis using d by (simp only: show_hex02_def list.set insert_subset empty_subsetI simp_thms)
qed

text \<open>
  C30. The 64 bytes of the digest are printed without leaving the static buffer of 129, and can be read back from its 128
  hexadecimal digits, which are followed by the terminator; nothing else changes. When the library computes no digest,
  the code reads it through the null pointer it gets, and the behaviour is undefined.
\<close>

theorem digest_roundtrip:
  assumes "cstr key w = Some k" "cstr message w = Some m" "length (g_hex_digest w) = 129"
    and "\<And>d. lib_hmac L k m = Some d \<Longrightarrow> length d = 64"
  shows "case lib_hmac L k m of
      None \<Rightarrow> hmac_sha512 L key message w = None
    | Some d \<Rightarrow> \<exists>s. hmac_sha512 L key message w = Some (s, w\<lparr>g_hex_digest := s @ [NUL]\<rparr>) \<and> length s = 128 \<and>
        set s \<subseteq> set ''0123456789ABCDEF'' \<and> unhex s = d"
proof (cases "lib_hmac L k m")
  case None
  then show ?thesis using assms(1,2) by (simp add: hmac_sha512_def)
next
  case (Some d)
  have "set (hex_of d) \<subseteq> set ''0123456789ABCDEF''"
    using show_hex02_chars unfolding hex_of_def by fastforce
  then show ?thesis
    using hmac_sha512_spec [OF assms(1,2) Some assms(4) [OF Some] assms(3)] assms(4) [OF Some] Some
    by (intro option.case_eq_if [THEN iffD2]) simp
qed

theorem digest_roundtrip_witness:
  "(\<exists>s. hmac_sha512 demo_lib (Lit ''s3cret'') (Lit ''message'') demo_world =
      Some (s, demo_world\<lparr>g_hex_digest := s @ [NUL]\<rparr>) \<and> length s = 128 \<and> unhex s = replicate 64 CHR 0x5A) \<and>
   hmac_sha512 (demo_lib\<lparr>lib_hmac := \<lambda>k m. None\<rparr>) (Lit ''s3cret'') (Lit ''message'') demo_world = None"
proof -
  have w: "cstr (Lit ''s3cret'') demo_world = Some ''s3cret''" "cstr (Lit ''message'') demo_world = Some ''message''"
    "length (g_hex_digest demo_world) = 129"
    by (simp_all add: demo_world_def start_def)
  have d: "lib_hmac demo_lib ''s3cret'' ''message'' = Some (replicate 64 CHR 0x5A)" by (simp add: server_def)
  show ?thesis
    using digest_roundtrip [OF w, of demo_lib] digest_roundtrip [OF w, of "demo_lib\<lparr>lib_hmac := \<lambda>k m. None\<rparr>"] d by auto
qed

text \<open>
  C31. \<^verbatim>\<open>joinHeaderNames\<close> on any list of headers has a result and stays within the buffer it has measured: with memory the names
  before the colons, in lower case, separated by single spaces, in a fresh string of just this length; without memory null.
  A header without a colon makes it give up before it allocates anything.
\<close>

theorem header_names_joined:
  assumes "slist_of p w = Some hs" "c_strings hs" "length (join_names hs) < int_max"
  shows "joinHeaderNames p w =
    (if list_ex (\<lambda>h. CHR '':'' \<notin> set h) hs then Some (NULL, w)
     else if alloc_ok w (brk w) then
       Some (Ptr (brk w), w\<lparr>brk := Suc (brk w), heap := (heap w)(brk w \<mapsto> str_obj (lower (join_names hs)))\<rparr>)
     else Some (NULL, w\<lparr>brk := Suc (brk w)\<rparr>))"
proof (cases "with_colons hs")
  case True
  then have "\<not> list_ex (\<lambda>h. CHR '':'' \<notin> set h) hs" by (auto simp: list_ex_iff list_all_iff)
  then show ?thesis
    unfolding joinHeaderNames_eq [OF assms(1) True assms(2,3)] by (simp add: alloc_str_def)
next
  case False
  then have "list_ex (\<lambda>h. CHR '':'' \<notin> set h) hs" by (auto simp: list_ex_iff list_all_iff)
  then show ?thesis using joinHeaderNames_bad [OF assms(1) False] by simp
qed

theorem header_names_joined_witness:
  "\<exists>w'. joinHeaderNames (Ptr 8) names_world = Some (Ptr (brk names_world), w') \<and>
    heap w' (brk names_world) = Some (str_obj ''date host'')"
proof -
  have pre: "slist_of (Ptr 8) names_world = Some [''Date: today'', ''Host: a'']"
    by (simp add: names_world_def)
  have len: "length (join_names [''Date: today'', ''Host: a'']) < int_max"
    by (simp add: demo_names int_max_def)
  have mem: "alloc_ok names_world (brk names_world)"
    by (simp add: names_world_def answer_world_def demo_world_def start_def)
  have t: "lower (join_names [''Date: today'', ''Host: a'']) = ''date host''" unfolding demo_names by code_simp
  show ?thesis using header_names_joined [OF pre _ len] mem unfolding t by simp
qed

text \<open>
  C29. The date header names the moment it was made for, for every time of the years 1000 to 9999: it has the 35 characters of
  a date of RFC 7231, with its separators, and the names of the month and of the day of the week are those of the RFC.
  Read back by them it gives the same second, and its day of the week is that of the moment (the first of January 1970
  was a Thursday).
\<close>

theorem date_header_roundtrip:
  assumes tm: "gmtime t = Some tm" "1000 \<le> tm_year tm + 1900" "tm_year tm + 1900 \<le> 9999"
    and wf: "world_wf w" and mem: "alloc_ok w (brk w)"
  shows "\<exists>p w' s. date_header L (Some t) w = Some (p, w') \<and> cstr p w' = Some s \<and> length s = 35 \<and>
    date_frame s = [''Date: '', '', '', '' '', '' '', '' '', '':'', '':'', '' GMT''] \<and>
    read_date s = t \<and> read_weekday s = (t div 86400 + 4) mod 7"
proof -
  note ok = gmtime_ok [OF tm(1)]
  note dt = date_text_ok [OF ok(1) tm(2,3)]
  have "date_header L (Some t) w = Some (alloc_str (date_text tm) w)"
    by (rule date_header_eq [OF tm(1) _ wf]) (use tm(3) dt(1) in \<open>simp_all add: int_max_def\<close>)
  moreover have "cstr (Ptr (brk w)) (snd (alloc_str (date_text tm) w)) = Some (date_text tm)"
    using mem date_text_chars(2) [OF ok(1)] by (simp add: alloc_str_def)
  ultimately show ?thesis using mem dt ok(2) gmtime_wday [OF tm(1)] by (simp add: alloc_str_def)
qed

theorem date_header_roundtrip_witness:
  "\<exists>p w' s. date_header demo_lib (Some 784111777) demo_world = Some (p, w') \<and> cstr p w' = Some s \<and>
    length s = 35 \<and> read_date s = 784111777 \<and> read_weekday s = 0"
proof -
  have tm: "gmtime 784111777 = Some \<lparr>tm_sec = 37, tm_min = 49, tm_hour = 8, tm_mday = 6, tm_mon = 10,
      tm_year = 94, tm_wday = 0\<rparr>" by code_simp
  have mem: "alloc_ok demo_world (brk demo_world)" by (simp add: demo_world_def start_def)
  obtain p w' s where s: "date_header demo_lib (Some 784111777) demo_world = Some (p, w')" "cstr p w' = Some s"
    "length s = 35" "read_date s = 784111777" "read_weekday s = (784111777 div 86400 + 4) mod 7"
    using date_header_roundtrip [OF tm _ _ world_wf_demo mem, of demo_lib] by auto
  moreover have "(784111777 div 86400 + 4) mod 7 = (0 :: int)" by simp
  ultimately show ?thesis by auto
qed

end
