(* ===== verification/Module_Properties.thy ===== *)
theory Module_Properties
  imports Example_Run
begin

text \<open>
  The properties of \<^verbatim>\<open>src/mod/module.c\<close> and of the two modules: the loops over the table, the registration,
  the delivery of the key, the configuration, the initialisation and the clean-up.
\<close>

section \<open>The loops over the table\<close>

text \<open>
  C21. Every loop of \<^verbatim>\<open>module.c\<close> the program runs visits exactly the registered modules, each once and in the
  order of their registration, and stops at the first error. The 32 bit counter does not wrap, no entry
  is read out of bounds, and every callback is defined (systemd reports no error here). \<^verbatim>\<open>handle_failure\<close>, which the program does not call, would do
  nothing: no module has a callback for it.
\<close>

theorem module_loops_are_walks:
  assumes "table mps w" "modules_inv mps w" "listen_ok P" "cstr key w = Some k"
  shows "handle_success (dispatch P) key w = walk (success_step (dispatch P) key) mps w \<and>
    initialize_modules (dispatch P) w = walk (init_step (dispatch P)) mps w \<and>
    parse_config (dispatch P) ini w = walk (parse_config_step (dispatch P) ini) mps w \<and>
    module_loop (cleanup_step (dispatch P)) 0 w = walk (cleanup_step (dispatch P)) mps w \<and>
    walk (success_step (dispatch P) key) mps w \<noteq> None \<and> walk (init_step (dispatch P)) mps w \<noteq> None \<and>
    walk (parse_config_step (dispatch P) ini) mps w \<noteq> None \<and> walk (cleanup_step (dispatch P)) mps w \<noteq> None \<and>
    handle_failure (dispatch P) err w = Some (UL_OK, w)"
  unfolding handle_failure_nothing [OF assms(1,2)] handle_success_def initialize_modules_def parse_config_def
  using assms success.loop_is_walk init.loop_is_walk config.loop_is_walk cleanup.loop_is_walk
    success.walk_defined init.walk_defined config.walk_defined cleanup.walk_defined
  by (metis option.distinct(1))

theorem module_loops_are_walks_witness:
  "handle_success (dispatch demo_platform) (Lit ''key'') demo_world =
      walk (success_step (dispatch demo_platform) (Lit ''key'')) [Ptr 1, Ptr 4] demo_world \<and>
    initialize_modules (dispatch demo_platform) demo_world = walk (init_step (dispatch demo_platform)) [Ptr 1, Ptr 4] demo_world"
proof -
  have "table [Ptr 1, Ptr 4] demo_world" "modules_inv [Ptr 1, Ptr 4] demo_world"
    using modules_ready_demo by (simp_all add: modules_ready_def)
  moreover have "listen_ok demo_platform" by (simp add: listen_ok_def demo_platform_def)
  ultimately show ?thesis using module_loops_are_walks [of "[Ptr 1, Ptr 4]" demo_world demo_platform "Lit ''key''" "''key''"]
    by simp
qed

section \<open>Registration\<close>

text \<open>
  C22. \<^verbatim>\<open>register_module\<close> appends: the module comes last in the table, and its parser with its input comes last
  among the child parsers, whose array stays terminated. The arrays move to larger blocks, the old ones are
  freed, and nothing else changes.
\<close>

theorem registration_appends:
  assumes "registry mps kids w" "module_of mp w = Some m" "mod_argp m \<noteq> NULL" "world_wf w"
    "\<forall>n. alloc_ok w n" "length mps < 4294967295" "length kids \<le> 4294967296"
  shows "\<exists>w'. register_module mp w = Some (UL_OK, w') \<and>
    registry (mps @ [mp]) (kids @ [(mod_argp m, mp)]) w' \<and> table (mps @ [mp]) w' \<and>
    children_of w' = Some (map fst kids @ [mod_argp m]) \<and>
    moved (registry_blocks w) (registry_blocks w') w w' \<and> trace w' = trace w \<and> ext w' = ext w"
  using register_module_spec [OF assms] registry_table registry_children(1) unfolding registering_def
  by fastforce

theorem registration_appends_witness:
  "\<exists>sd w1 m w2. get_mod_sd_socket demo_start = Some (sd, w1) \<and> module_of sd w1 = Some m \<and>
    register_module sd w1 = Some (UL_OK, w2) \<and> registry [sd] [(mod_argp m, sd)] w2 \<and> table [sd] w2 \<and>
    children_of w2 = Some [mod_argp m]"
proof -
  have s: "registry [] [] demo_start" "world_wf demo_start" "\<forall>n. alloc_ok demo_start n"
    using startable_demo by (simp_all add: startable_def)
  obtain sd w1 where w1: "get_mod_sd_socket demo_start = Some (sd, w1)" "is_sd_socket sd False 0 w1"
      "moved {} (owned sd w1) demo_start w1" "same_statics demo_start w1"
    using get_mod_sd_socket_spec [OF s(2,3)] by blast
  obtain m where m: "module_of sd w1 = Some m" "mod_argp m \<noteq> NULL" using is_sd_socket_module [OF w1(2)] by blast
  have r: "registry [] [] w1" using registry_statics [OF s(1) w1(4,3)] by simp
  have mem: "\<forall>n. alloc_ok w1 n" using s(3) movedD(2) [OF w1(3)] by simp
  show ?thesis
    using registration_appends [OF r m movedD(1) [OF w1(3)] mem] w1(1) m(1) by auto
qed

text \<open>
  C38. Without memory for the larger table, \<^verbatim>\<open>register_module\<close> reports it, but it has overwritten the pointer to
  the old table: that block is lost, and every later loop over the modules goes through a null
  pointer.
\<close>

theorem registration_without_memory:
  assumes "registry mps kids w" "mps \<noteq> []" "length mps < 4294967295" "\<not> alloc_ok w (brk w)"
  shows "\<exists>w'. register_module mp w = Some (UL_MALLOC, w') \<and> g_modules w' = NULL \<and> heap w' = heap w \<and>
    module_loop step 0 w' = None"
proof -
  note r = assms(1) [unfolded registry_def]
  have arr: "array (g_modules w) (map Some mps) w" and cnt: "unat (g_module_count w) = length mps" using r by blast+
  have suc: "unat (g_module_count w + 1) = length mps + 1" by (rule unat_Suc_count [OF cnt assms(3)])
  let ?w' = "w\<lparr>brk := Suc (brk w), g_modules := NULL\<rparr>"
  have "realloc_ptr_array 8 (g_modules w) (length mps + 1) w = Some (NULL, w\<lparr>brk := Suc (brk w)\<rparr>)"
    by (rule realloc_ptr_array_fails [OF assms(4) arr]) simp
  then have "register_module mp w = Some (UL_MALLOC, ?w')" by (simp add: register_module_def suc Let_def)
  moreover have "module_loop step 0 ?w' = None"
  proof -
    have "0 < g_module_count w" using cnt assms(2) by (simp add: word_less_nat_alt)
    then show ?thesis by (simp add: module_loop.simps get_entry_def ptr_array_of_def deref_def)
  qed
  ultimately show ?thesis by (intro exI [of _ ?w']) simp
qed

theorem registration_without_memory_witness:
  "\<exists>sd st w w'. plugged sd st False 0 False w \<and> register_module st (w\<lparr>alloc_ok := \<lambda>_. False\<rparr>) = Some (UL_MALLOC, w') \<and>
    handle_success (dispatch demo_platform) (Lit ''key'') w' = None"
proof -
  obtain sd st w where w: "plugged sd st False 0 False w" "ext w = (0 :: nat)" by (rule demo_plugged)
  have "registry [sd, st] (parsers_of sd st w) (w\<lparr>alloc_ok := \<lambda>_. False\<rparr>)"
    by (rule registry_cong [of _ _ w]) (use w(1) in \<open>simp_all add: plugged_def\<close>)
  from registration_without_memory [OF this, of st "success_step (dispatch demo_platform) (Lit ''key'')"]
  show ?thesis using w(1) unfolding handle_success_def by auto
qed

section \<open>The delivery\<close>

text \<open>
  C23. \<^verbatim>\<open>handle_success\<close> hands the key to the socket module first, and to the module for the standard output if
  that succeeded; a disabled module gets nothing. The error it returns and the events are exactly those the
  results of \<^verbatim>\<open>accept\<close>, \<^verbatim>\<open>send\<close>, \<^verbatim>\<open>fwrite\<close> and \<^verbatim>\<open>fflush\<close> stand for, and the memory is as before.
\<close>

theorem handle_success_delivers:
  assumes "modules_ready sd st en1 fd en2 w" "cstr key w = Some k"
  shows "\<exists>err w' es. handle_success (dispatch P) key w = Some (err, w') \<and> heap w' = heap w \<and> brk w' = brk w \<and>
    actions w' = actions w @ es \<and> delivered P en1 fd en2 k err es"
  using handle_success_spec [OF assms, of P] unfolding same_memory_def did_def by blast

theorem handle_success_delivers_witness:
  "\<exists>w'. handle_success (dispatch demo_platform) (Lit ''key'') demo_world = Some (UL_OK, w') \<and> heap w' = heap demo_world \<and>
    actions w' = actions demo_world @ [Fwrite ''key'']"
proof -
  obtain err w' es where run: "handle_success (dispatch demo_platform) (Lit ''key'') demo_world = Some (err, w')"
      "heap w' = heap demo_world" "actions w' = actions demo_world @ es"
      "delivered demo_platform False 0 True ''key'' err es"
    using handle_success_delivers [OF modules_ready_demo, of "Lit ''key''" "''key''" demo_platform] by auto
  then show ?thesis using delivered_reliable [OF run(4) demo_reliable] by simp
qed

text \<open>
  C39. The socket module counts a partial transmission as a success: whatever number of bytes \<^verbatim>\<open>send\<close> takes, as
  long as it is not negative, the result is \<open>UL_OK\<close>, and the descriptor of the client is not closed.
\<close>

theorem partial_send_succeeds:
  assumes "is_sd_socket mp True fd w" "cstr key w = Some k"
    and "os_accept P fd (ext w) = (c, x)" "0 \<le> c" "os_send P c k x = (n, y)" "0 \<le> n" "n \<le> int (length k)" "n \<le> 2147483647"
  shows "\<exists>w'. sd_socket_success P mp key w = Some (UL_OK, w') \<and>
    actions w' = actions w @ [Accept fd, Send c k]"
proof -
  obtain m where m: "module_of mp w = Some m" "mod_enabled m" "socket_fd_of (mod_state m) w = Some fd"
    using assms(1) by (auto simp: is_sd_socket_def sd_socket_module_def socket_fd_of_def deref_def)
  have "signed_take_bit 31 n = n" using assms(6,8) by (simp add: signed_take_bit_int_eq_self)
  then have "\<not> bit n 31" using assms(6) signed_take_bit_negative_iff [of 31 n] by simp
  then show ?thesis
    using m assms by (simp add: sd_socket_success_def Let_def) (simp add: emit_def actions_def)
qed

theorem partial_send_succeeds_witness:
  "\<exists>sd st w w'. plugged sd st True 0 False w \<and>
    sd_socket_success (demo_platform\<lparr>os_send := \<lambda>c s x. (1, x)\<rparr>) sd (Lit ''key'') w = Some (UL_OK, w') \<and>
    actions w' = actions w @ [Accept 0, Send 5 ''key'']"
proof -
  obtain sd st w0 where w0: "plugged sd st False 0 False w0" "ext w0 = (0 :: nat)" by (rule demo_plugged)
  obtain w where w: "plugged_step sd st True 0 False w0 w"
    using child_option(1) [OF w0(1) refl] by blast
  then have "is_sd_socket sd True 0 w" by (simp add: plugged_step_def plugged_def)
  moreover have "cstr (Lit ''key'') w = Some ''key''" by simp
  ultimately show ?thesis
    using partial_send_succeeds [of sd 0 w "Lit ''key''" "''key''" "demo_platform\<lparr>os_send := \<lambda>c s x. (1, x)\<rparr>" 5 "ext w" 1 "ext w"] w
    by (auto simp: demo_platform_def plugged_step_def)
qed

section \<open>Initialisation and clean-up\<close>

text \<open>
  C25. \<^verbatim>\<open>initialize_modules\<close> compares the number of sockets systemd has passed with the socket module, for every number: a
  disabled module takes none, an enabled one exactly one, whose descriptor, number 3, it keeps; any other number is one of the
  three errors, and the state of the modules stays. A negative number is how \<^verbatim>\<open>sd_listen_fds_with_names\<close> reports an
  error: a disabled module takes it for none, an enabled one reads the name of a descriptor that is not there, and
  the behaviour is undefined. Otherwise systemd returns as many names as descriptors.
\<close>

theorem initialisation_checks_sockets:
  assumes "plugged sd st en1 fd en2 w" "names_ok P" "os_listen_fds P (ext w) = ((n, names), x)"
  shows "if en1 \<and> n < 0 then initialize_modules (dispatch P) w = None
    else \<exists>w'. initialize_modules (dispatch P) w =
        Some (if en1 then (if n = 0 then UL_SD_SOCKET_NO_FD else if n = 1 then UL_OK else UL_SD_SOCKET_MANY_FD)
              else (if n \<le> 0 then UL_OK else UL_SD_SOCKET_DISABLED), w') \<and>
      plugged sd st en1 (if en1 \<and> n = 1 then 3 else fd) en2 w' \<and> actions w' = actions w"
proof (cases "en1 \<and> n < 0")
  case True
  then show ?thesis using initialize_modules_error [of sd st fd en2 w P n names x] assms by simp
next
  case False
  then have pos: "en1 \<Longrightarrow> 0 \<le> n" by simp
  obtain w' where w': "initialize_modules (dispatch P) w = Some (sd_socket_init_err en1 n, w')"
      "plugged_step sd st en1 (if en1 \<and> n = 1 then SD_LISTEN_FDS_START else fd) en2 w w'"
    using initialize_modules_spec [OF assms pos] by blast
  have err: "sd_socket_init_err en1 n =
      (if en1 then (if n = 0 then UL_SD_SOCKET_NO_FD else if n = 1 then UL_OK else UL_SD_SOCKET_MANY_FD)
       else (if n \<le> 0 then UL_OK else UL_SD_SOCKET_DISABLED))"
    using pos by (auto simp: sd_socket_init_err_def)
  have "plugged sd st en1 (if en1 \<and> n = 1 then 3 else fd) en2 w'" "actions w' = actions w"
    using w'(2) by (simp_all add: plugged_step_def did_def)
  then show ?thesis using False w'(1) unfolding err by simp
qed

theorem initialisation_checks_sockets_witness:
  "\<exists>sd st w w' v. plugged sd st False 0 False w \<and> initialize_modules (dispatch demo_platform) w = Some (UL_OK, w') \<and>
    plugged sd st False 0 False w' \<and> plugged sd st True 0 False v \<and>
    initialize_modules (dispatch (demo_platform\<lparr>os_listen_fds := \<lambda>x. ((- 5, []), x)\<rparr>)) v = None"
proof -
  obtain sd st w where w: "plugged sd st False 0 False w" "ext w = (0 :: nat)" by (rule demo_plugged)
  have n: "os_listen_fds demo_platform (ext w) = ((0, []), 0)" using w(2) by (simp add: demo_platform_def)
  obtain w' where w': "initialize_modules (dispatch demo_platform) w = Some (UL_OK, w')" "plugged sd st False 0 False w'"
    using initialisation_checks_sockets [OF w(1) demo_listen_names n] by auto
  obtain v where "plugged_step sd st True 0 False w v"
    using child_option(1) [OF w(1) refl] by blast
  then have v: "plugged sd st True 0 False v" by (simp add: plugged_step_def)
  let ?P = "demo_platform\<lparr>os_listen_fds := \<lambda>x. ((- 5, []), x)\<rparr>"
  have P: "names_ok ?P" "os_listen_fds ?P (ext v) = ((- 5, []), ext v)" by (simp_all add: names_ok_def)
  have "initialize_modules (dispatch ?P) v = None"
    using initialisation_checks_sockets [OF v P] by simp
  then show ?thesis using w(1) w' v by blast
qed

text \<open>
  \<^verbatim>\<open>parse_config\<close> sets the flag of a module to what \<^verbatim>\<open>use_socket\<close> and \<^verbatim>\<open>use_stdout\<close> say, and leaves it when they
  say neither yes nor no. It changes nothing else, so it can also switch off what the command line has
  switched on.
\<close>

theorem configuration_sets_flags:
  assumes "plugged sd st en1 fd en2 w"
  shows "\<exists>w'. parse_config (dispatch P) ini w = Some (UL_OK, w') \<and>
    plugged sd st (configured (ini_boolean ini ''sd_socket:use_socket'' (- 1)) en1) fd
      (configured (ini_boolean ini ''stdout:use_stdout'' (- 1)) en2) w' \<and>
    program_blocks sd st w' = program_blocks sd st w \<and>
    (\<forall>b. b \<notin> program_blocks sd st w \<longrightarrow> heap w' b = heap w b) \<and> actions w' = actions w"
  using parse_config_spec [OF assms, of P ini] movedD(5)
  unfolding plugged_step_def did_def by fastforce

theorem configuration_sets_flags_witness:
  "\<exists>sd st w w'. plugged sd st False 0 False w \<and> parse_config (dispatch demo_platform) demo_ini w = Some (UL_OK, w') \<and>
    plugged sd st False 0 True w'"
proof -
  obtain sd st w where w: "plugged sd st False 0 False w" "ext w = (0 :: nat)" by (rule demo_plugged)
  have "configured (ini_boolean demo_ini ''sd_socket:use_socket'' (- 1)) False = False"
    "configured (ini_boolean demo_ini ''stdout:use_stdout'' (- 1)) False = True"
    by (simp_all add: configured_def demo_ini_def)
  then show ?thesis using configuration_sets_flags [OF w(1), of demo_platform demo_ini] w(1) by auto
qed

text \<open>
  C24. At the end the modules are gone: \<^verbatim>\<open>free_child_parsers\<close> and \<^verbatim>\<open>cleanup_modules\<close> free every block of the modules, of
  the table and of the arrays of the parsers, each once, and no other block.
\<close>

theorem modules_freed_exactly:
  assumes "plugged sd st en1 fd en2 w"
  shows "\<exists>w1 w2. free_child_parsers w = Some w1 \<and> cleanup_modules (dispatch P) w1 = Some (UL_OK, w2) \<and>
    (\<forall>b. heap w2 b = (if b \<in> program_blocks sd st w then None else heap w b)) \<and> actions w2 = actions w"
proof -
  obtain w1 w2 where "free_child_parsers w = Some w1" "cleanup_modules (dispatch P) w1 = Some (UL_OK, w2)"
    "heap w2 = heap (freed (program_blocks sd st w) w)" "actions w2 = actions w"
    by (rule modules_torn_down [OF assms, of P])
  then show ?thesis by auto
qed

theorem modules_freed_exactly_witness:
  "\<exists>sd st w w1 w2. plugged sd st False 0 False w \<and> free_child_parsers w = Some w1 \<and>
    cleanup_modules (dispatch demo_platform) w1 = Some (UL_OK, w2) \<and>
    (\<forall>b. heap w2 b = (if b \<in> program_blocks sd st w then None else heap w b))"
proof -
  obtain sd st w where w: "plugged sd st False 0 False w" "ext w = (0 :: nat)" by (rule demo_plugged)
  show ?thesis using modules_freed_exactly [OF w(1), of demo_platform] w(1) by blast
qed

end
