(* ===== verification/Program_Output.thy ===== *)
theory Program_Output
  imports Program_Run Lawful_Run
begin

text \<open>
  What a run of the program writes to its standard output: the events that write there, what the protocol of \<^verbatim>\<open>request_key\<close>
  says of them, and the debug flag of a run. Put together, the standard output of a run without verbose output is
  that of its deliveries.
\<close>

section \<open>The standard output\<close>

fun printed_by :: "event \<Rightarrow> string" where
  "printed_by (Fwrite s) = s"
| "printed_by (Print Stdout s) = s"
| "printed_by _ = []"

definition stdout_text :: "event list \<Rightarrow> string" where
  "stdout_text es = concat (map printed_by es)"

lemma stdout_text_simps [simp]:
  "stdout_text [] = []" "stdout_text (e # es) = printed_by e @ stdout_text es"
  "stdout_text (es @ fs) = stdout_text es @ stdout_text fs"
  by (simp_all add: stdout_text_def)

text \<open>Without the debug flag what is printed goes to the standard error.\<close>

lemma stdout_of_actions:
  "list_all (allowed False) es \<Longrightarrow> stdout_text es = stdout_text (filter (\<lambda>e. \<not> is_print e) es)"
proof (induction es)
  case (Cons e es)
  then show ?case by (cases e) simp_all
qed simp

lemma printed_by_secret: "\<not> reveals e \<Longrightarrow> \<not> is_print e \<Longrightarrow> printed_by e = []"
  by (cases e) simp_all

lemma stdout_secret: "secret es \<Longrightarrow> list_all (\<lambda>e. \<not> is_print e) es \<Longrightarrow> stdout_text es = []"
  by (induction es) (simp_all add: printed_by_secret)

section \<open>The protocol and the standard output\<close>

lemma stdout_delivered:
  assumes "delivered P en1 fd en2 k err es"
  shows "stdout_text es \<noteq> [] \<Longrightarrow> en2 \<and> (\<exists>n. stdout_text es = take n k)"
    and "err = UL_OK \<Longrightarrow> en2 \<Longrightarrow> stdout_text es = k"
  using assms
  by (auto simp: delivered_def sd_socket_outcome_def stdout_outcome_def split: if_splits) (metis order_refl take_all)+

text \<open>The key was fetched from \<open>host\<close> in the events \<open>es\<close>.\<close>

definition fetched :: "string \<Rightarrow> event list \<Rightarrow> string \<Rightarrow> bool" where
  "fetched host es k \<longleftrightarrow> (\<exists>e t i. Perform e t \<in> set es \<and> asked e (show_url host i) (Some fulfilled_body) (Some ''PATCH'') \<and>
     k = key_in t)"

lemma protocol_stdout:
  assumes prot: "key_protocol J host handle (delivered P en1 fd en2) es err" and np: "list_all (\<lambda>e. \<not> is_print e) es"
  shows "(stdout_text es \<noteq> [] \<longrightarrow> en2 \<and> (\<exists>k n. fetched host es k \<and> stdout_text es = take n k)) \<and>
    (err = UL_OK \<and> en2 \<longrightarrow> fetched host es (stdout_text es))"
  using prot
proof (cases rule: protocol_shape)
  case (Created e t i es')
  have pre: "stdout_text [Curl_global_init, Perform e t] = []" by simp
  from Created(3) show ?thesis
  proof (cases rule: awaited_shape)
    case (Closed pre1 e1 t1 rest)
    then have "stdout_text pre1 = []" "stdout_text rest = []"
      using np Created(1) by (simp_all add: stdout_secret)
    then show ?thesis using Closed(1,8) Created(1) by auto
  next
    case (Opened pre1 e1 t1 e2 t2 ds)
    then have "stdout_text pre1 = []" using np Created(1) by (simp add: stdout_secret)
    then have s: "stdout_text es = stdout_text ds" using Opened(1) Created(1) by simp
    have f: "fetched host es (key_in t2)"
      unfolding fetched_def using Opened(1,5) Created(1)
      by (intro exI [of _ e2] exI [of _ t2] exI [of _ i]) simp
    show ?thesis unfolding s using stdout_delivered [OF Opened(6)] f by metis
  qed
qed simp

section \<open>The debug flag of a run\<close>

lemma main_debug:
  assumes ok: "inputs_ok L J P loader errno_text f evs w"
    and run: "main L J P loader errno_text fuel evs w = Some (code, w')"
  shows "g_is_debug w' = (verbose (run_settings f evs) = Yes)"
proof -
  obtain args w7 B bs sd st where eq: "main L J P loader errno_text fuel evs w = after_settings L J P errno_text fuel args w7"
    and debug: "g_is_debug w7 = (verbose (run_settings f evs) = Yes)"
    by (rule main_settings [OF ok])
  have "keeps lawful (after_settings L J P errno_text fuel args)"
    unfolding after_settings_def by (rule rules guar)+
  then have "lawful w7 w'" by (rule keepsD) (rule eq [symmetric, THEN trans, OF run])
  then show ?thesis using debug by (simp add: lawful_def)
qed

text \<open>Without verbose output, the standard output is that of the actions.\<close>

lemma main_stdout:
  assumes ok: "inputs_ok L J P loader errno_text f evs w"
    and run: "main L J P loader errno_text fuel evs w = Some (code, w')" "trace w' = trace w @ es"
    and quiet: "verbose (run_settings f evs) \<noteq> Yes" "\<not> g_is_debug w"
  shows "stdout_text es = stdout_text (filter (\<lambda>e. \<not> is_print e) es)"
    "actions w' = actions w @ filter (\<lambda>e. \<not> is_print e) es"
proof -
  have "lawful_run w w'" using main_lawful run(1) by (rule keepsD)
  then obtain v b where v: "lawful w v" "lawful (v\<lparr>g_is_debug := b\<rparr>) w'" unfolding lawful_run_def by blast
  then have "b = g_is_debug w'" by (simp add: lawful_def)
  then have "\<not> b" using main_debug [OF ok run(1)] quiet by simp
  with v quiet(2) run(2) have "list_all (allowed False) es" by (auto simp: lawful_def)
  then show "stdout_text es = stdout_text (filter (\<lambda>e. \<not> is_print e) es)" by (rule stdout_of_actions)
  show "actions w' = actions w @ filter (\<lambda>e. \<not> is_print e) es" using run(2) by (simp add: actions_def)
qed

end
