(* ===== verification/Program_Properties.thy ===== *)
theory Program_Properties
  imports Example_Run Program_Output Low_Memory
begin

text \<open>
  The properties of \<^verbatim>\<open>src/cli.c\<close> and \<^verbatim>\<open>src/main.c\<close>: what the settings of a run are and where they are, and what a
  run of the whole program does; and of \<^verbatim>\<open>src/sockets.c\<close>.
\<close>

section \<open>The settings\<close>

text \<open>
  C14. The settings are layered. For a command line that argp accepts and that names no configuration file or one that can be
  read, and with memory: after \<^verbatim>\<open>handle_args\<close> the settings are those it was given, overridden by those of the
  configuration file, overridden by those of the command line; verbose output is on if they say so. The
  flag of a module is that of the command line, overridden by the file. The two temporary structures are freed and
  no block of the settings is shared with another; what stays behind is one block for each text that an option has replaced
  (none if no option with a text is repeated).
\<close>

theorem settings_are_layered:
  assumes "accepted evs" "settings_at args c B w" "plugged sd st False fd False w" "\<forall>n. alloc_ok w n"
    and "loaded loader evs (ext w) = map_option Some f" "\<And>ini. f = Some ini \<Longrightarrow> ini_ok ini"
  shows "\<exists>w' B' bs. handle_args (dispatch P) loader evs args w = Some (Inr UL_OK, w') \<and>
    settings_at args (override (override c (file_settings f)) (command_line evs)) B' w' \<and>
    plugged sd st (use_socket f evs) fd (use_stdout f evs) w' \<and>
    g_is_debug w' = (verbose (override (override c (file_settings f)) (command_line evs)) = Yes) \<and>
    moved (B \<union> program_blocks sd st w) (B' \<union> set bs \<union> program_blocks sd st w) w w' \<and>
    lost bs (replaced_texts no_settings evs) w' \<and> set bs \<inter> (B' \<union> program_blocks sd st w) = {} \<and>
    (distinct (text_options evs) \<longrightarrow> bs = []) \<and> actions w' = actions w"
proof -
  obtain w' B' c' bs where h: "handle_args (dispatch P) loader evs args w = Some (Inr UL_OK, w')"
    "c' = override (override c (file_settings f)) (command_line evs)"
    "settings_at args c' B' w'" "plugged sd st (use_socket f evs) fd (use_stdout f evs) w'"
    "moved (B \<union> program_blocks sd st w) (B' \<union> set bs \<union> program_blocks sd st w) w w'"
    "lost bs (replaced_texts no_settings evs) w'" "set bs \<inter> (B' \<union> program_blocks sd st w) = {}"
    "g_is_debug w' = (verbose c' = Yes)" "actions w' = actions w"
    by (rule handle_args_spec [OF assms(1-4), where loader = loader and f = f and P = P]) (use assms(5,6) in auto)
  have "bs = []" if "distinct (text_options evs)"
    using h(6) nothing_replaced [OF that] by (simp add: lost_def)
  then show ?thesis using h by (intro exI [of _ w'] exI [of _ B'] exI [of _ bs]) simp
qed

lemma file_line_loaded: "loaded one_file file_line x = Some (Some demo_ini)"
  by (simp add: loaded_def command_line_def file_line_def no_settings_def member_of_def one_file_def)

lemma demo_settings_at:
  obtains sd st w B where "plugged sd st False 0 False w" "\<forall>n. alloc_ok w n"
    "settings_at (Ptr B) no_settings {B} (w :: nat world)"
proof -
  obtain sd st w0 where w0: "plugged sd st False 0 False w0" "\<forall>n. alloc_ok (w0 :: nat world) n" by (rule demo_plugged)
  then have wf: "world_wf w0" by (simp add: plugged_def)
  obtain w where w: "create_args w0 = Some (Ptr (brk w0), w)" "settings_at (Ptr (brk w0)) no_settings {brk w0} w"
      "moved {} {brk w0} w0 w" "heap_only w0 w"
    using create_args_spec [OF wf] w0(2) by blast
  have "plugged sd st False 0 False w"
    using plugged_moved [OF w0(1) w(3) same_statics_heap_only [OF w(4)]] by simp
  moreover have "\<forall>n. alloc_ok w n" using w0(2) movedD(2) [OF w(3)] by simp
  ultimately show ?thesis using that w(2) by blast
qed

theorem settings_are_layered_witness:
  "\<exists>sd st w B w' B' c. plugged sd st False 0 False w \<and> settings_at (Ptr B) no_settings {B} w \<and>
    handle_args (dispatch demo_platform) one_file file_line (Ptr B) w = Some (Inr UL_OK, w') \<and>
    settings_at (Ptr B) c B' w' \<and> plugged sd st False 0 True w' \<and>
    texts c Host = Some ''unlocked.example'' \<and> texts c Secret = Some ''s3cret'' \<and> port c = 8443 \<and> g_is_debug w'"
proof -
  obtain sd st w B where w: "plugged sd st False 0 False w" "\<forall>n. alloc_ok w n"
    "settings_at (Ptr B) no_settings {B} (w :: nat world)" by (rule demo_settings_at)
  have l: "loaded one_file file_line (ext w) = map_option Some (Some demo_ini)" by (simp add: file_line_loaded)
  let ?c = "override (override no_settings (file_settings (Some demo_ini))) (command_line file_line)"
  have c: "texts ?c Host = Some ''unlocked.example''" "texts ?c Secret = Some ''s3cret''" "port ?c = 8443" "verbose ?c = Yes"
    by (simp_all add: override_def no_settings_def config_settings_def demo_ini_def command_line_def file_line_def
        member_of_def map_add_def)
  have flags: "use_socket (Some demo_ini) file_line = False" "use_stdout (Some demo_ini) file_line = True"
    by (simp_all add: use_socket_def use_stdout_def file_line_def demo_ini_def configured_def)
  show ?thesis
    using settings_are_layered [OF accepted_demo(2) w(3,1,2) l, of demo_platform] demo_ini_ok w c unfolding flags by blast
qed

text \<open>
  \<^verbatim>\<open>free_args\<close> frees the structure and each of its strings exactly once, and nothing else.
\<close>

theorem settings_freed_exactly:
  assumes "settings_at args c B w"
  shows "\<exists>w'. free_args args w = Some w' \<and> (\<forall>b. heap w' b = (if b \<in> B then None else heap w b)) \<and>
    trace w' = trace w \<and> brk w' = brk w"
  using free_args_spec [OF assms] by simp

theorem settings_freed_exactly_witness:
  "\<exists>w B w'. settings_at (Ptr B) no_settings {B} (w :: nat world) \<and> free_args (Ptr B) w = Some w' \<and>
    (\<forall>b. heap w' b = (if b \<in> {B} then None else heap w b))"
proof -
  obtain sd st w B where w: "plugged sd st False 0 False w" "\<forall>n. alloc_ok w n"
    "settings_at (Ptr B) no_settings {B} (w :: nat world)" by (rule demo_settings_at)
  show ?thesis using settings_freed_exactly [OF w(3)] w(3) by blast
qed

text \<open>
  C35. A configuration file that cannot be read makes \<^verbatim>\<open>handle_args\<close> fail, whatever else is on a command line that argp accepts.
  The settings are as before, without those
  of the command line, and the two temporary structures stay allocated: the first one with all
  values of the command line, the second one empty.
\<close>

theorem unreadable_file_leaks:
  assumes "accepted evs" "settings_at args c B w" "plugged sd st False fd False w" "\<forall>n. alloc_ok w n"
    and "loaded loader evs (ext w) = Some None"
  shows "\<exists>w' q r C b. handle_args D loader evs args w = Some (Inr UL_ERR, w') \<and> settings_at args c B w' \<and>
    settings_at q (command_line evs) C w' \<and> settings_at r no_settings {b} w' \<and> B \<inter> C = {} \<and> b \<notin> B \<union> C"
proof -
  obtain w' q r C b where "handle_args D loader evs args w = Some (Inr UL_ERR, w')"
    "settings_at args c B w'" "settings_at q (command_line evs) C w'" "settings_at r no_settings {b} w'"
    "B \<inter> C = {}" "b \<notin> B \<union> C"
    by (rule handle_args_unreadable [OF assms, of D])
  then show ?thesis by blast
qed

theorem unreadable_file_leaks_witness:
  "\<exists>w B w' q C. handle_args (dispatch demo_platform) no_file file_line (Ptr B) w = Some (Inr UL_ERR, w') \<and>
    settings_at (Ptr B) no_settings {B} w' \<and> settings_at q (command_line file_line) C w' \<and> {B} \<inter> C = {}"
proof -
  obtain sd st w B where w: "plugged sd st False 0 False w" "\<forall>n. alloc_ok w n"
    "settings_at (Ptr B) no_settings {B} (w :: nat world)" by (rule demo_settings_at)
  have l: "loaded no_file file_line (ext w) = Some None"
    by (simp add: loaded_def command_line_def file_line_def no_settings_def member_of_def no_file_def)
  show ?thesis using unreadable_file_leaks [OF accepted_demo(2) w(3,1,2) l, of "dispatch demo_platform"] by blast
qed

lemma copy_member_again:
  assumes "settings_at args c B w" "NUL \<notin> set s" "length s < ptrdiff_max" "world_wf w" "\<forall>n. alloc_ok w n"
    "texts c m = Some t"
  shows "\<exists>w' b B'. set_string
    (case m of Config \<Rightarrow> arg_config_file_update | Key \<Rightarrow> arg_key_handle_update | Host \<Rightarrow> arg_host_update
     | Secret \<Rightarrow> arg_secret_update | User \<Rightarrow> arg_username_update) (Lit s) args w = Some (Inr 0, w') \<and>
    settings_at args (c\<lparr>texts := (texts c)(m \<mapsto> s)\<rparr>) B' w' \<and> b \<in> B \<and> b \<notin> B' \<and> heap w' b = Some (str_obj t)"
  using assms(6) config_file.copy_again [OF assms(1-5)] key_handle.copy_again [OF assms(1-5)]
    host.copy_again [OF assms(1-5)] secret.copy_again [OF assms(1-5)] username.copy_again [OF assms(1-5)]
  by (cases m) simp_all

text \<open>
  C37. When an option with a text is given again, the last value counts, and the block of the first one is lost: it
  stays allocated, with its text (which may be the secret), and no setting points to it any more.
\<close>

theorem repeated_option_leaks:
  assumes "settings_at input c B w" "world_wf w" "\<forall>n. alloc_ok w n" "member_of key = Some m" "texts c m = Some t"
    "NUL \<notin> set s" "length s < ptrdiff_max"
  shows "\<exists>w' b B'. parse_opt key (Lit s) input w = Some (Inr 0, w') \<and>
    settings_at input (c\<lparr>texts := (texts c)(m \<mapsto> s)\<rparr>) B' w' \<and> b \<in> B \<and> b \<notin> B' \<and> heap w' b = Some (str_obj t)"
  using copy_member_again [OF assms(1,6,7,2,3,5)] parse_opt_member [OF assms(4), of "Lit s" input w] by simp

theorem repeated_option_leaks_witness:
  "\<exists>w p w1 w2 B b B' c. parse_opt 115 (Lit ''old'') p (w :: nat world) = Some (Inr 0, w1) \<and> settings_at p c B w1 \<and>
    parse_opt 115 (Lit ''new'') p w1 = Some (Inr 0, w2) \<and>
    settings_at p (c\<lparr>texts := (texts c)(Secret \<mapsto> ''new'')\<rparr>) B' w2 \<and> b \<in> B \<and> b \<notin> B' \<and> heap w2 b = Some (str_obj ''old'')"
proof -
  obtain sd st w p where w: "plugged sd st False 0 False w" "\<forall>n. alloc_ok w n"
    "settings_at (Ptr p) no_settings {p} (w :: nat world)" by (rule demo_settings_at)
  have wf: "world_wf w" using w(1) by (simp add: plugged_def)
  let ?c = "told no_settings (Opt 115 (Some ''old''))"
  have known: "known_option (Opt 115 (Some ''old''))" by (simp add: member_of_def ptrdiff_max_def)
  obtain w1 B bs where w1: "parse_opt 115 (Lit ''old'') (Ptr p) w = Some (Inr 0, w1)" "moved {p} (B \<union> set bs) w w1"
      "settings_at (Ptr p) ?c B w1"
    using parse_opt_spec [OF w(3) wf w(2) known] by auto
  have mem: "\<forall>n. alloc_ok w1 n" using w(2) movedD(2) [OF w1(2)] by simp
  have "member_of 115 = Some Secret" "texts ?c Secret = Some ''old''" by (simp_all add: member_of_def)
  from repeated_option_leaks [OF w1(3) movedD(1) [OF w1(2)] mem this, of "''new''"] show ?thesis
    using w1(1,3) unfolding ptrdiff_max_def
    by simp blast
qed

lemma atol_digits: "takeWhile is_digit (show_nat n @ t) = show_nat n" if "t = [] \<or> \<not> is_digit (hd t)"
proof -
  have "\<forall>c \<in> set (show_nat n). is_digit c"
    using show_nat_digits digit_cases by (fastforce simp: is_digit_def Let_def)
  then show ?thesis using that by (cases t) (simp_all add: takeWhile_append)
qed

text \<open>
  The port is read from text as \<^verbatim>\<open>atol\<close> does: leading spaces and everything behind the digits are ignored, and a
  number within the range of \<^verbatim>\<open>long\<close> that was printed is read back.
\<close>

theorem port_roundtrip:
  assumes "- 9223372036854775808 \<le> i" "i \<le> 9223372036854775807" "list_all is_space s" "t = [] \<or> \<not> is_digit (hd t)"
  shows "atol (s @ show_int i @ t) = i"
proof -
  have sp: "dropWhile is_space (s @ u) = dropWhile is_space u" for u
    using assms(3) by (induction s) auto
  show ?thesis
  proof (cases "i < 0")
    case True
    have "atol (s @ show_int i @ t) = long_clamp (- int (nat (- i)))"
      using True atol_digits [OF assms(4), of "nat (- i)"]
      by (simp add: atol_def sp show_int_def is_space_def Let_def)
    then show ?thesis using True assms(1,2) by (simp add: long_clamp_def)
  next
    case False
    obtain d ds where d: "show_nat (nat i) = d # ds" by (cases "show_nat (nat i)") auto
    then obtain k where "k < 10" "d = digit k" using show_nat_digits [of d "nat i"] by auto
    then have nd: "48 \<le> (of_char d :: nat)" "(of_char d :: nat) \<le> 57" using digit_cases by auto
    then have "d \<noteq> CHR ''-''" "d \<noteq> CHR ''+''" "\<not> is_space d" by (auto simp: is_space_def Let_def)
    then have "atol (s @ show_int i @ t) = long_clamp (int (nat i))"
      using False atol_digits [OF assms(4), of "nat i"] d read_show_nat [of "nat i"]
      by (simp add: atol_def sp show_int_def)
    then show ?thesis using False assms(1,2) by (simp add: long_clamp_def)
  qed
qed

theorem port_roundtrip_witness: "atol ('' 443'' @ ''/tcp'') = 443"
proof -
  have "show_int 443 = ''443''" by code_simp
  then show ?thesis using port_roundtrip [of 443 "'' ''" "''/tcp''"] by (simp add: is_space_def is_digit_def Let_def)
qed

text \<open>
  \<^verbatim>\<open>validate_args\<close> accepts the settings exactly when host, port, key handle, secret and user are there; otherwise
  it names the first thing that is missing.
\<close>

theorem settings_validated:
  assumes "settings_at args c B w"
  shows "validate_args args w =
      Some (case complaint c of None \<Rightarrow> (EXIT_SUCCESS, w) | Some s \<Rightarrow> (EXIT_FAILURE, complain s w)) \<and>
    (complaint c = None \<longleftrightarrow> port c \<noteq> 0 \<and> (\<forall>m. m = Config \<or> texts c m \<noteq> None))"
proof -
  have "(\<forall>m. m = Config \<or> texts c m \<noteq> None) \<longleftrightarrow>
      texts c Host \<noteq> None \<and> texts c Key \<noteq> None \<and> texts c Secret \<noteq> None \<and> texts c User \<noteq> None"
    by (metis member.exhaust member.distinct)
  then show ?thesis using validate_args_eq [OF assms] complaint_None [of c] by blast
qed

theorem settings_validated_witness:
  "\<exists>w B. settings_at (Ptr B) no_settings {B} (w :: nat world) \<and>
    validate_args (Ptr B) w = Some (EXIT_FAILURE, complain ''No hostname given'' w)"
proof -
  obtain sd st w B where w: "plugged sd st False 0 False w" "\<forall>n. alloc_ok w n"
    "settings_at (Ptr B) no_settings {B} (w :: nat world)" by (rule demo_settings_at)
  have "complaint no_settings = Some ''No hostname given''" by (simp add: complaint_def no_settings_def)
  then show ?thesis using settings_validated [OF w(3)] w(3) by auto
qed

section \<open>The program\<close>

text \<open>
  C2. A run of \<^verbatim>\<open>main\<close>, on any command line argp may hand over. An exit of argp ends it with argp's status, an argument that is not an
  option with the status 64, and a configuration file that cannot be read with the status 1; nothing has happened then. Otherwise the
  settings are the defaults, overridden by the file, overridden by the line. If they are not complete, or the sockets do not fit
  the modules, \<^verbatim>\<open>main\<close> ends with the status 1 and nothing has happened. Otherwise it asks for the key as the
  protocol says, with answers the outside gave, and its status is 0 exactly if the delivery succeeded; while the server says PENDING it has
  none. This is for a start with memory and no module yet, libraries that work as documented, texts of at most a million
  characters, no error of systemd, and answers of the server the code can handle.
\<close>

theorem main_refines_protocol:
  assumes "environment_ok L J P loader errno_text evs w" "0 < fuel" "sane J L" "0 \<le> fst (fst (os_listen_fds P (ext w)))"
  shows "\<exists>code w' es. main L J P loader errno_text fuel evs w = Some (code, w') \<and> actions w' = actions w @ es \<and>
    line_outcome L J P loader fuel evs (ext w) code es"
  by (rule main_total [OF assms])

theorem main_refines_protocol_witness:
  "\<exists>code w' es. main demo_lib demo_json demo_platform no_file ''errno'' 5 demo_line demo_start = Some (code, w') \<and>
    actions w' = actions demo_start @ es \<and>
    run_outcome demo_lib demo_json demo_platform 5 (run_settings None demo_line) False True 0 0 code es"
proof -
  have env: "environment_ok demo_lib demo_json demo_platform no_file ''errno'' demo_line demo_start"
    using demo_inputs by (simp add: inputs_ok_def)
  have n: "os_listen_fds demo_platform (ext demo_start) = ((0, []), 0)"
    by (simp add: demo_platform_def demo_start_def start_def)
  have l: "line_exit demo_line = None" "loaded no_file demo_line (ext demo_start) = None"
    using demo_inputs inputs_okD(6,7) [OF demo_inputs] by (simp_all add: accepted_iff)
  have flags: "use_socket None demo_line = False" "use_stdout None demo_line = True"
    by (simp_all add: use_socket_def use_stdout_def demo_line_def)
  show ?thesis
    using main_refines_protocol [OF env _ demo_ready(3), of 5] n l flags by (simp add: line_outcome_def)
qed

lemma main_run:
  assumes ok: "inputs_ok L J P loader errno_text f evs w" and fuel: "0 < fuel"
    and run: "main L J P loader errno_text fuel evs w = Some (code, w')"
  obtains n names x es where "os_listen_fds P (ext w) = ((n, names), x)" "actions w' = actions w @ es"
    "run_outcome L J P fuel (run_settings f evs) (use_socket f evs) (use_stdout f evs) n x code es"
    "code \<noteq> None \<Longrightarrow> leaks (replaced_texts no_settings evs) w w'"
proof -
  obtain n names x where n: "os_listen_fds P (ext w) = ((n, names), x)" by (metis surj_pair)
  show ?thesis by (cases rule: main_outcome [OF ok fuel n]) (use run that [OF n] in auto)
qed

text \<open>
  C19. The program ends, whatever the command line says: against a server that says PENDING at most so often, \<^verbatim>\<open>main\<close>
  returns a status as soon as the fuel exceeds that number. If the line has nothing but options and no file that cannot be read, all
  memory is freed then but one block for each text an option has replaced. This is for a start with memory and no module
  yet, libraries that work as documented, texts of at most a million characters, no error of systemd, and answers of the server the
  code can handle.
\<close>

theorem main_returns:
  assumes env: "environment_ok L J P loader errno_text evs w" "sane J L" and n: "os_listen_fds P (ext w) = ((n, names), x)" "0 \<le> n"
    and patience: "patience J L m" "m x < fuel"
  shows "\<exists>code w'. main L J P loader errno_text fuel evs w = Some (Some code, w') \<and>
    (accepted evs \<and> loaded loader evs (ext w) \<noteq> Some None \<longrightarrow> leaks (replaced_texts no_settings evs) w w')"
proof -
  have fuel: "0 < fuel" using patience(2) by simp
  have pos: "0 \<le> fst (fst (os_listen_fds P (ext w)))" using n by simp
  obtain code w' es where run: "main L J P loader errno_text fuel evs w = Some (code, w')"
    "line_outcome L J P loader fuel evs (ext w) code es"
    using main_total [OF env(1) fuel env(2) pos] by blast
  have ended: "code' \<noteq> None" if r: "run_outcome L J P fuel c en1 en2 n x code' es'" for c en1 en2 code' es'
  proof
    assume "code' = None"
    then obtain e t i url es1 where "waiting J (show_url url i) fuel es1" "genuine L ([Curl_global_init, Perform e t] @ es1) x"
      using r unfolding run_outcome_def by (auto split: if_splits)
    then have "fuel \<le> m x" using patience_start [OF _ patience(1)] by blast
    with patience(2) show False by simp
  qed
  obtain k where k: "code = Some k"
    using run(2) ended unfolding line_outcome_def n by (fastforce split: option.splits)
  have "leaks (replaced_texts no_settings evs) w w'" if acc: "accepted evs" and readable: "loaded loader evs (ext w) \<noteq> Some None"
  proof -
    have "\<exists>f. loaded loader evs (ext w) = map_option Some f"
      using readable by (metis option.exhaust option.map(1) option.map(2))
    then obtain f where "inputs_ok L J P loader errno_text f evs w" using env(1) acc by (auto simp: inputs_ok_def)
    from main_run [OF this fuel run(1)] k show ?thesis by blast
  qed
  then show ?thesis using run(1) k by blast
qed

theorem main_returns_witness:
  "\<exists>code w'. main demo_lib demo_json demo_platform no_file ''errno'' 4 demo_line demo_start = Some (Some code, w') \<and>
    heap w' = heap demo_start"
proof -
  have n: "os_listen_fds demo_platform (ext demo_start) = ((0, []), 0)"
    by (simp add: demo_platform_def demo_start_def start_def)
  have env: "environment_ok demo_lib demo_json demo_platform no_file ''errno'' demo_line demo_start"
    and l: "accepted demo_line" "loaded no_file demo_line (ext demo_start) \<noteq> Some None"
    using demo_inputs by (simp_all add: inputs_ok_def)
  show ?thesis
    using main_returns [OF env demo_ready(3) n _ demo_patience, of 4] l nothing_replaced [OF demo_options] by auto
qed

text \<open>
  C11. With memory and with libraries that work as documented (a digest is computed, a handle is made), and on a line of options whose
  file can be read, there are only these ways out of defined behaviour. If a run of \<^verbatim>\<open>main\<close> is undefined, its settings were
  complete, and either the socket module is enabled and systemd has reported an error, or the run has come to one of
  these answers: a request that was created with a number too large for an \<^verbatim>\<open>int\<close>, or with a content type of
  one character; or the answer to the PATCH request of an accepted request has no body (the connection broke, for
  instance) or one that starts with a zero byte. The witness is such a run. What happens without memory or without a digest is said in
  \<open>main_start_without_memory\<close>, \<open>request_key_without_memory\<close> and \<open>digest_roundtrip\<close>.
\<close>

theorem main_undefined_only_when_stuck:
  assumes "inputs_ok L J P loader errno_text f evs w" "0 < fuel" "os_listen_fds P (ext w) = ((n, names), x)"
    and "main L J P loader errno_text fuel evs w = None"
  shows "complaint (run_settings f evs) = None \<and>
    (use_socket f evs \<and> n < 0 \<or>
     (\<exists>host handle es. texts (run_settings f evs) Host = Some host \<and> texts (run_settings f evs) Key = Some handle \<and>
       genuine L es x \<and> stuck J host handle es))"
proof (cases rule: main_outcome [OF assms(1-3)])
  case (2 es)
  from 2(2) obtain host handle where
    "texts (run_settings f evs) Host = Some host" "texts (run_settings f evs) Key = Some handle"
    unfolding complaint_None by auto
  with 2(2-4) show ?thesis by auto
qed (use assms(4) in simp_all)

theorem main_undefined_only_when_stuck_witness:
  "main (server dropping) demo_json demo_platform no_file ''errno'' 5 demo_line demo_start = None \<and>
   (\<exists>es. genuine (server dropping) es 0 \<and> stuck demo_json ''unlocked.example'' ''disk'' es)"
proof -
  have n: "os_listen_fds demo_platform (ext demo_start) = ((0, []), 0)"
    by (simp add: demo_platform_def demo_start_def start_def)
  from main_undefined_only_when_stuck [OF demo_inputs_at [OF dropping_healthy] _ n dropping_main] dropping_main
  show ?thesis by (auto simp: demo_settings)
qed

text \<open>
  C27. A command line can end the program. argp reads the options before the other arguments, wherever they stand: if one of them makes it exit (\<^verbatim>\<open>--help\<close>,
  an unknown option, a missing value), the first of these ends \<^verbatim>\<open>main\<close> with argp's status, even behind an argument that is not an option; if none does,
  such an argument ends it with the status 64. Nothing has been sent, slept, logged, written or asked of the system by the program, whatever the server and the files
  are; what argp itself prints is not modelled.
\<close>

theorem command_line_ends_main:
  assumes "startable w" "argp_events evs"
    and "first_stop evs = Some code \<or> first_stop evs = None \<and> list_ex is_arg evs \<and> code = 64"
  shows "\<exists>w'. main L J P loader errno_text fuel evs w = Some (Some code, w') \<and> ext w' = ext w \<and> trace w' = trace w"
  by (rule main_ends [OF assms(1,2)]) (use assms(3) in \<open>auto simp: line_exit_def\<close>)

theorem command_line_ends_main_witness:
  "(\<exists>w'. main demo_lib demo_json demo_platform no_file ''errno'' 5 ([Arg ''now''] @ demo_line @ [Stop 0]) demo_start =
     Some (Some 0, w') \<and> ext w' = ext demo_start \<and> trace w' = trace demo_start) \<and>
   (\<exists>w'. main demo_lib demo_json demo_platform no_file ''errno'' 5 ([Arg ''now''] @ demo_line) demo_start =
     Some (Some 64, w') \<and> ext w' = ext demo_start \<and> trace w' = trace demo_start)"
proof -
  have evs: "argp_events ([Arg ''now''] @ demo_line @ [Stop 0])" "argp_events ([Arg ''now''] @ demo_line)"
    by (simp_all add: argp_events_def demo_line_def member_of_def ptrdiff_max_def)
  have l: "first_stop ([Arg ''now''] @ demo_line @ [Stop 0]) = Some 0" "first_stop ([Arg ''now''] @ demo_line) = None"
    "list_ex is_arg ([Arg ''now''] @ demo_line)"
    by (simp_all add: demo_line_def)
  show ?thesis
    using command_line_ends_main [OF startable_demo evs(1)] command_line_ends_main [OF startable_demo evs(2)] l by blast
qed

text \<open>
  C9. What \<^verbatim>\<open>main\<close> leaves behind. On a line of options only, with a configuration file that can be read if it names one, with memory and libraries that work as
  documented: whenever \<^verbatim>\<open>main\<close> ends with a status, whatever the server has answered and whatever error it ends with, the heap holds exactly
  one block for each text that a later option of the line has replaced, with that text, and nothing else; it is empty if no option with a text is repeated.
  (A line that argp or an unreadable file ends leaves more behind, see \<open>command_line_ends_main\<close> and \<open>unreadable_file_leaks\<close>.)
\<close>

theorem main_leaks_replaced_texts:
  assumes "inputs_ok L J P loader errno_text f evs (start allocs x)" "0 < fuel"
    and "main L J P loader errno_text fuel evs (start allocs x) = Some (Some code, w')"
  shows "(\<exists>bs. distinct bs \<and> list_all2 (\<lambda>b s. heap w' b = Some (str_obj s)) bs (replaced_texts no_settings evs) \<and>
      (\<forall>b. b \<notin> set bs \<longrightarrow> heap w' b = None)) \<and>
    (distinct (text_options evs) \<longrightarrow> heap w' = (\<lambda>_. None))"
proof -
  have l: "leaks (replaced_texts no_settings evs) (start allocs x) w'" by (rule main_run [OF assms]) simp
  have "heap w' = (\<lambda>_. None)" if "distinct (text_options evs)"
    using l nothing_replaced [OF that] by (simp add: start_def)
  moreover obtain bs where "lost bs (replaced_texts no_settings evs) w'"
      "\<And>b. b \<notin> set bs \<Longrightarrow> heap w' b = heap (start allocs x) b"
    using l unfolding leaks_def by metis
  ultimately show ?thesis by (auto simp: lost_def start_def)
qed

theorem main_leaks_replaced_texts_witness:
  "\<exists>w'. main demo_lib demo_json demo_platform no_file ''errno'' 5 demo_line (start (\<lambda>_. True) 0) = Some (Some EXIT_SUCCESS, w') \<and>
    heap w' = (\<lambda>_. None)"
proof -
  obtain w' es where run: "main demo_lib demo_json demo_platform no_file ''errno'' 5 demo_line demo_start = Some (Some EXIT_SUCCESS, w')"
    by (rule demo_main)
  show ?thesis
    using main_leaks_replaced_texts [OF demo_inputs [unfolded demo_start_def] _ run [unfolded demo_start_def]] run demo_options
    unfolding demo_start_def by auto
qed



text \<open>
  C28. With a host, port, key handle, secret or user missing on a line of options and in the file it names, \<^verbatim>\<open>main\<close> ends with the status 1: no request is made,
  no socket is touched, nothing is delivered, and the heap is restored, but for the texts the line itself has replaced.
\<close>

theorem incomplete_settings_do_nothing:
  assumes "inputs_ok L J P loader errno_text f evs w" "0 < fuel"
    and "complaint (run_settings f evs) \<noteq> None"
  shows "\<exists>w'. main L J P loader errno_text fuel evs w = Some (Some EXIT_FAILURE, w') \<and> actions w' = actions w \<and>
    leaks (replaced_texts no_settings evs) w w' \<and> (replaced_texts no_settings evs = [] \<longrightarrow> heap w' = heap w)"
proof -
  obtain n names x where n: "os_listen_fds P (ext w) = ((n, names), x)" by (metis surj_pair)
  show ?thesis
  proof (cases rule: main_outcome [OF assms(1,2) n])
    case (1 code w' es)
    then have "code = Some EXIT_FAILURE \<and> es = []" using assms(3) unfolding run_outcome_def by simp
    with 1 show ?thesis by auto
  qed (use assms(3) in simp_all)
qed

theorem incomplete_settings_do_nothing_witness:
  "\<exists>w'. main demo_lib demo_json demo_platform no_file ''errno'' 5 [] demo_start = Some (Some EXIT_FAILURE, w') \<and>
    actions w' = actions demo_start \<and> heap w' = heap demo_start"
proof -
  have "complaint (run_settings None []) \<noteq> None"
    by (simp add: complaint_def run_settings_def override_def defaults_def no_settings_def command_line_def)
  from incomplete_settings_do_nothing [OF empty_inputs _ this, of 5] show ?thesis by auto
qed

lemma protocol_no_stdout:
  assumes "key_protocol J host handle (delivered P en1 fd False) es err"
  shows "Fwrite s \<notin> set es"
proof -
  have d: "Fwrite s \<notin> set ds" if "delivered P en1 fd False k err ds" for k ds
    using that by (auto simp: delivered_def sd_socket_outcome_def stdout_outcome_def split: if_splits)
  have "secret xs \<Longrightarrow> Fwrite s \<notin> set xs" for xs by (auto simp: list_all_iff)
  note q = this
  from assms show ?thesis
  proof (cases rule: protocol_shape)
    case (Created e t i es')
    from Created(3) have "Fwrite s \<notin> set es'"
      by (cases rule: awaited_shape) (use q d in \<open>auto\<close>)
    then show ?thesis using Created(1) by simp
  qed simp
qed

text \<open>
  C34. The configuration file has the last word on the modules. On a line of options that names a file that can be read, with memory and libraries that work as documented: if
  the file says \<^verbatim>\<open>use_stdout = 0\<close>, the module for the standard output writes nothing in any run, even if the command line has the option
  \<^verbatim>\<open>--stdout\<close>, as in the witness; and without verbose output nothing at all is written there (with it, the key still is, see
  \<open>verbose_reveals_key\<close>).
\<close>

theorem file_overrides_stdout_option:
  assumes ok: "inputs_ok L J P loader errno_text (Some ini) evs w" and fuel: "0 < fuel"
    and "ini_boolean ini ''stdout:use_stdout'' (- 1) = 0"
    and run: "main L J P loader errno_text fuel evs w = Some (code, w')" "trace w' = trace w @ es"
  shows "Fwrite s \<notin> set es \<and>
    (verbose (run_settings (Some ini) evs) \<noteq> Yes \<and> \<not> g_is_debug w \<longrightarrow> stdout_text es = [])"
proof -
  let ?as = "filter (\<lambda>e. \<not> is_print e) es"
  have off: "use_stdout (Some ini) evs = False" using assms(3) by (simp add: use_stdout_def configured_def)
  obtain n names x es' where r: "actions w' = actions w @ es'"
    "run_outcome L J P fuel (run_settings (Some ini) evs) (use_socket (Some ini) evs) False n x code es'"
    by (rule main_run [OF ok fuel run(1), unfolded off])
  then have es: "es' = ?as" using run(2) by (simp add: actions_def)
  have none: "Fwrite s \<notin> set ?as" for s
  proof (cases code)
    case None
    then obtain e t i es1 where "?as = [Curl_global_init, Perform e t] @ es1"
      "waiting J (show_url (the (texts (run_settings (Some ini) evs) Host)) i) fuel es1"
      using r(2) unfolding run_outcome_def es by (auto split: if_splits)
    then show ?thesis using waiting_secret by (fastforce simp: list_all_iff)
  next
    case (Some k)
    then have "?as = [] \<or> (\<exists>h u en1 fd err. key_protocol J h u (delivered P en1 fd False) ?as err)"
      using r(2) unfolding run_outcome_def es by (auto split: if_splits)
    then show ?thesis using protocol_no_stdout by (elim disjE exE) (simp, blast)
  qed
  have silent: "stdout_text as = []" if "list_all (\<lambda>e. \<not> is_print e) as" "\<And>s. Fwrite s \<notin> set as" for as
    using that
  proof (induction as)
    case (Cons e as)
    then show ?case by (cases e) fastforce+
  qed simp
  have "stdout_text es = []" if "verbose (run_settings (Some ini) evs) \<noteq> Yes" "\<not> g_is_debug w"
    using main_stdout(1) [OF ok run that] silent [OF _ none] by (simp add: list_all_iff)
  moreover have "Fwrite s \<notin> set es" using none [of s] by simp
  ultimately show ?thesis by blast
qed

definition quiet_ini :: dictionary where
  "quiet_ini = demo_ini\<lparr>ini_boolean := \<lambda>k d. if k = ''stdout:use_stdout'' then 0 else d\<rparr>"

definition quiet_file :: "string \<Rightarrow> nat \<Rightarrow> dictionary option" where
  "quiet_file name x = (if name = ''client.ini'' then Some quiet_ini else None)"

definition quiet_line :: "arg_event list" where
  "quiet_line = [Opt 99 (Some ''client.ini''), Opt 300 None]"

lemma quiet_inputs:
  "inputs_ok demo_lib demo_json demo_platform quiet_file ''errno'' (Some quiet_ini) quiet_line demo_start"
proof -
  have good: "accepted quiet_line"
    by (simp add: quiet_line_def member_of_def ptrdiff_max_def)
  have l: "loaded quiet_file quiet_line (ext demo_start) = Some (Some quiet_ini)"
    by (simp add: loaded_def command_line_def quiet_line_def no_settings_def member_of_def quiet_file_def)
  have ini: "ini_ok quiet_ini" using demo_ini_ok by (simp add: ini_ok_def quiet_ini_def)
  have "short s" if "texts (command_line quiet_line) m = Some s" for m s
    using that by (auto simp: no_settings_def command_line_def quiet_line_def member_of_def split: if_splits)
  moreover have "short s" if "config_text quiet_ini m = Some s" for m s
    using that by (cases m) (auto simp: quiet_ini_def demo_ini_def)
  ultimately show ?thesis
    using good l ini startable_demo demo_ready(1-2) demo_listen_names
    by (simp add: inputs_ok_def environment_ok_def accepted_iff)
qed

theorem file_overrides_stdout_option_witness:
  "\<exists>code w' es. main demo_lib demo_json demo_platform quiet_file ''errno'' 5 quiet_line demo_start = Some (code, w') \<and>
    Opt 300 None \<in> set quiet_line \<and> trace w' = trace demo_start @ es \<and> stdout_text es = []"
proof -
  have n: "os_listen_fds demo_platform (ext demo_start) = ((0, []), 0)"
    by (simp add: demo_platform_def demo_start_def start_def)
  obtain code w' where run:
    "main demo_lib demo_json demo_platform quiet_file ''errno'' 5 quiet_line demo_start = Some (code, w')"
    using main_spec [OF quiet_inputs _ n demo_ready(3), of 5] by auto
  have "trace demo_start = []" by (simp add: demo_start_def start_def)
  then have tr: "trace w' = trace demo_start @ trace w'" by simp
  have "ini_boolean quiet_ini ''stdout:use_stdout'' (- 1) = 0" by (simp add: quiet_ini_def)
  moreover have "verbose (run_settings (Some quiet_ini) quiet_line) \<noteq> Yes" "\<not> g_is_debug demo_start"
    by (simp_all add: run_settings_def override_def defaults_def no_settings_def config_settings_def command_line_def
        quiet_line_def member_of_def demo_start_def start_def)
  ultimately have "stdout_text (trace w') = []"
    using file_overrides_stdout_option [OF quiet_inputs _ _ run tr] by simp
  with run tr show ?thesis by (auto simp: quiet_line_def)
qed

section \<open>Every run\<close>

text \<open>
  C5. Whatever the server, the libraries, the memory, the settings and the files are, and from whatever state it starts, a run of
  \<^verbatim>\<open>main\<close> makes only transfers with both checks of the certificate off that are a GET, a POST or a PATCH, pauses for one second at a time,
  prints on the standard output only with the debug flag on, before or after it has read the settings, and neither unlinks nor closes nor changes the mode of any
  file: the functions of \<^verbatim>\<open>sockets.c\<close> are not part of the program.
\<close>

theorem every_run_is_lawful:
  assumes "main L J P loader errno_text fuel evs w = Some (code, w')"
  shows "\<exists>es. trace w' = trace w @ es \<and>
    (\<forall>e t. Perform e t \<in> set es \<longrightarrow> opt_ssl_verifypeer e = 0 \<and> opt_ssl_verifyhost e = 0 \<and>
      opt_customrequest e \<in> {None, Some ''PATCH''}) \<and>
    (\<forall>n. Sleep n \<in> set es \<longrightarrow> n = 1) \<and>
    (\<forall>s. Print Stdout s \<in> set es \<longrightarrow> g_is_debug w \<or> g_is_debug w') \<and>
    (\<forall>s fd m. Unlink s \<notin> set es \<and> Fchmod fd m \<notin> set es \<and> Close fd \<notin> set es)"
proof -
  have "lawful_run w w'" using main_lawful assms by (rule keepsD)
  then obtain v b where v: "lawful w v" "lawful (v\<lparr>g_is_debug := b\<rparr>) w'" unfolding lawful_run_def by blast
  obtain es1 where es1: "trace v = trace w @ es1" "list_all (allowed (g_is_debug w)) es1"
    using v(1) by (auto simp: lawful_def)
  obtain es2 where es2: "trace w' = trace v @ es2" "list_all (allowed (g_is_debug w')) es2"
    using v(2) by (auto simp: lawful_def)
  have all: "e \<in> set (es1 @ es2) \<Longrightarrow> allowed (g_is_debug w \<or> g_is_debug w') e" for e
    using es1(2) es2(2) by (cases e) (auto simp: list_all_iff)
  show ?thesis
    using es1(1) es2(1) all by (intro exI [of _ "es1 @ es2"] conjI) force+
qed

theorem every_run_is_lawful_witness:
  "\<exists>w' es. main demo_lib demo_json demo_platform no_file ''errno'' 5 demo_line demo_start = Some (Some EXIT_SUCCESS, w') \<and>
    trace w' = trace demo_start @ es \<and> Fwrite demo_key \<in> set es \<and>
    (\<forall>e t. Perform e t \<in> set es \<longrightarrow> opt_ssl_verifypeer e = 0 \<and> opt_ssl_verifyhost e = 0) \<and> (\<forall>n. Sleep n \<in> set es \<longrightarrow> n = 1)"
proof -
  obtain w' es' where run: "main demo_lib demo_json demo_platform no_file ''errno'' 5 demo_line demo_start = Some (Some EXIT_SUCCESS, w')"
    "actions w' = actions demo_start @ es'" "Fwrite demo_key \<in> set es'"
    by (rule demo_main)
  from every_run_is_lawful [OF run(1)] obtain es where es: "trace w' = trace demo_start @ es"
    "\<forall>e t. Perform e t \<in> set es \<longrightarrow> opt_ssl_verifypeer e = 0 \<and> opt_ssl_verifyhost e = 0" "\<forall>n. Sleep n \<in> set es \<longrightarrow> n = 1"
    by blast
  have "trace demo_start = []" by (simp add: demo_start_def start_def)
  moreover have "Fwrite demo_key \<in> set (actions w')" using run(2,3) by simp
  ultimately have "Fwrite demo_key \<in> set es" using es(1) by (simp add: actions_def)
  with run(1) es show ?thesis by blast
qed

text \<open>
  C4. The standard output of a run carries nothing but the key. On a line of options only (what argp prints by itself for \<^verbatim>\<open>--help\<close> or \<^verbatim>\<open>--version\<close>, and its status 0, are not part of this, see
  \<open>command_line_ends_main\<close>), whose configuration file can be read if it names one, with memory and libraries that work as documented, and without verbose output: it is
  empty, or it is the beginning of the key a PATCH request for this host has fetched and the module for the standard output is on; if that module is on and the status of the program is 0, it is the
  whole key and nothing else.
\<close>

theorem stdout_carries_only_the_key:
  assumes ok: "inputs_ok L J P loader errno_text f evs w" and fuel: "0 < fuel"
    and run: "main L J P loader errno_text fuel evs w = Some (code, w')" "trace w' = trace w @ es"
    and quiet: "verbose (run_settings f evs) \<noteq> Yes" "\<not> g_is_debug w"
  shows "(stdout_text es \<noteq> [] \<longrightarrow> use_stdout f evs \<and>
      (\<exists>k n host. texts (run_settings f evs) Host = Some host \<and> fetched host es k \<and> stdout_text es = take n k)) \<and>
    (code = Some EXIT_SUCCESS \<and> use_stdout f evs \<longrightarrow>
      (\<exists>host. texts (run_settings f evs) Host = Some host \<and> fetched host es (stdout_text es)))"
proof -
  let ?as = "filter (\<lambda>e. \<not> is_print e) es" and ?c = "run_settings f evs"
  note out = main_stdout [OF ok run quiet]
  obtain n names x es' where r: "actions w' = actions w @ es'"
    "run_outcome L J P fuel ?c (use_socket f evs) (use_stdout f evs) n x code es'"
    by (rule main_run [OF ok fuel run(1)])
  then have es': "es' = ?as" using out(2) by simp
  have np: "list_all (\<lambda>e. \<not> is_print e) ?as" by (simp add: list_all_iff)
  have f: "fetched host es k" if "fetched host ?as k" for host k
    using that unfolding fetched_def by auto
  show ?thesis
  proof (cases "complaint ?c = None \<and> sd_socket_init_err (use_socket f evs) n = UL_OK")
    case False
    then have "code = Some EXIT_FAILURE \<and> ?as = []" using r(2) unfolding run_outcome_def es' by auto
    then show ?thesis using out(1) by simp
  next
    case True
    then obtain host where host: "texts ?c Host = Some host" unfolding complaint_None by auto
    show ?thesis
    proof (cases code)
      case None
      then obtain e t i es1 where "?as = [Curl_global_init, Perform e t] @ es1" "waiting J (show_url host i) fuel es1"
        using r(2) True host unfolding run_outcome_def es' by auto
      then have "stdout_text ?as = []" using stdout_secret [of es1] np waiting_secret by simp
      then show ?thesis using None out(1) by simp
    next
      case (Some k)
      then obtain err fd where p: "key_protocol J host (the (texts ?c Key)) (delivered P (use_socket f evs) fd (use_stdout f evs)) ?as err"
        "k = (if err = UL_OK then EXIT_SUCCESS else EXIT_FAILURE)"
        using r(2) True host unfolding run_outcome_def es' by auto
      show ?thesis
        using protocol_stdout [OF p(1) np] f p(2) Some out(1) host by (metis option.sel zero_neq_one)
    qed
  qed
qed

theorem stdout_carries_only_the_key_witness:
  "\<exists>w' es. main demo_lib demo_json demo_platform no_file ''errno'' 5 demo_line demo_start = Some (Some EXIT_SUCCESS, w') \<and>
    trace w' = trace demo_start @ es \<and> fetched ''unlocked.example'' es (stdout_text es)"
proof -
  obtain w' es0 where run: "main demo_lib demo_json demo_platform no_file ''errno'' 5 demo_line demo_start = Some (Some EXIT_SUCCESS, w')"
    by (rule demo_main)
  have "trace demo_start = []" by (simp add: demo_start_def start_def)
  then have tr: "trace w' = trace demo_start @ trace w'" by simp
  have "verbose (run_settings None demo_line) \<noteq> Yes" "\<not> g_is_debug demo_start" "use_stdout None demo_line"
    by (simp_all add: run_settings_def override_def defaults_def no_settings_def command_line_def demo_line_def
        member_of_def demo_start_def start_def use_stdout_def)
  from stdout_carries_only_the_key [OF demo_inputs _ run tr this(1,2)] this(3) run tr show ?thesis
    by (auto simp: demo_settings)
qed

text \<open>
  C36. The start of \<^verbatim>\<open>main\<close> without memory: if the settings cannot be allocated it ends with the status 1. If the first module cannot be created,
  \<^verbatim>\<open>main\<close> registers a null pointer, and its behaviour is undefined.
\<close>

theorem main_start_without_memory:
  shows "(\<not> allocs 0 \<longrightarrow> (\<exists>w'. main L J P loader errno_text fuel evs (start allocs x) = Some (Some EXIT_FAILURE, w') \<and>
      heap w' = (\<lambda>_. None) \<and> trace w' = [])) \<and>
    (allocs 0 \<and> \<not> allocs 1 \<and> allocs 2 \<longrightarrow> main L J P loader errno_text fuel evs (start allocs x) = None) \<and>
    (allocs 0 \<and> allocs 1 \<and> \<not> allocs 2 \<and> allocs 3 \<longrightarrow> main L J P loader errno_text fuel evs (start allocs x) = None)"
  using main_low_memory [of allocs L J P loader errno_text fuel evs x] by blast

theorem main_start_without_memory_witness:
  "main demo_lib demo_json demo_platform no_file ''errno'' 5 demo_line (start (\<lambda>n. n \<noteq> 1) 0) = None \<and>
   main demo_lib demo_json demo_platform no_file ''errno'' 5 demo_line (start (\<lambda>n. n \<noteq> 2) 0) = None"
  using main_start_without_memory [of "\<lambda>n. n \<noteq> 1" demo_lib demo_json demo_platform no_file "''errno''" 5 demo_line 0]
    main_start_without_memory [of "\<lambda>n. n \<noteq> 2" demo_lib demo_json demo_platform no_file "''errno''" 5 demo_line 0]
  by simp

section \<open>The socket in the file system\<close>

text \<open>
  C40. \<^verbatim>\<open>init_socket\<close> either succeeds with an open descriptor, or fails with none: what was opened is closed and
  unlinked again. The mode it sets is the decimal number 777, which is 1411 in octal and not 0777.
\<close>

theorem socket_open_or_closed:
  assumes "sys_socket Y (ext w) = (fd, x)"
  shows "\<exists>r w' es. init_socket Y w = (r, w') \<and> actions w' = actions w @ es \<and>
    (if r = EXIT_SUCCESS then 0 \<le> fd \<and> g_socket_fd w' = fd \<and> Close fd \<notin> set es
     else r = EXIT_FAILURE \<and> g_socket_fd w' < 0 \<and> (0 \<le> fd \<longrightarrow> (\<exists>es'. es = es' @ [Unlink SOCKET_PATH, Close fd]))) \<and>
    (\<forall>f m. Fchmod f m \<in> set es \<longrightarrow> f = fd \<and> m = 777)"
proof -
  obtain b y where b: "sys_bind Y fd SOCKET_PATH x = (b, y)" by (metis surj_pair)
  obtain l z where l: "sys_listen Y fd y = (l, z)" by (metis surj_pair)
  note defs = init_socket_def cleanup_socket_def perror_def Let_def
  consider (none) "fd < 0" | (bind) "0 \<le> fd" "b < 0" | (listen) "0 \<le> fd" "0 \<le> b" "l = - 1"
    | (ok) "0 \<le> fd" "0 \<le> b" "l \<noteq> - 1" by linarith
  then show ?thesis
  proof cases
    case none
    then show ?thesis using assms by (intro exI) (auto simp: defs actions_def emit_def)
  next
    case bind
    then show ?thesis using assms b by (intro exI) (auto simp: defs actions_def emit_def)
  next
    case listen
    then show ?thesis using assms b l by (intro exI) (auto simp: defs actions_def emit_def)
  next
    case ok
    then show ?thesis using assms b l by (intro exI) (auto simp: defs actions_def emit_def)
  qed
qed

definition full_calls :: "nat socket_calls" where
  "full_calls = \<lparr>sys_socket = (\<lambda>n. (4, n)), sys_bind = (\<lambda>fd p n. (0, n)), sys_listen = (\<lambda>fd n. (- 1, n)),
     sys_accept = (\<lambda>fd n. (- 1, n)), sys_send = (\<lambda>fd s n. (- 1, n)), sys_strerror = (\<lambda>n. ''error'')\<rparr>"

theorem socket_open_or_closed_witness:
  "\<exists>r w' es. init_socket full_calls demo_start = (r, w') \<and> actions w' = actions demo_start @ es \<and>
    (if r = EXIT_SUCCESS then 0 \<le> (4 :: int) \<and> g_socket_fd w' = 4 \<and> Close 4 \<notin> set es
     else r = EXIT_FAILURE \<and> g_socket_fd w' < 0 \<and> (0 \<le> (4 :: int) \<longrightarrow> (\<exists>es'. es = es' @ [Unlink SOCKET_PATH, Close 4]))) \<and>
    (\<forall>f m. Fchmod f m \<in> set es \<longrightarrow> f = 4 \<and> m = 777)"
  by (rule socket_open_or_closed [of _ _ _ 0]) (simp add: full_calls_def demo_start_def start_def)

text \<open>
  \<^verbatim>\<open>getKey\<close> with \<^verbatim>\<open>socket_callback\<close>: after ten seconds one client is accepted. On success the 32 characters of the built-in
  key are sent to it, once; on an error nothing more is sent, and the socket is closed and its descriptor forgotten.
\<close>

theorem socket_serves_key:
  "\<exists>code w' es. getKey sleeper (socket_callback Y) w = Some (code, w') \<and>
    trace w' = trace w @ [Sleep 10, Accept (g_socket_fd w)] @ es \<and>
    (if code = EXIT_SUCCESS
     then (\<exists>c. 0 \<le> c \<and> es = [Send c ''12345678123456781234567812345678'']) \<and> g_socket_fd w' = g_socket_fd w
     else g_socket_fd w' < 0 \<and> length (filter (\<lambda>e. \<exists>c s. e = Send c s) es) \<le> 1)"
proof -
  obtain c x where a: "sys_accept Y (g_socket_fd w) (sleeper 10 (ext w)) = (c, x)" by (metis surj_pair)
  obtain n y where b: "sys_send Y c ''12345678123456781234567812345678'' x = (n, y)" by (metis surj_pair)
  show ?thesis
  proof (cases "c < 0")
    case True
    with a show ?thesis by (auto simp: getKey_def socket_callback_def cleanup_socket_def perror_def emit_def Let_def)
  next
    case False
    with a b show ?thesis
      by (cases "signed_take_bit 31 n < 0")
        (auto simp: getKey_def socket_callback_def cleanup_socket_def perror_def emit_def Let_def)
  qed
qed

end
