(* ===== verification/Spec2Isabelle.thy ===== *)
theory Spec2Isabelle
  imports Example_Run Protocol_Machine Low_Memory Request_Properties Module_Properties Program_Properties
begin

text \<open>
  The unlocked client, verified.

  \<^bold>\<open>The program.\<close> unlocked-client is a command line program in C. It asks a server for a key over
  HTTPS, waits until somebody accepts or denies the request there, and hands the key to its
  modules: one prints it on the standard output, one writes it into a socket systemd has passed.
  \<^verbatim>\<open>main.c\<close> creates the settings, registers the modules (\<^verbatim>\<open>mod/module.c\<close>), reads the command line and the
  configuration file (\<^verbatim>\<open>cli.c\<close>), initialises the modules, calls \<^verbatim>\<open>request_key\<close> (\<^verbatim>\<open>client.c\<close>) and frees
  everything. \<^verbatim>\<open>client.c\<close> makes a POST, GETs and a PATCH through \<^verbatim>\<open>https-client.c\<close>, which signs each
  request with a date and an HMAC and collects the answer in a \<^verbatim>\<open>struct Response\<close>.

  \<^bold>\<open>The model.\<close> The state of the process is the record \<open>world\<close> of the theory World: a typed heap with
  an allocation counter, the static variables of the program, the trace of observable events and the
  state of the outside. An operation takes the state and returns its result with the new state;
  \<open>None\<close> is undefined behaviour (a null or dangling pointer, a double free, an access out of bounds, an
  uninitialised byte, an overflow of an \<^verbatim>\<open>int\<close>), so that a proof that an operation has a result is a
  proof of memory safety. Every allocation can fail, as \<open>alloc_ok\<close> says. \<^verbatim>\<open>size_t\<close> and \<^verbatim>\<open>unsigned int\<close> wrap
  (\<open>size_t\<close>, \<^verbatim>\<open>32 word\<close>).

  \<^bold>\<open>The theories\<close>, in the order of their imports:
  \<^item> Prelude: collections of rules, bytes, decimal numbers.
  \<^item> World: the structures and enumerations of the header files, the heap, the events, the state.
  \<^item> Memory: \<^verbatim>\<open>malloc\<close>, \<^verbatim>\<open>realloc\<close>, \<^verbatim>\<open>free\<close>, strings, \<^verbatim>\<open>snprintf\<close>; the locale \<open>string_builder\<close>, the contract of
    a routine that allocates a string and returns it.
  \<^item> Errors_Log: \<^verbatim>\<open>error.c\<close> and \<^verbatim>\<open>log.c\<close>. Curl: the functions of libcurl, OpenSSL and the clock the code
    calls, as the parameter \<open>lib\<close>.
  \<^item> Http_Date, Http_Auth, Http_Response, Https_Client: \<^verbatim>\<open>https-client.c\<close>. The date header, the
    authorization header, the response with its callbacks, the three requests.
  \<^item> Module_Table: \<^verbatim>\<open>mod/module.c\<close> and the child parsers of \<^verbatim>\<open>cli.c\<close>; the locale \<open>module_steps\<close>, the contract
    of a callback in a loop over the modules. Mod_Stdout and Mod_Sd_Socket: \<^verbatim>\<open>mod/mod_stdout.c\<close> and
    \<^verbatim>\<open>mod/mod_sd_socket.c\<close>. Module_Set: the two modules in the table, and the interpretations of
    \<open>module_steps\<close> for each loop.
  \<^item> Client, Client_Protocol, Exchange, Key_Trace: \<^verbatim>\<open>client.c\<close>, the protocol as inductive relations on traces with
    the proof that \<^verbatim>\<open>request_key\<close> refines it, and what the relations say about a trace. Protocol_Machine: the same
    protocol as a deterministic machine that runs over a trace, and the proof that both accept the same traces.
  \<^item> Cli: \<^verbatim>\<open>cli.c\<close>. Registry: the life of the modules, from \<^verbatim>\<open>register_module\<close> over the command line, the
    configuration and the initialisation to \<^verbatim>\<open>cleanup_modules\<close>; \<open>registry\<close> is the invariant of the table and the
    arrays of the parsers, \<open>moved B B'\<close> says which blocks an operation allocates and frees. Settings: the
    abstract settings behind \<^verbatim>\<open>struct arguments\<close>, with the locale \<open>settings_member\<close> for its strings and
    \<open>layering\<close> for the laws of overriding; \<open>lost bs ts\<close> are blocks no setting points to any more, with their texts.
    Command_Line: what argp may hand over (\<open>argp_events\<close>), which lines it accepts (\<open>accepted\<close>: nothing but options) and with
    which status the others end the program (\<open>line_exit\<close>), which texts a line replaces (\<open>replaced_texts\<close>), and the
    specification of \<^verbatim>\<open>handle_args\<close> in each case.
  \<^item> Sockets: \<^verbatim>\<open>sockets.c\<close>. Main_Program: \<^verbatim>\<open>main.c\<close>. Program_Run: the specification of \<^verbatim>\<open>main\<close>, which puts those
    of all components together. \<open>environment_ok\<close> is what a run relies on, \<open>inputs_ok\<close> adds that the line has nothing but
    options and a file that can be read, if any; \<open>run_outcome\<close> is what comes of such a run, \<open>line_outcome\<close> of any
    line, \<open>leaks ts\<close> what stays in the heap.
  \<^item> Guarantee, Lawful_Run: what every run of every operation guarantees, without any assumption on the
    environment. The locale \<open>guarantee\<close> has one rule for each construct the operations are written with; its
    interpretations carry \<open>lawful\<close> (well-formed memory, only \<open>allowed\<close> events) from the allocation
    of a block up to \<^verbatim>\<open>main\<close>. Program_Output: what a run writes to its standard output. Low_Memory: the first allocations
    of \<^verbatim>\<open>request_key\<close> and \<^verbatim>\<open>main\<close> when there is no memory for them.
  \<^item> Example_Server, Example_Run: concrete environments on which the hypotheses of the properties hold.
  \<^item> Request_Properties, Module_Properties, Program_Properties and this theory: the properties of the
    requests and their headers and answers, of the modules and their table, of the command line, the
    sockets and \<^verbatim>\<open>main\<close>, and of the exchange with the server.

  \<^bold>\<open>Parameters.\<close> Code that is not in the repository is a parameter: \<open>lib\<close> (libcurl, OpenSSL, clock),
  \<open>cjson\<close>, \<open>platform\<close> (\<^verbatim>\<open>fwrite\<close>, \<^verbatim>\<open>fflush\<close>, systemd, \<^verbatim>\<open>accept\<close>, \<^verbatim>\<open>send\<close>), \<open>dictionary\<close> (iniparser),
  \<open>socket_calls\<close>, and the events argp makes of a command line. What the properties assume of them
  is in \<open>lib_ok\<close> and \<open>healthy\<close> (an appended header is at the end of its list, HMAC computes a SHA512 digest of 64
  bytes, \<^verbatim>\<open>curl_easy_init\<close> makes a handle, the clock is within the years 1000 to 9999, an answer fits in memory), \<open>json_ok\<close> (strings
  are C strings), \<open>names_ok\<close> (systemd passes as many names as descriptors, none with an error), \<open>listen_ok\<close> (and reports no
  error), \<open>argp_events\<close> (an option of the tables, with a value if and only if it takes one), \<open>ini_ok\<close> (a value of the file is a
  C string) and \<open>sane\<close> (the answers behind which the code has defined behaviour: the network may fail,
  but not the PATCH request). The properties of a run that returned do not need \<open>sane\<close>;
  \<open>main_undefined_only_when_stuck\<close> says what happens without it and with an error of systemd,
  \<open>initialisation_checks_sockets\<close> and \<open>digest_roundtrip\<close> what such an error and a missing digest do.

  The properties that say what an exchange or a run of \<^verbatim>\<open>main\<close> does assume that no allocation fails; those of the
  single functions, of every run, and those on memory say what happens otherwise.

  \<^bold>\<open>Bounds and fuel.\<close> The loop of \<^verbatim>\<open>request_key\<close> ends when the server stops answering PENDING, so \<open>poll\<close>
  takes the number of requests it may make; \<open>main_returns\<close> says which number is enough, and
  \<open>request_key_waits_forever\<close> that no number is enough against a server that never decides. All other
  loops end by themselves: over a list, over the 64 bytes of a digest, over the bytes of a block
  (\<open>strToLower\<close>, by a measure), over the table (\<open>module_loop\<close>, by a measure on a 32 bit counter). The texts of
  the settings are at most a million characters long in the properties of \<^verbatim>\<open>request_key\<close> (\<open>short\<close>), so
  that every formatted text has a length that fits in an \<^verbatim>\<open>int\<close>.

  \<^bold>\<open>Not modelled.\<close> The tests, the build files, the packaging, \<^verbatim>\<open>version.h\<close>, and what argp prints by itself: the
  texts of \<^verbatim>\<open>--help\<close>, \<^verbatim>\<open>--usage\<close> and \<^verbatim>\<open>--version\<close> and its error messages. An exit of argp is an event of the line with its status; the
  parsers see the options before the other arguments, as argp hands them over without its flags (\<open>permuted\<close>). The
  memory cJSON and iniparser allocate for themselves is not in the heap of the model. \<^verbatim>\<open>sys/socket\<close>,
  argp's splitting of the command line and the file format of iniparser are parameters.
\<close>

section \<open>The exchange with the server\<close>

text \<open>
  C1. Every run of \<^verbatim>\<open>request_key\<close> is a run of the protocol: a POST that asks for the key; unless the
  answer has the status 201, an error; GET requests for the state of the request, a second apart, as
  long as it is PENDING; on DENIED or any other state an error; on ACCEPTED a PATCH whose answer is
  handed to the modules. Each answer in the trace is the one the outside gave at that point. If the
  fuel is used up, all answers so far were PENDING.
\<close>

theorem request_key_refines_protocol:
  fixes w :: "'e world"
  assumes "healthy L" "json_ok J" "sane J L" "world_wf w" "settings_ready a args host handle w"
    "modules_ready sd st en1 fd en2 w" "0 < fuel"
  shows "\<exists>res w' es. request_key L J (dispatch P) fuel a w = Some (res, w') \<and> actions w' = actions w @ es \<and>
    genuine L es (ext w) \<and>
    (case res of
       None \<Rightarrow> \<exists>e t i es'. created J host handle e t i \<and> waiting J (show_url host i) fuel es' \<and>
         es = [Curl_global_init, Perform e t] @ es'
     | Some err \<Rightarrow> key_protocol J host handle (delivered P en1 fd en2) es err)"
  using request_key_spec [OF assms, of P] by (fastforce simp: did_def split: option.splits)

theorem request_key_refines_protocol_witness:
  "\<exists>res w' es. request_key demo_lib demo_json (dispatch demo_platform) 5 (Ptr 0) demo_world = Some (res, w') \<and>
    actions w' = actions demo_world @ es \<and> genuine demo_lib es (ext demo_world) \<and>
    (case res of
       None \<Rightarrow> \<exists>e t i es'. created demo_json ''unlocked.example'' ''disk'' e t i \<and>
         waiting demo_json (show_url ''unlocked.example'' i) 5 es' \<and>
         es = [Curl_global_init, Perform e t] @ es'
     | Some err \<Rightarrow> key_protocol demo_json ''unlocked.example'' ''disk''
         (delivered demo_platform False 0 True) es err)"
  by (rule request_key_refines_protocol [OF demo_ready]) simp

text \<open>
  C3. \<^verbatim>\<open>request_key\<close> is a state machine. The events of a run drive the machine \<open>advance\<close> from its start: while the code waits for the
  server the machine pauses, behind as many questions as the fuel; when the code returns an error before the delivery, the machine has
  ended with just this error; otherwise it has come to the delivery of a key, and the rest of the trace is how the modules deliver that
  key. Nothing is assumed of the answers.
\<close>

theorem request_key_follows_machine:
  fixes w :: "'e world"
  assumes ready: "healthy L" "json_ok J" "world_wf w" "settings_ready a args host handle w"
    "modules_ready sd st en1 fd en2 w" "0 < fuel"
    and run: "request_key L J (dispatch P) fuel a w = Some (res, w')" "actions w' = actions w @ es"
  shows "case res of
       None \<Rightarrow> \<exists>i. follow J host handle Started es = Some (Pausing i) \<and> length (filter is_perform es) = Suc fuel
     | Some err \<Rightarrow> follow J host handle Started es = Some (Ended err) \<or>
         (\<exists>pre k ds. es = pre @ ds \<and> follow J host handle Started pre = Some (Delivering k) \<and>
            delivered P en1 fd en2 k err ds)"
proof (cases rule: request_key_runE [OF ready run])
  case (1 e t i es')
  have "follow J host handle Started es = Some (Pausing i)"
    using 1(2,3) waiting_follow [OF 1(4), of handle] ready(6) by (simp add: created_def)
  then show ?thesis using 1(1,2) waiting_count [OF 1(4)] by simp
next
  case (2 err)
  from 2(2) show ?thesis unfolding protocol_machine 2(1) by simp
qed

theorem request_key_follows_machine_witness:
  "\<exists>w' es pre ds.
    request_key demo_lib demo_json (dispatch demo_platform) 5 (Ptr 0) demo_world = Some (Some UL_OK, w') \<and>
    actions w' = actions demo_world @ es \<and> es = pre @ ds \<and>
    (\<exists>k. follow demo_json ''unlocked.example'' ''disk'' Started pre = Some (Delivering k) \<and>
       delivered demo_platform False 0 True k UL_OK ds)"
proof -
  obtain w' es where run:
    "request_key demo_lib demo_json (dispatch demo_platform) 5 (Ptr 0) demo_world = Some (Some UL_OK, w')"
    "actions w' = actions demo_world @ es"
    by (rule demo_run)
  have no: "follow demo_json ''unlocked.example'' ''disk'' Started es \<noteq> Some (Ended UL_OK)"
    by (rule follow_not_ok) simp
  from request_key_follows_machine [OF demo_setting _ run] no run show ?thesis by simp blast
qed

text \<open>
  C6. The key is fetched and handed over only after the server has accepted the request this run has made. Every PATCH
  and every byte given to a module comes after a POST that asks for the key handle, whose answer has created the request number \<open>i\<close>, and
  after a GET for the request \<open>i\<close> whose answer says ACCEPTED; nothing was fetched or handed over before that answer. There is
  one PATCH, for the same request \<open>i\<close>, it is the last transfer, and what the modules are given is the key in its answer, or
  the beginning of it. This is for a start with memory and libraries that work as documented; nothing is assumed of the answers.
\<close>

theorem key_only_after_acceptance:
  fixes w :: "'e world"
  assumes ready: "healthy L" "json_ok J" "world_wf w" "settings_ready a args host handle w"
    "modules_ready sd st en1 fd en2 w" "0 < fuel"
    and run: "request_key L J (dispatch P) fuel a w = Some (res, w')" "actions w' = actions w @ es"
    and x: "x \<in> set es" "reveals x"
  shows "\<exists>e0 t0 i pre e t e' t' ds.
    es = [Curl_global_init, Perform e0 t0] @ pre @ [Perform e t, Perform e' t', Curl_global_cleanup] @ ds \<and>
    created J host handle e0 t0 i \<and> x \<in> set (Perform e' t' # ds) \<and> secret ([Curl_global_init, Perform e0 t0] @ pre) \<and>
    asked e (show_url host i) None None \<and> answer_state J t = Some ''ACCEPTED'' \<and>
    asked e' (show_url host i) (Some fulfilled_body) (Some ''PATCH'') \<and> filter is_perform ds = [] \<and>
    (\<forall>s. Fwrite s \<in> set ds \<longrightarrow> (\<exists>n. s = take n (key_in t'))) \<and> (\<forall>c s. Send c s \<in> set ds \<longrightarrow> s = key_in t')"
proof (cases rule: request_key_runE [OF ready run])
  case (1 e t i es')
  then have "secret es" using created_secret waiting_secret by fastforce
  with x show ?thesis by (auto simp: list_all_iff)
next
  case (2 err)
  show ?thesis using 2(2) x by (rule protocol_acceptance)
qed

theorem key_only_after_acceptance_witness:
  "\<exists>w' es. request_key demo_lib demo_json (dispatch demo_platform) 5 (Ptr 0) demo_world = Some (Some UL_OK, w') \<and>
    actions w' = actions demo_world @ es \<and>
    (\<exists>e0 t0 i pre e t e' t' ds.
      es = [Curl_global_init, Perform e0 t0] @ pre @ [Perform e t, Perform e' t', Curl_global_cleanup] @ ds \<and>
      created demo_json ''unlocked.example'' ''disk'' e0 t0 i \<and> Fwrite demo_key \<in> set ds \<and>
      asked e (show_url ''unlocked.example'' i) None None \<and> answer_state demo_json t = Some ''ACCEPTED'')"
proof -
  obtain w' es where run:
    "request_key demo_lib demo_json (dispatch demo_platform) 5 (Ptr 0) demo_world = Some (Some UL_OK, w')"
    "actions w' = actions demo_world @ es" and key: "Fwrite demo_key \<in> set es"
    by (rule demo_run)
  obtain e0 t0 i pre e t e' t' ds where
    "es = [Curl_global_init, Perform e0 t0] @ pre @ [Perform e t, Perform e' t', Curl_global_cleanup] @ ds"
    "created demo_json ''unlocked.example'' ''disk'' e0 t0 i" "Fwrite demo_key \<in> set ds"
    "asked e (show_url ''unlocked.example'' i) None None" "answer_state demo_json t = Some ''ACCEPTED''"
    using key_only_after_acceptance [OF demo_setting _ run key] by auto
  then show ?thesis using run by blast
qed

text \<open>
  C8. When \<^verbatim>\<open>request_key\<close> succeeds and the module for the standard output is enabled, the bytes written
  last are exactly the key: the body of the answer to the PATCH request, as far as it has no zero byte.
\<close>

theorem key_delivered_exactly:
  fixes w :: "'e world"
  assumes ready: "healthy L" "json_ok J" "world_wf w" "settings_ready a args host handle w"
    "modules_ready sd st en1 fd True w" "0 < fuel"
    and run: "request_key L J (dispatch P) fuel a w = Some (Some UL_OK, w')" "actions w' = actions w @ es"
  shows "\<exists>pre e t mid i k. es = pre @ [Perform e t] @ mid @ [Fwrite (key_text k)] \<and>
    asked e (show_url host i) (Some fulfilled_body) (Some ''PATCH'') \<and> answer_body t = Some k \<and>
    filter is_perform mid = []"
  using ready run by (rule request_key_success)

theorem key_delivered_exactly_witness:
  "\<exists>w' es pre e t mid i k.
    request_key demo_lib demo_json (dispatch demo_platform) 5 (Ptr 0) demo_world = Some (Some UL_OK, w') \<and>
    actions w' = actions demo_world @ es \<and>
    es = pre @ [Perform e t] @ mid @ [Fwrite (key_text k)] \<and>
    asked e (show_url ''unlocked.example'' i) (Some fulfilled_body) (Some ''PATCH'') \<and>
    answer_body t = Some k \<and> filter is_perform mid = []"
proof -
  obtain w' es where run:
    "request_key demo_lib demo_json (dispatch demo_platform) 5 (Ptr 0) demo_world = Some (Some UL_OK, w')"
    "actions w' = actions demo_world @ es"
    by (rule demo_run)
  show ?thesis using key_delivered_exactly [OF demo_setting _ run] run by simp
qed

text \<open>
  C15. When \<^verbatim>\<open>request_key\<close> reports that the request was denied, the last thing that happened is a GET
  answered with DENIED, and nothing was fetched or handed over.
\<close>

theorem denied_gives_nothing:
  fixes w :: "'e world"
  assumes ready: "healthy L" "json_ok J" "world_wf w" "settings_ready a args host handle w"
    "modules_ready sd st en1 fd en2 w" "0 < fuel"
    and run: "request_key L J (dispatch P) fuel a w = Some (Some UL_DENIED, w')" "actions w' = actions w @ es"
  shows "secret es \<and> (\<exists>pre e t i. es = pre @ [Perform e t] \<and> asked e (show_url host i) None None \<and>
    answer_state J t = Some ''DENIED'')"
  using ready run by (rule request_key_denied)

theorem denied_gives_nothing_witness:
  "\<exists>w' es. request_key (server denying) demo_json (dispatch demo_platform) 5 (Ptr 0) demo_world = Some (Some UL_DENIED, w') \<and>
    actions w' = actions demo_world @ es \<and> secret es \<and>
    (\<exists>pre e t i. es = pre @ [Perform e t] \<and> asked e (show_url ''unlocked.example'' i) None None \<and>
      answer_state demo_json t = Some ''DENIED'')"
proof -
  obtain w' es where run:
    "request_key (server denying) demo_json (dispatch demo_platform) 5 (Ptr 0) demo_world = Some (Some UL_DENIED, w')"
    "actions w' = actions demo_world @ es"
    by (rule denying_run)
  show ?thesis using denied_gives_nothing [OF denying_setting _ run] run by simp
qed

text \<open>
  C10. \<^verbatim>\<open>request_key\<close> does not leak and does not touch what it did not allocate: whatever the server
  answers, when it returns the heap is the heap it started with.
\<close>

theorem request_key_restores_heap:
  fixes w :: "'e world"
  assumes "healthy L" "json_ok J" "world_wf w" "settings_ready a args host handle w"
    "modules_ready sd st en1 fd en2 w" "0 < fuel"
    and "request_key L J (dispatch P) fuel a w = Some (Some err, w')"
  shows "heap w' = heap w \<and> world_wf w'"
  using assms by (rule request_key_restores)

theorem request_key_restores_heap_witness:
  "\<exists>w'. request_key demo_lib demo_json (dispatch demo_platform) 5 (Ptr 0) demo_world = Some (Some UL_OK, w') \<and>
    heap w' = heap demo_world \<and> world_wf w'"
proof -
  obtain w' es where run:
    "request_key demo_lib demo_json (dispatch demo_platform) 5 (Ptr 0) demo_world = Some (Some UL_OK, w')"
    "actions w' = actions demo_world @ es"
    by (rule demo_run)
  show ?thesis using request_key_restores_heap [OF demo_setting _ run(1)] run(1) by auto
qed

text \<open>
  The exchange ends: against a server that says PENDING at most so often, \<^verbatim>\<open>request_key\<close> returns a
  result as soon as the fuel exceeds that number.
\<close>

theorem request_key_returns:
  fixes w :: "'e world"
  assumes ready: "healthy L" "json_ok J" "sane J L" "world_wf w" "settings_ready a args host handle w"
    "modules_ready sd st en1 fd en2 w"
    and patience: "patience J L m" "m (ext w) < fuel"
  shows "\<exists>err w'. request_key L J (dispatch P) fuel a w = Some (Some err, w')"
proof -
  have fuel: "0 < fuel" using patience(2) by simp
  obtain res w' es where run: "request_key L J (dispatch P) fuel a w = Some (res, w')" "actions w' = actions w @ es"
    using request_key_total [OF ready fuel] by blast
  show ?thesis
  proof (cases rule: request_key_runE [OF ready(1,2,4-6) fuel run])
    case (1 e t i es')
    then have "fuel \<le> m (ext w)" using patience(1) by (rule_tac patience_start) simp_all
    with patience(2) show ?thesis by simp
  qed (use run in blast)
qed

theorem request_key_returns_witness:
  "\<exists>err w'. request_key demo_lib demo_json (dispatch demo_platform) 4 (Ptr 0) demo_world = Some (Some err, w')"
  by (rule request_key_returns [OF demo_ready demo_patience]) (simp add: demo_world_def start_def)

text \<open>
  Whatever the server answers, the behaviour of \<^verbatim>\<open>request_key\<close> is undefined at most behind these
  answers: a request that was created with a number too large for an \<^verbatim>\<open>int\<close>, or with a content type of
  one character; or the answer to the PATCH request of an accepted request has no body (the connection broke, for
  instance) or one that starts with a zero byte. The witness is such a run.
\<close>

theorem request_key_undefined_only_when_stuck:
  fixes w :: "'e world"
  assumes ready: "healthy L" "json_ok J" "world_wf w" "settings_ready a args host handle w"
    "modules_ready sd st en1 fd en2 w" "0 < fuel"
    and "request_key L J (dispatch P) fuel a w = None"
  shows "\<exists>es. genuine L es (ext w) \<and> stuck J host handle es"
  by (cases rule: request_key_outcome [OF ready, of P]) (use assms(7) in auto)

theorem request_key_undefined_only_when_stuck_witness:
  "request_key (server dropping) demo_json (dispatch demo_platform) 5 (Ptr 0) demo_world = None \<and>
   (\<exists>es. genuine (server dropping) es (ext demo_world) \<and> stuck demo_json ''unlocked.example'' ''disk'' es)"
  using request_key_undefined_only_when_stuck [OF dropping_setting _ dropping_run] dropping_run by simp

text \<open>
  C20. Nothing bounds the polling: against a server that goes on saying PENDING, \<^verbatim>\<open>request_key\<close> has no
  result for any number of requests.
\<close>

theorem request_key_waits_forever:
  fixes w :: "'e world"
  assumes ready: "healthy L" "json_ok J" "sane J L" "world_wf w" "settings_ready a args host handle w"
    "modules_ready sd st en1 fd en2 w" "0 < fuel"
    and U: "undecided J L"
  shows "\<exists>w'. request_key L J (dispatch P) fuel a w = Some (None, w')"
proof -
  obtain res w' es where run: "request_key L J (dispatch P) fuel a w = Some (res, w')" "actions w' = actions w @ es"
    using request_key_total [OF ready] by blast
  show ?thesis
  proof (cases rule: request_key_runE [OF ready(1,2,4-7) run])
    case (2 err)
    then show ?thesis using undecided_protocol [OF U] by blast
  qed (use run in blast)
qed

theorem request_key_waits_forever_witness:
  "\<exists>w'. request_key (server stalling) demo_json (dispatch demo_platform) 100 (Ptr 0) demo_world = Some (None, w')"
  by (rule request_key_waits_forever [OF stalling_ready _ stalling_undecided]) simp

text \<open>
  C26. How much the program asks of the server, over every run: at most three transfers more than the server has said PENDING to a
  GET. It pauses once for every PENDING, for one second, and at no other time: right behind a GET for the request the POST has
  created, answered PENDING, and right before the next GET for the same request. While it still waits, it has paused at most so
  often. This is for a start with memory and libraries that work as documented; nothing is assumed of the answers.
\<close>

theorem waiting_requests_counted:
  fixes w :: "'e world"
  assumes ready: "healthy L" "json_ok J" "world_wf w" "settings_ready a args host handle w"
    "modules_ready sd st en1 fd en2 w" "0 < fuel"
    and run: "request_key L J (dispatch P) fuel a w = Some (res, w')" "actions w' = actions w @ es"
  shows "length (filter is_perform es) \<le> 3 + length (filter (pending J) es) \<and>
    (if res = None then length (filter is_sleep es) \<le> length (filter (pending J) es)
     else length (filter is_sleep es) = length (filter (pending J) es)) \<and>
    (\<exists>e0 t0 rest. es = [Curl_global_init, Perform e0 t0] @ rest \<and>
      asked e0 (requests_url host) (Some (request_body_text handle)) None \<and>
      (\<forall>pre n post. rest = pre @ Sleep n # post \<longrightarrow>
        n = 1 \<and> (\<exists>i. created J host handle e0 t0 i \<and> pauses_at J (show_url host i) pre post)))"
proof (cases rule: request_key_runE [OF ready run])
  case (1 e t i es')
  then show ?thesis unfolding 1(2) using waiting_asks [OF 1(3,4)] by (simp only: if_True simp_thms)
next
  case (2 err)
  then show ?thesis using protocol_asks [OF 2(2)] by (simp only: if_False simp_thms option.distinct)
qed

theorem waiting_requests_counted_witness:
  "\<exists>w' es. request_key demo_lib demo_json (dispatch demo_platform) 5 (Ptr 0) demo_world = Some (Some UL_OK, w') \<and>
    actions w' = actions demo_world @ es \<and> length (filter is_perform es) \<le> 3 + length (filter (pending demo_json) es) \<and>
    length (filter is_sleep es) = length (filter (pending demo_json) es)"
proof -
  obtain w' es where run:
    "request_key demo_lib demo_json (dispatch demo_platform) 5 (Ptr 0) demo_world = Some (Some UL_OK, w')"
    "actions w' = actions demo_world @ es"
    by (rule demo_run)
  show ?thesis using waiting_requests_counted [OF demo_setting _ run] run by simp
qed

text \<open>
  The loop of \<^verbatim>\<open>request_key\<close> does not depend on the fuel: a result it has for some fuel is its
  result for any greater fuel, whatever the environment does.
\<close>

theorem poll_fuel_irrelevant:
  assumes "poll L J fuel rq q w = Some (Some st, w')" "fuel \<le> fuel'"
  shows "poll L J fuel' rq q w = Some (Some st, w')"
  using assms by (rule poll_fuel_mono)

theorem poll_fuel_irrelevant_witness:
  "\<exists>st w'. poll demo_lib demo_json 5 demo_request NULL demo_world = Some (Some st, w') \<and>
     poll demo_lib demo_json 9 demo_request NULL demo_world = Some (Some st, w')"
proof -
  obtain st w' where run: "poll demo_lib demo_json 5 demo_request NULL demo_world = Some (Some st, w')"
    by (rule demo_poll)
  from run poll_fuel_irrelevant [OF run, of 9] show ?thesis by simp
qed

text \<open>
  If the first answer does not have the status 201, \<^verbatim>\<open>request_key\<close> fails with a logic error after
  this one request.
\<close>

theorem refused_after_one_request:
  fixes w :: "'e world"
  assumes ready: "healthy L" "json_ok J" "world_wf w" "settings_ready a args host handle w"
    "modules_ready sd st en1 fd en2 w" "0 < fuel"
    and run: "request_key L J (dispatch P) fuel a w = Some (res, w')"
      "actions w' = actions w @ [Curl_global_init, Perform e t] @ es"
    and code: "tr_response_code t \<noteq> 201"
  shows "res = Some UL_ERR \<and> es = []"
proof (cases rule: request_key_runE [OF ready run])
  case (1 e' t' i es')
  then show ?thesis using code by (simp add: created_def)
next
  case (2 err)
  from 2(2) show ?thesis
    by (cases rule: protocol_shape) (use 2(1) code in \<open>simp_all add: created_def\<close>)
qed

theorem refused_after_one_request_witness:
  "\<exists>w' e t. request_key (server refusing) demo_json (dispatch demo_platform) 5 (Ptr 0) demo_world = Some (Some UL_ERR, w') \<and>
    actions w' = actions demo_world @ [Curl_global_init, Perform e t] \<and> tr_response_code t = 401"
proof -
  obtain res w' e t es where run:
    "request_key (server refusing) demo_json (dispatch demo_platform) 5 (Ptr 0) demo_world = Some (res, w')"
    "actions w' = actions demo_world @ [Curl_global_init, Perform e t] @ es" and code: "tr_response_code t = 401"
    by (rule refusing_run)
  show ?thesis using refused_after_one_request [OF refusing_setting _ run] run code by auto
qed

text \<open>
  C12. The first three allocations of \<^verbatim>\<open>request_key\<close> are the response, the body and the url of the first request. Without memory for the
  body or the url it reports it and makes no request; the body is freed, but the response stays allocated. The response itself is not checked: without memory for
  it, the program goes through the null pointer, and its behaviour is undefined.
\<close>

theorem request_key_without_memory:
  assumes "world_wf w" "arguments_of a w = Some args" "cstr (arg_host args) w = Some host" "short host"
    "cstr (arg_key_handle args) w = Some handle" "short handle"
  shows "(\<not> alloc_ok w (brk w) \<and> alloc_ok w (brk w + 1) \<and> alloc_ok w (brk w + 2) \<longrightarrow> request_key L J D fuel a w = None) \<and>
    (\<not> alloc_ok w (brk w + 1) \<or> \<not> alloc_ok w (brk w + 2) \<longrightarrow>
      (\<exists>w'. request_key L J D fuel a w = Some (Some UL_MALLOC, w') \<and> actions w' = actions w \<and>
        heap w' = (if alloc_ok w (brk w) then (heap w)(brk w \<mapsto> fresh_response) else heap w)))"
  using request_key_low_memory [OF assms, of L J D fuel] by auto

theorem request_key_without_memory_witness:
  "request_key demo_lib demo_json (dispatch demo_platform) 5 (Ptr 0) (demo_world\<lparr>alloc_ok := \<lambda>n. n \<noteq> 7\<rparr>) = None \<and>
   (\<exists>w'. request_key demo_lib demo_json (dispatch demo_platform) 5 (Ptr 0) (demo_world\<lparr>alloc_ok := \<lambda>n. n \<noteq> 8\<rparr>) =
      Some (Some UL_MALLOC, w') \<and> heap w' = (heap demo_world)(7 \<mapsto> fresh_response))"
proof -
  have short: "short ''unlocked.example''" "short ''disk''" by simp_all
  have ready: "world_wf (demo_world\<lparr>alloc_ok := f\<rparr>)" "arguments_of (Ptr 0) (demo_world\<lparr>alloc_ok := f\<rparr>) = Some demo_args"
    "cstr (arg_host demo_args) (demo_world\<lparr>alloc_ok := f\<rparr>) = Some ''unlocked.example''"
    "cstr (arg_key_handle demo_args) (demo_world\<lparr>alloc_ok := f\<rparr>) = Some ''disk''" for f
    by (simp_all add: demo_world_def demo_args_def start_def world_wf_def arguments_of_def deref_def)
  have b: "brk demo_world = 7" by (simp add: demo_world_def start_def)
  show ?thesis
    using request_key_without_memory [OF ready(1,2,3) short(1) ready(4) short(2), of "\<lambda>n. n \<noteq> 7" demo_lib demo_json "dispatch demo_platform" 5]
      request_key_without_memory [OF ready(1,2,3) short(1) ready(4) short(2), of "\<lambda>n. n \<noteq> 8" demo_lib demo_json "dispatch demo_platform" 5]
    by (simp add: b) blast
qed

end
